theory Spec2Isabelle
  imports Complex_Main "HOL-Library.Multiset" "HOL-Library.Sublist"
begin

section \<open>Overview\<close>

text \<open>
  The repository answers what a procedure typically costs near a ZIP code.  It holds
  several versions of the endpoint, and the theory embeds the four kinds among them:
  \<^item> the cascade without row filters (a CommonJS handler over Postgres): exact ZIP, ZIP3,
    radius, state, national, each accepted when it fetched at least \<^verbatim>\<open>MIN_N\<close> rows;
  \<^item> the cascade with row filters: the same cascade behind \<^verbatim>\<open>runQuery\<close>, which filters
    the fetched rows by \<^verbatim>\<open>exclude_zero\<close> and \<^verbatim>\<open>min_paid\<close> before it counts them;
  \<^item> the single-scope handler over the exact ZIP, whose statistics use the interpolating
    \<^verbatim>\<open>pct\<close>;
  \<^item> the paginated scope fallback over the view \<^verbatim>\<open>v_claim_metrics\<close>.

  The handlers compute in JavaScript numbers, which are IEEE 754 doubles.  The arithmetic
  of the statistics (the sum and quotient of the mean, the blend of the percentile) is
  embedded with its rounding: every operation yields the double nearest to the exact result.

  The definitions come first, one section per part of the source, then the facts about
  them.
\<close>

section \<open>Numbers and rows as the handlers see them\<close>

text \<open>
  Every handler converts a column with \<^verbatim>\<open>Number(...)\<close> before it looks at it.  A value of
  \<open>jsnum\<close> is the result of that conversion: a finite number, \<^verbatim>\<open>NaN\<close> or one of the two
  infinities.  A finite number is given by its value, a real; the values that occur in a run
  are doubles (\<open>is_double\<close> below).  The sign of a zero is not part of the model: no
  handler divides by a zero or prints one.
\<close>

datatype jsnum = Fin real | NaN | PosInf | NegInf


fun fin_of :: "jsnum \<Rightarrow> real option" where
  "fin_of (Fin x) = Some x"
| "fin_of NaN = None"
| "fin_of PosInf = None"
| "fin_of NegInf = None"

section \<open>Double-precision arithmetic\<close>

text \<open>
  The number of binary digits of a natural number, and with it the binade of a positive
  real \<open>x\<close>: the integer \<open>e\<close> with \<open>2^e \<le> x < 2^(e+1)\<close>.
\<close>

fun bit_length :: "nat \<Rightarrow> nat" where
  "bit_length n = (if n = 0 then 0 else Suc (bit_length (n div 2)))"

definition binade :: "real \<Rightarrow> int" where
  "binade x =
     (if 1 \<le> x then int (bit_length (nat \<lfloor>x\<rfloor>)) - 1
      else - int (bit_length (nat (\<lceil>1 / x\<rceil> - 1))))"

text \<open>
  The spacing of the doubles around \<open>x\<close>: 52 binary digits below the binade of \<open>x\<close>, and
  \<open>2^-1074\<close> in the subnormal range.
\<close>

definition ulp :: "real \<Rightarrow> real" where
  "ulp x = 2 powi (max (binade \<bar>x\<bar>) (- 1022) - 52)"

text \<open>Rounding to the nearest integer, a tie going to the even one.\<close>

definition round_ties_even :: "real \<Rightarrow> int" where
  "round_ties_even t =
     (if t - of_int \<lfloor>t\<rfloor> < 1 / 2 then \<lfloor>t\<rfloor>
      else if 1 / 2 < t - of_int \<lfloor>t\<rfloor> then \<lfloor>t\<rfloor> + 1
      else if even \<lfloor>t\<rfloor> then \<lfloor>t\<rfloor> else \<lfloor>t\<rfloor> + 1)"

definition nearest_multiple :: "real \<Rightarrow> real" where
  "nearest_multiple x = of_int (round_ties_even (x / ulp x)) * ulp x"

text \<open>
  The result of an arithmetic operation whose exact value is \<open>x\<close>: the nearest double
  (round to nearest, ties to even), or an infinity when that lies beyond the largest double.
\<close>

definition to_double :: "real \<Rightarrow> jsnum" where
  "to_double x =
     (if 2 powi 1024 \<le> \<bar>nearest_multiple x\<bar> then (if 0 < x then PosInf else NegInf)
      else Fin (nearest_multiple x))"

definition is_double :: "real \<Rightarrow> bool" where
  "is_double x = (to_double x = Fin x)"

text \<open>The operators \<^verbatim>\<open>-a\<close>, \<^verbatim>\<open>a + b\<close>, \<^verbatim>\<open>a - b\<close>, \<^verbatim>\<open>a * b\<close> and \<^verbatim>\<open>a / b\<close> on numbers.\<close>

fun js_neg :: "jsnum \<Rightarrow> jsnum" where
  "js_neg (Fin x) = Fin (- x)"
| "js_neg NaN = NaN"
| "js_neg PosInf = NegInf"
| "js_neg NegInf = PosInf"

fun js_add :: "jsnum \<Rightarrow> jsnum \<Rightarrow> jsnum" where
  "js_add (Fin x) (Fin y) = to_double (x + y)"
| "js_add NaN b = NaN"
| "js_add a NaN = NaN"
| "js_add PosInf NegInf = NaN"
| "js_add NegInf PosInf = NaN"
| "js_add PosInf b = PosInf"
| "js_add a PosInf = PosInf"
| "js_add NegInf b = NegInf"
| "js_add a NegInf = NegInf"

definition js_sub :: "jsnum \<Rightarrow> jsnum \<Rightarrow> jsnum" where
  "js_sub a b = js_add a (js_neg b)"

fun js_mul :: "jsnum \<Rightarrow> jsnum \<Rightarrow> jsnum" where
  "js_mul (Fin x) (Fin y) = to_double (x * y)"
| "js_mul NaN b = NaN"
| "js_mul a NaN = NaN"
| "js_mul (Fin x) b = (if x = 0 then NaN else if 0 < x then b else js_neg b)"
| "js_mul a (Fin y) = (if y = 0 then NaN else if 0 < y then a else js_neg a)"
| "js_mul PosInf b = b"
| "js_mul NegInf b = js_neg b"

fun js_div :: "jsnum \<Rightarrow> jsnum \<Rightarrow> jsnum" where
  "js_div (Fin x) (Fin y) =
     (if y = 0 then (if x = 0 then NaN else if 0 < x then PosInf else NegInf)
      else to_double (x / y))"
| "js_div NaN b = NaN"
| "js_div a NaN = NaN"
| "js_div (Fin x) b = Fin 0"
| "js_div a (Fin y) = (if 0 \<le> y then a else js_neg a)"
| "js_div a b = NaN"

text \<open>
  An array has at most \<open>2^32 - 1\<close> elements.  \<open>js_array\<close> says of a list of values that it
  is an array of numbers: not longer than that, and every value a double.
\<close>

definition array_max :: nat where
  "array_max = 2 ^ 32 - 1"

definition js_array :: "real list \<Rightarrow> bool" where
  "js_array xs = (length xs \<le> array_max \<and> list_all is_double xs)"

section \<open>Rows and rounding to dollars\<close>

text \<open>
  A result row of the claims queries, after \<^verbatim>\<open>Number(r.paid_amt)\<close> and
  \<^verbatim>\<open>Number(r.dos_year)\<close>.  The year column is an integer that passed the SQL
  \<^verbatim>\<open>between\<close>, so it is never null.
\<close>

record row =
  paid_amt :: jsnum
  dos_year :: int

text \<open>\<^verbatim>\<open>rows.map(r => Number(r.paid_amt)).filter(Number.isFinite)\<close>\<close>

definition finite_amounts :: "row list \<Rightarrow> real list" where
  "finite_amounts rows = List.map_filter fin_of (map paid_amt rows)"

text \<open>
  \<^verbatim>\<open>function dollars(n){ return Math.round(Number(n||0)); }\<close> on a finite number.
  \<^verbatim>\<open>Math.round\<close> returns the nearest integer and, on a tie, the one towards plus infinity.
\<close>

definition dollars :: "real \<Rightarrow> int" where
  "dollars n = \<lfloor>n + 1 / 2\<rfloor>"

text \<open>
  \<^verbatim>\<open>dollars\<close> on any number, as the JSON body shows the result: \<^verbatim>\<open>n||0\<close> replaces
  \<^verbatim>\<open>NaN\<close> (and undefined) by 0, \<^verbatim>\<open>Math.round\<close> leaves an infinity as it is, and
  \<^verbatim>\<open>JSON.stringify\<close> writes an infinity as null, which is \<open>None\<close> here.
\<close>

fun dollars_num :: "jsnum \<Rightarrow> int option" where
  "dollars_num (Fin x) = Some (dollars x)"
| "dollars_num NaN = Some 0"
| "dollars_num PosInf = None"
| "dollars_num NegInf = None"

text \<open>
  \<^verbatim>\<open>const idx = p => Math.max(0, Math.min(vals.length-1, Math.floor((p/100)*vals.length)));\<close>
  The argument is a percentage (25, 75).
\<close>

definition idx :: "real list \<Rightarrow> real \<Rightarrow> nat" where
  "idx vals p = nat (max 0 (min (int (length vals) - 1) \<lfloor>(p / 100) * real (length vals)\<rfloor>))"

text \<open>
  The property table of the function object \<^verbatim>\<open>dollars\<close>.  A declared function owns the
  named properties below and no integer-keyed one; \<^verbatim>\<open>dollars[k]\<close> is a lookup in
  this table.
\<close>

datatype propkey = Index nat | Named string

datatype propval = PNumber int | PString string | PObject

definition dollars_props :: "(propkey \<times> propval) list" where
  "dollars_props =
     [(Named ''length'', PNumber 1), (Named ''name'', PString ''dollars''),
      (Named ''prototype'', PObject)]"

fun truthy :: "propval option \<Rightarrow> bool" where
  "truthy None = False"
| "truthy (Some (PNumber n)) = (n \<noteq> 0)"
| "truthy (Some (PString s)) = (s \<noteq> [])"
| "truthy (Some PObject) = True"

section \<open>The response envelope\<close>

text \<open>
  The scope metadata spread into \<^verbatim>\<open>used_scope\<close>.  A key that the object literal does not
  have is \<open>None\<close>; \<^verbatim>\<open>distance_miles\<close> can be present with the value null, which is
  \<open>Some None\<close>.
\<close>

record meta =
  representative_zip :: "string option"
  distance_miles :: "real option option"
  state :: "string option"

definition meta_empty :: meta where
  "meta_empty = \<lparr>representative_zip = None, distance_miles = None, state = None\<rparr>"

record scope_info =
  level :: "string option"
  sample_size :: nat
  scope_meta :: meta

text \<open>
  \<^verbatim>\<open>year_window\<close> is the string \<^verbatim>\<open>`${y0}-${y1}`\<close>; the model keeps the two years.
  The mean is a whole number or, when the quotient is infinite, null (\<open>None\<close>).
  An entry of \<^verbatim>\<open>trend_by_year\<close> is a pair of the year and its median: \<open>Some (Some n)\<close>
  is the number \<open>n\<close>, \<open>Some None\<close> is null, and \<open>None\<close> stands for a median that the
  language leaves to the engine (see \<open>js_sort\<close>).
\<close>

record metrics_summary =
  year_window :: "int \<times> int"
  mean :: "int option"
  median :: int
  p25 :: int
  p75 :: int
  trend_by_year :: "(int \<times> int option option) list"

record envelope =
  query_zip :: string
  used_scope :: scope_info
  metrics :: "metrics_summary option"

section \<open>summarize: the statistics of the cascade handlers\<close>

text \<open>
  \<^verbatim>\<open>(byYear[y] = byYear[y] || []).push(Number(r.paid_amt))\<close>: the object \<^verbatim>\<open>byYear\<close> as an
  association list with one entry per year, in the order the years were first seen.
\<close>

fun by_year_push :: "int \<Rightarrow> 'a \<Rightarrow> (int \<times> 'a list) list \<Rightarrow> (int \<times> 'a list) list" where
  "by_year_push y v [] = [(y, [v])]"
| "by_year_push y v ((k, arr) # rest) =
     (if k = y then (k, arr @ [v]) # rest else (k, arr) # by_year_push y v rest)"

definition group_by_year :: "int \<Rightarrow> int \<Rightarrow> row list \<Rightarrow> (int \<times> jsnum list) list" where
  "group_by_year y0 y1 rows =
     foldl (\<lambda>byYear r. if y0 \<le> dos_year r \<and> dos_year r \<le> y1
                         then by_year_push (dos_year r) (paid_amt r) byYear else byYear)
       [] rows"

text \<open>
  An array without \<^verbatim>\<open>NaN\<close> in ascending order: the negative infinities, the finite
  numbers sorted, the positive infinities.
\<close>

definition ascending :: "jsnum list \<Rightarrow> jsnum list" where
  "ascending arr =
     filter (\<lambda>a. a = NegInf) arr @ map Fin (sort (List.map_filter fin_of arr)) @
     filter (\<lambda>a. a = PosInf) arr"

text \<open>
  \<^verbatim>\<open>arr.sort((a,b)=>a-b)\<close>.  The language fixes the result when the comparator is
  consistent on the values of the array, and the sort is stable.  A difference that is
  \<^verbatim>\<open>NaN\<close> counts as 0, so \<^verbatim>\<open>NaN\<close> compares equal to every value and an infinity equal to
  itself.  Without a \<^verbatim>\<open>NaN\<close> in the array the comparator is the order of the numbers and
  the result is \<open>ascending\<close>.  With a \<^verbatim>\<open>NaN\<close> it is consistent only when the other values
  are all the same; then all elements compare equal and the array stays as it is.
  Otherwise the language leaves the order to the engine, and the model gives no result
  (\<open>None\<close>).
\<close>

definition js_sort :: "jsnum list \<Rightarrow> jsnum list option" where
  "js_sort arr =
     (if NaN \<notin> set arr then Some (ascending arr)
      else if list_all (\<lambda>a. list_all (\<lambda>b. a = NaN \<or> b = NaN \<or> a = b) arr) arr then Some arr
      else None)"

text \<open>
  \<^verbatim>\<open>arr[k]\<close> as \<^verbatim>\<open>dollars\<close> reads it: outside the array the value is undefined, which
  \<^verbatim>\<open>dollars\<close> turns into 0 as it does \<^verbatim>\<open>NaN\<close>, so the model writes \<^verbatim>\<open>NaN\<close> for it.
\<close>

definition read_at :: "jsnum list \<Rightarrow> nat \<Rightarrow> jsnum" where
  "read_at arr k = (if k < length arr then arr ! k else NaN)"

text \<open>
  \<^verbatim>\<open>const arr = byYear[y].sort((a,b)=>a-b);
  return { year: Number(y), median: dollars(arr[Math.floor(arr.length/2)]) };\<close>
\<close>

definition trend_entry :: "int \<times> jsnum list \<Rightarrow> int \<times> int option option" where
  "trend_entry e =
     (fst e,
      map_option (\<lambda>arr. dollars_num (read_at arr (length arr div 2))) (js_sort (snd e)))"

definition trend_of :: "(int \<times> jsnum list) list \<Rightarrow> (int \<times> int option option) list" where
  "trend_of byYear = sort_key fst (map trend_entry byYear)"

text \<open>
  \<^verbatim>\<open>summarize\<close> of the cascade without row filters.  The mean is
  \<^verbatim>\<open>dollars(vals.reduce((s,n)=>s+n,0)/vals.length)\<close>: the sum is accumulated from the left
  over the sorted values, every addition and the division rounding to the nearest double.
\<close>

definition summarize_v1 ::
  "row list \<Rightarrow> meta \<Rightarrow> string \<Rightarrow> int \<Rightarrow> int \<Rightarrow> string \<Rightarrow> envelope option" where
  "summarize_v1 rows m qzip y0 y1 lvl =
     (let vals = sort (finite_amounts rows) in
      if vals = [] then None
      else Some
        \<lparr>query_zip = qzip,
         used_scope = \<lparr>level = Some lvl, sample_size = length rows, scope_meta = m\<rparr>,
         metrics = Some
           \<lparr>year_window = (y0, y1),
            mean = dollars_num (js_div (foldl (\<lambda>s n. js_add s (Fin n)) (Fin 0) vals)
                                       (Fin (real (length vals)))),
            median = dollars (vals ! (length vals div 2)),
            p25 = dollars (vals ! idx vals 25),
            p75 = dollars (vals ! idx vals 75),
            trend_by_year = trend_of (group_by_year y0 y1 rows)\<rparr>\<rparr>)"

text \<open>
  \<^verbatim>\<open>summarize\<close> of the cascade with row filters.  It differs in one field:
  \<^verbatim>\<open>p75: dollars[idx(75)] ? dollars(vals[idx(75)]) : dollars(vals[vals.length - 1])\<close>.
\<close>

definition summarize_v2 ::
  "row list \<Rightarrow> meta \<Rightarrow> string \<Rightarrow> int \<Rightarrow> int \<Rightarrow> string \<Rightarrow> envelope option" where
  "summarize_v2 rows m qzip y0 y1 lvl =
     (let vals = sort (finite_amounts rows) in
      if vals = [] then None
      else Some
        \<lparr>query_zip = qzip,
         used_scope = \<lparr>level = Some lvl, sample_size = length rows, scope_meta = m\<rparr>,
         metrics = Some
           \<lparr>year_window = (y0, y1),
            mean = dollars_num (js_div (foldl (\<lambda>s n. js_add s (Fin n)) (Fin 0) vals)
                                       (Fin (real (length vals)))),
            median = dollars (vals ! (length vals div 2)),
            p25 = dollars (vals ! idx vals 25),
            p75 = (if truthy (map_of dollars_props (Index (idx vals 75)))
                   then dollars (vals ! idx vals 75)
                   else dollars (vals ! (length vals - 1))),
            trend_by_year = trend_of (group_by_year y0 y1 rows)\<rparr>\<rparr>)"

section \<open>The data store\<close>

text \<open>
  The two tables the cascade handlers read.  Text columns that can be null are options;
  \<^verbatim>\<open>paid_amt\<close> is kept as what \<^verbatim>\<open>Number\<close> makes of it, and the coordinates of
  \<^verbatim>\<open>zip_geometry\<close> are taken to be present.
\<close>

record claim =
  c_zip5 :: "string option"
  c_cpt :: string
  c_state :: "string option"
  c_paid_amt :: jsnum
  c_dos_year :: int

record zip_geo =
  g_zip5 :: string
  g_state :: "string option"
  g_lat :: real
  g_lon :: real

text \<open>The statements a cascade handler can send, named by what they fetch.\<close>

datatype statement = QExact | QZip3 | QGeo | QRadius | QRep | QState | QNational

text \<open>
  A store is the content of the tables together with its failures: \<^verbatim>\<open>pool.connect()\<close>
  and \<^verbatim>\<open>client.query\<close> reject with an error, whose message is kept here.
\<close>

record store =
  claims :: "claim list"
  zip_geometry :: "zip_geo list"
  connect_error :: "string option"
  query_error :: "statement \<Rightarrow> string option"

definition MIN_N :: nat where
  "MIN_N = 12"

definition MAX_RADIUS_ZIPS :: nat where
  "MAX_RADIUS_ZIPS = 50"

text \<open>\<^verbatim>\<open>select paid_amt, dos_year\<close>\<close>

definition select_row :: "claim \<Rightarrow> row" where
  "select_row c = \<lparr>paid_amt = c_paid_amt c, dos_year = c_dos_year c\<rparr>"

text \<open>\<^verbatim>\<open>where cpt=$2 and dos_year between $3 and $4\<close>, the condition every claims query has.\<close>

definition in_window :: "string \<Rightarrow> int \<Rightarrow> int \<Rightarrow> claim \<Rightarrow> bool" where
  "in_window cpt y0 y1 c = (c_cpt c = cpt \<and> y0 \<le> c_dos_year c \<and> c_dos_year c \<le> y1)"

definition sql_exact :: "claim list \<Rightarrow> string \<Rightarrow> string \<Rightarrow> int \<Rightarrow> int \<Rightarrow> row list" where
  "sql_exact cs z cpt y0 y1 =
     map select_row (filter (\<lambda>c. c_zip5 c = Some z \<and> in_window cpt y0 y1 c) cs)"

definition sql_zip3 :: "claim list \<Rightarrow> string \<Rightarrow> string \<Rightarrow> int \<Rightarrow> int \<Rightarrow> row list" where
  "sql_zip3 cs z3 cpt y0 y1 =
     map select_row
       (filter (\<lambda>c. map_option (take 3) (c_zip5 c) = Some z3 \<and> in_window cpt y0 y1 c) cs)"

text \<open>
  \<^verbatim>\<open>select state, lat, lon from zip_geometry where zip5=$1 limit 1\<close>.  Where SQL leaves the
  choice of a row open (\<^verbatim>\<open>limit\<close> without an order, ties of \<^verbatim>\<open>order by\<close>), the model
  takes the rows in table order.
\<close>

definition sql_geo :: "zip_geo list \<Rightarrow> string \<Rightarrow> zip_geo list" where
  "sql_geo gs z = take 1 (filter (\<lambda>g. g_zip5 g = z) gs)"

definition radians :: "real \<Rightarrow> real" where
  "radians x = x * pi / 180"

text \<open>
  The haversine distance in statute miles, as both radius statements compute it:
  \<^verbatim>\<open>3959 * 2 * asin(sqrt(power(sin(radians((z.lat - q.qlat)/2)),2) +
     cos(radians(q.qlat))*cos(radians(z.lat))*power(sin(radians((z.lon - q.qlon)/2)),2)))\<close>
\<close>

definition dist_mi :: "real \<Rightarrow> real \<Rightarrow> zip_geo \<Rightarrow> real" where
  "dist_mi qlat qlon z =
     3959 * 2 * arcsin (sqrt ((sin (radians ((g_lat z - qlat) / 2)))\<^sup>2 +
        cos (radians qlat) * cos (radians (g_lat z)) * (sin (radians ((g_lon z - qlon) / 2)))\<^sup>2))"

text \<open>The common table expression \<^verbatim>\<open>nearest\<close>: \<^verbatim>\<open>order by dist_mi asc limit $3\<close>.\<close>

definition nearest :: "zip_geo list \<Rightarrow> real \<Rightarrow> real \<Rightarrow> nat \<Rightarrow> zip_geo list" where
  "nearest gs qlat qlon n = take n (sort_key (dist_mi qlat qlon) gs)"

text \<open>\<^verbatim>\<open>from nearest n join claims c on c.zip5 = n.zip5 where c.cpt=$4 and c.dos_year between $5 and $6\<close>\<close>

definition sql_radius ::
  "zip_geo list \<Rightarrow> claim list \<Rightarrow> real \<Rightarrow> real \<Rightarrow> nat \<Rightarrow> string \<Rightarrow> int \<Rightarrow> int \<Rightarrow> row list" where
  "sql_radius gs cs qlat qlon n cpt y0 y1 =
     concat (map (\<lambda>z. map select_row
                         (filter (\<lambda>c. c_zip5 c = Some (g_zip5 z) \<and> in_window cpt y0 y1 c) cs))
                 (nearest gs qlat qlon n))"

text \<open>
  The representative statement: \<^verbatim>\<open>select z.zip5, (...) as dist_mi from zip_geometry z, q
  order by dist_mi asc limit 1\<close>.  It reads \<^verbatim>\<open>zip_geometry\<close> only.
\<close>

definition sql_rep :: "zip_geo list \<Rightarrow> real \<Rightarrow> real \<Rightarrow> (string \<times> real) list" where
  "sql_rep gs qlat qlon =
     map (\<lambda>z. (g_zip5 z, dist_mi qlat qlon z)) (take 1 (sort_key (dist_mi qlat qlon) gs))"

definition sql_state :: "claim list \<Rightarrow> string \<Rightarrow> string \<Rightarrow> int \<Rightarrow> int \<Rightarrow> row list" where
  "sql_state cs st cpt y0 y1 =
     map select_row (filter (\<lambda>c. c_state c = Some st \<and> in_window cpt y0 y1 c) cs)"

definition sql_national :: "claim list \<Rightarrow> string \<Rightarrow> int \<Rightarrow> int \<Rightarrow> row list" where
  "sql_national cs cpt y0 y1 = map select_row (filter (in_window cpt y0 y1) cs)"

section \<open>Requests, responses and the course of one request\<close>

text \<open>
  The request after the handler has read its parameters: the trimmed strings, the two years
  (integers in a well-formed request), the flags, and \<^verbatim>\<open>Number(req.query.min_paid || "0")\<close>.
\<close>

record request =
  is_options :: bool
  rq_zip :: string
  rq_cpt :: string
  rq_y0 :: int
  rq_y1 :: int
  rq_debug :: bool
  rq_exclude_zero :: bool
  rq_min_paid :: jsnum

text \<open>\<^verbatim>\<open>/^\d{5}$/.test(zip)\<close> and \<^verbatim>\<open>/^\d{4,5}$/.test(cpt)\<close>\<close>

definition is_digit :: "char \<Rightarrow> bool" where
  "is_digit c = (c \<in> set ''0123456789'')"

definition valid_zip :: "string \<Rightarrow> bool" where
  "valid_zip z = (length z = 5 \<and> list_all is_digit z)"

definition valid_cpt :: "string \<Rightarrow> bool" where
  "valid_cpt c = ((length c = 4 \<or> length c = 5) \<and> list_all is_digit c)"

text \<open>
  What the handler sends back: the empty 200 of an OPTIONS request, the 400 of bad
  parameters, the 500 of the catch block (with the message when \<^verbatim>\<open>debug\<close> is set), or a
  JSON body, which is null when \<^verbatim>\<open>summarize\<close> answered null.
\<close>

datatype response = Ended200 | Status400 | Status500 "string option" | Json "envelope option"

text \<open>
  A part of the handler's run: the statements it sent, in order, and either the message of
  the error that was thrown or its value.
\<close>

type_synonym 'a attempt = "statement list \<times> (string + 'a)"

definition done_with :: "'a \<Rightarrow> 'a attempt" where
  "done_with x = ([], Inr x)"

definition client_query :: "store \<Rightarrow> statement \<Rightarrow> 'a \<Rightarrow> 'a attempt" where
  "client_query db q rows =
     ([q], case query_error db q of Some msg \<Rightarrow> Inl msg | None \<Rightarrow> Inr rows)"

definition and_then :: "'a attempt \<Rightarrow> ('a \<Rightarrow> 'b attempt) \<Rightarrow> 'b attempt" where
  "and_then a f =
     (case snd a of
        Inl msg \<Rightarrow> (fst a, Inl msg)
      | Inr x \<Rightarrow> (fst a @ fst (f x), snd (f x)))"

text \<open>
  One scope after another: a scope either throws, returns the response (\<open>Some\<close>), or lets the
  handler fall through to the code after it (\<open>None\<close>).
\<close>

definition or_else :: "response option attempt \<Rightarrow> response attempt \<Rightarrow> response attempt" where
  "or_else step rest =
     (case snd step of
        Inl msg \<Rightarrow> (fst step, Inl msg)
      | Inr (Some r) \<Rightarrow> (fst step, Inr r)
      | Inr None \<Rightarrow> (fst step @ fst rest, snd rest))"

definition meta_rep :: "string \<Rightarrow> meta" where
  "meta_rep z = \<lparr>representative_zip = Some z, distance_miles = None, state = None\<rparr>"

definition meta_state :: "string \<Rightarrow> meta" where
  "meta_state st = \<lparr>representative_zip = None, distance_miles = None, state = Some st\<rparr>"

text \<open>\<^verbatim>\<open>{ query_zip: zip, used_scope: { level: null, sample_size: 0 }, metrics: null }\<close>\<close>

definition no_data :: "string \<Rightarrow> envelope" where
  "no_data z =
     \<lparr>query_zip = z,
      used_scope = \<lparr>level = None, sample_size = 0, scope_meta = meta_empty\<rparr>,
      metrics = None\<rparr>"

text \<open>\<^verbatim>\<open>const qgeo = zg.rows[0];\<close>\<close>

definition first_row :: "'a list \<Rightarrow> 'a option" where
  "first_row rows = (case rows of [] \<Rightarrow> None | r # _ \<Rightarrow> Some r)"

text \<open>\<^verbatim>\<open>qgeo?.state\<close> as a condition: the state of the geo row when it is a non-empty string.\<close>

definition geo_state :: "zip_geo option \<Rightarrow> string option" where
  "geo_state qgeo =
     (case qgeo of
        None \<Rightarrow> None
      | Some g \<Rightarrow> (case g_state g of None \<Rightarrow> None | Some st \<Rightarrow> if st = [] then None else Some st))"

section \<open>The cascade without row filters\<close>

definition exact_v1 :: "store \<Rightarrow> request \<Rightarrow> response option attempt" where
  "exact_v1 db rq =
     and_then (client_query db QExact
                 (sql_exact (claims db) (rq_zip rq) (rq_cpt rq) (rq_y0 rq) (rq_y1 rq)))
       (\<lambda>q. done_with
          (if MIN_N \<le> length q
           then Some (Json (summarize_v1 q (meta_rep (rq_zip rq)) (rq_zip rq) (rq_y0 rq) (rq_y1 rq) ''zip''))
           else None))"

definition zip3_v1 :: "store \<Rightarrow> request \<Rightarrow> response option attempt" where
  "zip3_v1 db rq =
     and_then (client_query db QZip3
                 (sql_zip3 (claims db) (take 3 (rq_zip rq)) (rq_cpt rq) (rq_y0 rq) (rq_y1 rq)))
       (\<lambda>q. done_with
          (if MIN_N \<le> length q
           then Some (Json (summarize_v1 q meta_empty (rq_zip rq) (rq_y0 rq) (rq_y1 rq) ''zip3''))
           else None))"

text \<open>
  \<^verbatim>\<open>const repZip = rep.rows[0]?.zip5 || zip; const dist = rep.rows[0]?.dist_mi || null;\<close>
  The operator \<^verbatim>\<open>||\<close> takes its right side when the left is falsy, which an empty string
  and the number 0 are.
\<close>

definition rep_meta :: "(string \<times> real) list \<Rightarrow> string \<Rightarrow> meta" where
  "rep_meta rep z =
     \<lparr>representative_zip =
        Some (case first_row rep of None \<Rightarrow> z | Some r \<Rightarrow> if fst r = [] then z else fst r),
      distance_miles =
        Some (case first_row rep of None \<Rightarrow> None | Some r \<Rightarrow> if snd r = 0 then None else Some (snd r)),
      state = None\<rparr>"

definition radius_v1 :: "store \<Rightarrow> request \<Rightarrow> zip_geo option \<Rightarrow> response option attempt" where
  "radius_v1 db rq qgeo =
     (case qgeo of
        None \<Rightarrow> done_with None
      | Some g \<Rightarrow>
          and_then (client_query db QRadius
                      (sql_radius (zip_geometry db) (claims db) (g_lat g) (g_lon g) MAX_RADIUS_ZIPS
                         (rq_cpt rq) (rq_y0 rq) (rq_y1 rq)))
            (\<lambda>q. if MIN_N \<le> length q
                  then and_then (client_query db QRep (sql_rep (zip_geometry db) (g_lat g) (g_lon g)))
                         (\<lambda>rep. done_with
                            (Some (Json (summarize_v1 q (rep_meta rep (rq_zip rq)) (rq_zip rq)
                                           (rq_y0 rq) (rq_y1 rq) ''radius''))))
                  else done_with None))"

definition state_v1 :: "store \<Rightarrow> request \<Rightarrow> zip_geo option \<Rightarrow> response option attempt" where
  "state_v1 db rq qgeo =
     (case geo_state qgeo of
        None \<Rightarrow> done_with None
      | Some st \<Rightarrow>
          and_then (client_query db QState
                      (sql_state (claims db) st (rq_cpt rq) (rq_y0 rq) (rq_y1 rq)))
            (\<lambda>q. done_with
               (if MIN_N \<le> length q
                then Some (Json (summarize_v1 q (meta_state st) (rq_zip rq) (rq_y0 rq) (rq_y1 rq) ''state''))
                else None)))"

definition national_v1 :: "store \<Rightarrow> request \<Rightarrow> response option attempt" where
  "national_v1 db rq =
     and_then (client_query db QNational
                 (sql_national (claims db) (rq_cpt rq) (rq_y0 rq) (rq_y1 rq)))
       (\<lambda>q. done_with
          (if MIN_N \<le> length q
           then Some (Json (summarize_v1 q meta_empty (rq_zip rq) (rq_y0 rq) (rq_y1 rq) ''national''))
           else None))"

text \<open>The body of the outer \<^verbatim>\<open>try\<close>.\<close>

definition try_v1 :: "store \<Rightarrow> request \<Rightarrow> response attempt" where
  "try_v1 db rq =
     (if valid_zip (rq_zip rq) \<and> valid_cpt (rq_cpt rq)
      then
        (case connect_error db of
           Some msg \<Rightarrow> ([], Inl msg)
         | None \<Rightarrow>
             or_else (exact_v1 db rq)
               (or_else (zip3_v1 db rq)
                  (and_then (client_query db QGeo (sql_geo (zip_geometry db) (rq_zip rq)))
                     (\<lambda>zg. or_else (radius_v1 db rq (first_row zg))
                              (or_else (state_v1 db rq (first_row zg))
                                 (or_else (national_v1 db rq)
                                    (done_with (Json (Some (no_data (rq_zip rq)))))))))))
      else done_with Status400)"

text \<open>
  The handler: the statements it sent and its response.  The catch block answers 500 and
  shows the message only when \<^verbatim>\<open>debug\<close> is set.
\<close>

definition caught :: "request \<Rightarrow> string + response \<Rightarrow> response" where
  "caught rq r =
     (case r of
        Inl msg \<Rightarrow> Status500 (if rq_debug rq then Some msg else None)
      | Inr resp \<Rightarrow> resp)"

definition handler_v1 :: "store \<Rightarrow> request \<Rightarrow> statement list \<times> response" where
  "handler_v1 db rq =
     (if is_options rq then ([], Ended200)
      else (fst (try_v1 db rq), caught rq (snd (try_v1 db rq))))"

section \<open>The cascade with row filters\<close>

text \<open>\<^verbatim>\<open>v < minPaid\<close>, where \<^verbatim>\<open>minPaid\<close> may be any number.\<close>

fun less_num :: "real \<Rightarrow> jsnum \<Rightarrow> bool" where
  "less_num v (Fin m) = (v < m)"
| "less_num v NaN = False"
| "less_num v PosInf = True"
| "less_num v NegInf = False"

definition keep_row :: "bool \<Rightarrow> jsnum \<Rightarrow> row \<Rightarrow> bool" where
  "keep_row excludeZero minPaid r =
     (case fin_of (paid_amt r) of
        None \<Rightarrow> False
      | Some v \<Rightarrow>
          if excludeZero \<and> v \<le> 0 then False
          else if less_num v minPaid then False
          else True)"

definition filterRows :: "row list \<Rightarrow> bool \<Rightarrow> jsnum \<Rightarrow> row list" where
  "filterRows rows excludeZero minPaid = filter (keep_row excludeZero minPaid) rows"

text \<open>
  \<^verbatim>\<open>runQuery\<close>: fetch, filter, and summarize when the filtered rows reach \<^verbatim>\<open>MIN_N\<close>.
  The second argument stands for the rows the statement selects.
\<close>

definition runQuery ::
  "store \<Rightarrow> request \<Rightarrow> statement \<Rightarrow> row list \<Rightarrow> string \<Rightarrow> meta \<Rightarrow> envelope option attempt" where
  "runQuery db rq stmt rows lvl m =
     and_then (client_query db stmt rows)
       (\<lambda>q. done_with
          (if MIN_N \<le> length (filterRows q (rq_exclude_zero rq) (rq_min_paid rq))
           then summarize_v2 (filterRows q (rq_exclude_zero rq) (rq_min_paid rq)) m
                  (rq_zip rq) (rq_y0 rq) (rq_y1 rq) lvl
           else None))"

text \<open>\<^verbatim>\<open>if (resObj) return res.json(resObj);\<close>\<close>

definition return_if :: "envelope option attempt \<Rightarrow> response option attempt" where
  "return_if a = and_then a (\<lambda>resObj. done_with (map_option (\<lambda>e. Json (Some e)) resObj))"

definition radius_v2 :: "store \<Rightarrow> request \<Rightarrow> zip_geo option \<Rightarrow> response option attempt" where
  "radius_v2 db rq qgeo =
     (case qgeo of
        None \<Rightarrow> done_with None
      | Some g \<Rightarrow>
          return_if (runQuery db rq QRadius
                       (sql_radius (zip_geometry db) (claims db) (g_lat g) (g_lon g) MAX_RADIUS_ZIPS
                          (rq_cpt rq) (rq_y0 rq) (rq_y1 rq))
                       ''radius'' (meta_rep (rq_zip rq))))"

definition state_v2 :: "store \<Rightarrow> request \<Rightarrow> zip_geo option \<Rightarrow> response option attempt" where
  "state_v2 db rq qgeo =
     (case geo_state qgeo of
        None \<Rightarrow> done_with None
      | Some st \<Rightarrow>
          return_if (runQuery db rq QState
                       (sql_state (claims db) st (rq_cpt rq) (rq_y0 rq) (rq_y1 rq))
                       ''state'' (meta_state st)))"

definition try_v2 :: "store \<Rightarrow> request \<Rightarrow> response attempt" where
  "try_v2 db rq =
     (if valid_zip (rq_zip rq) \<and> valid_cpt (rq_cpt rq)
      then
        (case connect_error db of
           Some msg \<Rightarrow> ([], Inl msg)
         | None \<Rightarrow>
             or_else (return_if (runQuery db rq QExact
                        (sql_exact (claims db) (rq_zip rq) (rq_cpt rq) (rq_y0 rq) (rq_y1 rq))
                        ''zip'' (meta_rep (rq_zip rq))))
               (or_else (return_if (runQuery db rq QZip3
                           (sql_zip3 (claims db) (take 3 (rq_zip rq)) (rq_cpt rq) (rq_y0 rq) (rq_y1 rq))
                           ''zip3'' meta_empty))
                  (and_then (client_query db QGeo (sql_geo (zip_geometry db) (rq_zip rq)))
                     (\<lambda>zg. or_else (radius_v2 db rq (first_row zg))
                              (or_else (state_v2 db rq (first_row zg))
                                 (or_else (return_if (runQuery db rq QNational
                                             (sql_national (claims db) (rq_cpt rq) (rq_y0 rq) (rq_y1 rq))
                                             ''national'' meta_empty))
                                    (done_with (Json (Some (no_data (rq_zip rq)))))))))))
      else done_with Status400)"

definition handler_v2 :: "store \<Rightarrow> request \<Rightarrow> statement list \<times> response" where
  "handler_v2 db rq =
     (if is_options rq then ([], Ended200)
      else (fst (try_v2 db rq), caught rq (snd (try_v2 db rq))))"

section \<open>The single-scope handler: interpolated percentiles\<close>


text \<open>
  \<^verbatim>\<open>sorted[k]\<close> for a whole number \<open>k\<close>.  Outside the array the read gives undefined, which
  arithmetic turns into \<^verbatim>\<open>NaN\<close>; the model writes \<^verbatim>\<open>NaN\<close> for it.  In \<open>pct\<close> the index
  stays inside every array (\<open>whole_index_in_range\<close>, \<open>pct_index_in_range\<close> below).
\<close>

definition element :: "real list \<Rightarrow> int \<Rightarrow> jsnum" where
  "element srt k = (if 0 \<le> k \<and> k < int (length srt) then Fin (srt ! nat k) else NaN)"

text \<open>
  \<^verbatim>\<open>function pct(sorted, p)\<close>: null (\<open>None\<close>) on the empty array, the ends for \<open>p\<close>
  outside the open unit interval, otherwise
  \<^verbatim>\<open>const i = (sorted.length - 1) * p; const lo = Math.floor(i), hi = Math.ceil(i);
  return lo === hi ? sorted[lo] : sorted[lo] * (1 - (i - lo)) + sorted[hi] * (i - lo);\<close>
  with every operation in double arithmetic.  An index that is not finite would need an
  array of \<open>2^1024\<close> elements; \<^verbatim>\<open>sorted[Infinity]\<close> is undefined.
\<close>

definition pct :: "real list \<Rightarrow> real \<Rightarrow> jsnum option" where
  "pct srt p =
     (if srt = [] then None
      else if p \<le> 0 then Some (Fin (srt ! 0))
      else if p \<ge> 1 then Some (Fin (srt ! (length srt - 1)))
      else
        (case js_mul (Fin (real (length srt - 1))) (Fin p) of
           Fin i \<Rightarrow>
             (let lo = \<lfloor>i\<rfloor>; hi = \<lceil>i\<rceil> in
              if lo = hi then Some (element srt lo)
              else Some (js_add
                           (js_mul (element srt lo)
                              (js_sub (Fin 1) (js_sub (Fin i) (Fin (real_of_int lo)))))
                           (js_mul (element srt hi) (js_sub (Fin i) (Fin (real_of_int lo))))))
         | NaN \<Rightarrow> Some NaN
         | PosInf \<Rightarrow> Some NaN
         | NegInf \<Rightarrow> Some NaN))"


text \<open>\<^verbatim>\<open>const mean = (a) => a.length ? a.reduce((x, y) => x + y, 0) / a.length : null;\<close>\<close>

definition mean_avg :: "real list \<Rightarrow> jsnum option" where
  "mean_avg a =
     (if a \<noteq> []
      then Some (js_div (foldl (\<lambda>x y. js_add x (Fin y)) (Fin 0) a) (Fin (real (length a))))
      else None)"





section \<open>The percentile as the specification words it\<close>

text \<open>
  Linear interpolation between order statistics: the index is \<open>(n - 1) * p\<close>, and the
  value blends the element at the floor of the index with the element at its ceiling by
  the fractional part of the index.  The formula is evaluated in the arithmetic of the
  handlers, every operation rounding to the nearest double.
\<close>

definition blend :: "real list \<Rightarrow> real \<Rightarrow> jsnum" where
  "blend xs i =
     (let w = js_sub (Fin i) (Fin (real_of_int \<lfloor>i\<rfloor>)) in
      js_add (js_mul (element xs \<lfloor>i\<rfloor>) (js_sub (Fin 1) w)) (js_mul (element xs \<lceil>i\<rceil>) w))"

definition interpolated_percentile :: "real list \<Rightarrow> real \<Rightarrow> jsnum" where
  "interpolated_percentile xs p =
     (case js_mul (Fin (real (length xs - 1))) (Fin p) of
        Fin i \<Rightarrow> blend xs i
      | NaN \<Rightarrow> NaN
      | PosInf \<Rightarrow> NaN
      | NegInf \<Rightarrow> NaN)"




text \<open>
  The nearest-rank computation of the cascade handlers, for a fraction \<open>p\<close>: the element
  at \<^verbatim>\<open>idx(100 * p)\<close>, with no blending.
\<close>

definition nearest_rank :: "real list \<Rightarrow> real \<Rightarrow> real" where
  "nearest_rank vals p = vals ! idx vals (100 * p)"

section \<open>The paginated scope fallback\<close>

text \<open>
  The handler over the view \<^verbatim>\<open>v_claim_metrics\<close> tries the scopes zip5, zip3, state and
  national and returns the rows of the first scope that has any.  A row is kept by its
  \<^verbatim>\<open>id\<close>; its other columns pass through unchanged.  The query of a scope differs from
  the others in its geographic filter only, so the data service is a function from that
  filter to what awaiting the query gives: a rejection, or an object with \<^verbatim>\<open>data\<close> and
  \<^verbatim>\<open>error\<close>.  The echo of the paging parameters and the hashed claim number of each row
  are not part of the model.
\<close>

record view_row =
  vr_id :: int

datatype scope = Zip5 | Zip3 | State | National

datatype geo_filter = EqZip string | EqZip3 string | EqState string | NoFilter

datatype fetched = Rejected string | Resolved "view_row list option" "string option"

record paged_request =
  pq_zip :: "string option"
  pq_state :: "string option"

text \<open>A string parameter as a condition: present and not empty.\<close>

definition nonempty :: "string option \<Rightarrow> string option" where
  "nonempty v = (case v of None \<Rightarrow> None | Some s \<Rightarrow> if s = [] then None else Some s)"

text \<open>
  \<^verbatim>\<open>function zipFallbacks(zip) { if (!zip) return { zip5: null, zip3: null };
    const zip5 = zip.slice(0, 5); const zip3 = zip5.slice(0, 3); return { zip5, zip3 }; }\<close>
\<close>

definition zipFallbacks :: "string option \<Rightarrow> string option \<times> string option" where
  "zipFallbacks z =
     (case nonempty z of
        None \<Rightarrow> (None, None)
      | Some s \<Rightarrow> (Some (take 5 s), Some (take 3 (take 5 s))))"

text \<open>
  \<^verbatim>\<open>fetchScope\<close>: the geographic filter is added when the scope's parameter is there, and
  the query goes out unfiltered otherwise.
\<close>

definition fetchScope :: "(geo_filter \<Rightarrow> fetched) \<Rightarrow> paged_request \<Rightarrow> scope \<Rightarrow> fetched" where
  "fetchScope service rq s =
     (case (if s = Zip5 then nonempty (fst (zipFallbacks (pq_zip rq))) else None) of
        Some z \<Rightarrow> service (EqZip z)
      | None \<Rightarrow>
     (case (if s = Zip3 then nonempty (snd (zipFallbacks (pq_zip rq))) else None) of
        Some z \<Rightarrow> service (EqZip3 z)
      | None \<Rightarrow>
     (case (if s = State then nonempty (pq_state rq) else None) of
        Some st \<Rightarrow> service (EqState st)
      | None \<Rightarrow> service NoFilter)))"

text \<open>
  \<^verbatim>\<open>if (zip5) scopes.push('zip5'); if (zip3) scopes.push('zip3');
  if (state) scopes.push('state'); scopes.push('national');\<close>
\<close>

definition scopes_of :: "paged_request \<Rightarrow> scope list" where
  "scopes_of rq =
     (if nonempty (fst (zipFallbacks (pq_zip rq))) \<noteq> None then [Zip5] else []) @
     (if nonempty (snd (zipFallbacks (pq_zip rq))) \<noteq> None then [Zip3] else []) @
     (if nonempty (pq_state rq) \<noteq> None then [State] else []) @ [National]"

text \<open>
  The loop \<^verbatim>\<open>for (const s of scopes) { const { data, error } = await fetchScope(s);
  if (error) continue; if (data && data.length) { usedScope = s; rows = data; break; } }\<close>.
  A rejected query leaves the loop for the catch block.
\<close>

fun scan :: "(scope \<Rightarrow> fetched) \<Rightarrow> scope list \<Rightarrow> string + (scope option \<times> view_row list)" where
  "scan fetch [] = Inr (None, [])"
| "scan fetch (s # rest) =
     (case fetch s of
        Rejected msg \<Rightarrow> Inl msg
      | Resolved dat err \<Rightarrow>
          if err \<noteq> None then scan fetch rest
          else (case dat of
                  None \<Rightarrow> scan fetch rest
                | Some [] \<Rightarrow> scan fetch rest
                | Some (r # rs) \<Rightarrow> Inr (Some s, r # rs)))"

text \<open>
  The response: status 500 with \<^verbatim>\<open>e?.message || 'Server error'\<close>, or status 200 with
  \<^verbatim>\<open>query_zip\<close>, \<^verbatim>\<open>used_scope\<close>, the rows and the cursor, the id of the last row.
\<close>

datatype paged_response =
  Paged500 string
| Paged200 "string option" "scope option" "view_row list" "int option"

definition handler_paged :: "(geo_filter \<Rightarrow> fetched) \<Rightarrow> paged_request \<Rightarrow> paged_response" where
  "handler_paged service rq =
     (case scan (fetchScope service rq) (scopes_of rq) of
        Inl msg \<Rightarrow> Paged500 (if msg = [] then ''Server error'' else msg)
      | Inr found \<Rightarrow>
          Paged200 (pq_zip rq) (fst found) (snd found)
            (if snd found = [] then None else Some (vr_id (last (snd found)))))"

section \<open>Failures along a run\<close>

text \<open>
  A run is consistent with the failures of the store when it ends in an error exactly if one
  of the statements it sent fails, the error being that statement's.
\<close>

definition consistent :: "store \<Rightarrow> 'a attempt \<Rightarrow> bool" where
  "consistent db a =
     (case snd a of
        Inl msg \<Rightarrow> list_ex (\<lambda>q. query_error db q = Some msg) (fst a)
      | Inr x \<Rightarrow> list_all (\<lambda>q. query_error db q = None) (fst a))"

text \<open>A response with a JSON body, as opposed to an error status.\<close>

fun is_json :: "response \<Rightarrow> bool" where
  "is_json (Json b) = True"
| "is_json Ended200 = False"
| "is_json Status400 = False"
| "is_json (Status500 d) = False"

section \<open>Grouping by year, restated\<close>

text \<open>
  Both handlers build their per-year arrays by pushing one amount after another.
  \<open>push_all\<close> is that loop over a list of year and amount pairs, and \<open>year_amounts\<close> is
  what the array of one year should then hold: the amounts of the rows of that year, in
  row order.
\<close>

definition push_all :: "(int \<times> 'a) list \<Rightarrow> (int \<times> 'a list) list \<Rightarrow> (int \<times> 'a list) list" where
  "push_all kvs acc = foldl (\<lambda>byYear kv. by_year_push (fst kv) (snd kv) byYear) acc kvs"




section \<open>The cascade as the specification words it\<close>

text \<open>
  The scope candidates in their fixed order: exact ZIP, ZIP3 prefix, radius, state and
  national, each with its level, its metadata and the rows its statement selects.  Radius
  needs the geo row of the query ZIP and state needs a state in that row; without them the
  candidate is left out.  The metadata of the radius scope is what the two handlers differ
  in, so it is an argument.
\<close>

definition scope_candidates ::
  "store \<Rightarrow> request \<Rightarrow> (zip_geo \<Rightarrow> meta) \<Rightarrow> (string \<times> meta \<times> row list) list" where
  "scope_candidates db rq radius_meta =
     [(''zip'', meta_rep (rq_zip rq),
         sql_exact (claims db) (rq_zip rq) (rq_cpt rq) (rq_y0 rq) (rq_y1 rq)),
      (''zip3'', meta_empty,
         sql_zip3 (claims db) (take 3 (rq_zip rq)) (rq_cpt rq) (rq_y0 rq) (rq_y1 rq))] @
     (case first_row (sql_geo (zip_geometry db) (rq_zip rq)) of
        None \<Rightarrow> []
      | Some g \<Rightarrow>
          [(''radius'', radius_meta g,
              sql_radius (zip_geometry db) (claims db) (g_lat g) (g_lon g) MAX_RADIUS_ZIPS
                (rq_cpt rq) (rq_y0 rq) (rq_y1 rq))]) @
     (case geo_state (first_row (sql_geo (zip_geometry db) (rq_zip rq))) of
        None \<Rightarrow> []
      | Some st \<Rightarrow>
          [(''state'', meta_state st,
              sql_state (claims db) st (rq_cpt rq) (rq_y0 rq) (rq_y1 rq))]) @
     [(''national'', meta_empty, sql_national (claims db) (rq_cpt rq) (rq_y0 rq) (rq_y1 rq))]"

text \<open>The metadata each handler attaches to the radius scope.\<close>

definition radius_meta_v1 :: "store \<Rightarrow> request \<Rightarrow> zip_geo \<Rightarrow> meta" where
  "radius_meta_v1 db rq g = rep_meta (sql_rep (zip_geometry db) (g_lat g) (g_lon g)) (rq_zip rq)"

definition radius_meta_v2 :: "request \<Rightarrow> zip_geo \<Rightarrow> meta" where
  "radius_meta_v2 rq g = meta_rep (rq_zip rq)"

text \<open>
  The first candidate, in that order, whose rows pass the gate is summarized; when none
  passes, the answer is the no-data envelope.  \<open>prepare\<close> is what is done to the fetched
  rows before they are counted and summarized.
\<close>

definition first_accepted ::
  "(row list \<Rightarrow> row list) \<Rightarrow> (string \<times> meta \<times> row list) list \<Rightarrow> (string \<times> meta \<times> row list) option" where
  "first_accepted prepare cands = find (\<lambda>c. MIN_N \<le> length (prepare (snd (snd c)))) cands"

definition healthy :: "store \<Rightarrow> bool" where
  "healthy db = (connect_error db = None \<and> list_all (\<lambda>q. query_error db q = None)
                   [QExact, QZip3, QGeo, QRadius, QRep, QState, QNational])"

definition well_formed :: "request \<Rightarrow> bool" where
  "well_formed rq = (\<not> is_options rq \<and> valid_zip (rq_zip rq) \<and> valid_cpt (rq_cpt rq))"

text \<open>
  The arithmetic average, and rounding to the nearest integer with ties away from zero.
\<close>

definition average :: "real list \<Rightarrow> real" where
  "average xs = sum_list xs / real (length xs)"

definition round_half_away_from_zero :: "real \<Rightarrow> int" where
  "round_half_away_from_zero x = (if 0 \<le> x then \<lfloor>x + 1 / 2\<rfloor> else \<lceil>x - 1 / 2\<rceil>)"

text \<open>
  Amounts in whole currency units whose absolute values sum to at most \<open>2^51\<close>, in an
  array: no partial sum of such amounts is rounded.
\<close>

definition whole_amounts :: "real list \<Rightarrow> bool" where
  "whole_amounts xs =
     (list_all (\<lambda>v. real_of_int \<lfloor>v\<rfloor> = v) xs \<and> sum_list (map abs xs) \<le> 2 ^ 51 \<and>
      length xs \<le> array_max)"

section \<open>Sample data\<close>

definition rows_in_year :: "int \<Rightarrow> jsnum list \<Rightarrow> row list" where
  "rows_in_year y amounts = map (\<lambda>a. \<lparr>paid_amt = a, dos_year = y\<rparr>) amounts"

text \<open>Twelve adjustments of one year, six of -3 and six of -2: their average is -5/2.\<close>

definition refund_rows :: "row list" where
  "refund_rows =
     rows_in_year 2022
       [Fin (-3), Fin (-3), Fin (-3), Fin (-3), Fin (-3), Fin (-3),
        Fin (-2), Fin (-2), Fin (-2), Fin (-2), Fin (-2), Fin (-2)]"

text \<open>Claims of one ZIP, procedure and year, and a store without failures.\<close>

definition claims_at :: "string \<Rightarrow> string \<Rightarrow> int \<Rightarrow> jsnum list \<Rightarrow> claim list" where
  "claims_at z cpt y amounts =
     map (\<lambda>a. \<lparr>c_zip5 = Some z, c_cpt = cpt, c_state = None, c_paid_amt = a, c_dos_year = y\<rparr>)
       amounts"

definition store_of :: "claim list \<Rightarrow> zip_geo list \<Rightarrow> store" where
  "store_of cs gs =
     \<lparr>claims = cs, zip_geometry = gs, connect_error = None, query_error = (\<lambda>q. None)\<rparr>"

definition sample_request :: request where
  "sample_request =
     \<lparr>is_options = False, rq_zip = ''10001'', rq_cpt = ''99213'', rq_y0 = 2021, rq_y1 = 2025,
      rq_debug = False, rq_exclude_zero = False, rq_min_paid = Fin 0\<rparr>"

text \<open>Twelve rows of which one has a finite amount, and twelve rows with none.\<close>

definition one_finite :: "jsnum list" where
  "one_finite = [Fin 80, NaN, NaN, NaN, NaN, NaN, NaN, NaN, NaN, NaN, NaN, NaN]"

definition none_finite :: "jsnum list" where
  "none_finite = [NaN, NaN, NaN, NaN, NaN, NaN, NaN, NaN, NaN, NaN, NaN, NaN]"

text \<open>Twelve and five payments.\<close>

definition twelve_paid :: "jsnum list" where
  "twelve_paid =
     [Fin 10, Fin 20, Fin 30, Fin 40, Fin 50, Fin 60, Fin 70, Fin 80, Fin 90, Fin 100,
      Fin 110, Fin 120]"

definition five_paid :: "jsnum list" where
  "five_paid = [Fin 10, Fin 20, Fin 30, Fin 40, Fin 50]"

text \<open>
  Five claims at the query ZIP and twelve at a neighbour with the same prefix; and a store
  with no geometry at all whose radius and state statements would fail if they were sent.
\<close>

definition prefix_store :: store where
  "prefix_store =
     store_of (claims_at ''10001'' ''99213'' 2022 five_paid @
               claims_at ''10002'' ''99213'' 2023 twelve_paid) []"

definition no_geo_store :: store where
  "no_geo_store =
     \<lparr>claims = claims_at ''10001'' ''99213'' 2022 five_paid,
      zip_geometry = [],
      connect_error = None,
      query_error = (\<lambda>q. if q = QRadius \<or> q = QRep \<or> q = QState then Some ''down'' else None)\<rparr>"

text \<open>
  A store for the radius scope: the query ZIP 10001 lies at the origin and has no claims,
  the other ZIP lies half a turn away, comes first in the table and holds twelve claims.
\<close>

definition far_geo :: zip_geo where
  "far_geo = \<lparr>g_zip5 = ''07030'', g_state = None, g_lat = 0, g_lon = 180\<rparr>"

definition near_geo :: zip_geo where
  "near_geo = \<lparr>g_zip5 = ''10001'', g_state = None, g_lat = 0, g_lon = 0\<rparr>"

definition radius_store :: store where
  "radius_store = store_of (claims_at ''07030'' ''99213'' 2022 twelve_paid) [far_geo, near_geo]"

text \<open>A store without rows whose prefix statement times out, and a request for the view.\<close>

definition timeout_store :: store where
  "timeout_store =
     \<lparr>claims = [], zip_geometry = [], connect_error = None,
      query_error = (\<lambda>q. if q = QZip3 then Some ''timeout'' else None)\<rparr>"

definition paged_sample :: paged_request where
  "paged_sample = \<lparr>pq_zip = Some ''10001'', pq_state = Some ''NY''\<rparr>"


text \<open>
  The doubles nearest to 0.01, 0.04, 0.1 and 8.9, which is what \<^verbatim>\<open>Number\<close> makes of these
  decimals, and twelve rows of one year, six of 0.1 and six of 8.9.
\<close>

definition cent :: real where
  "cent = 5764607523034235 / 576460752303423488"

definition four_cents :: real where
  "four_cents = 5764607523034235 / 144115188075855872"

definition dime :: real where
  "dime = 3602879701896397 / 36028797018963968"

definition eight_ninety :: real where
  "eight_ninety = 5010254585449677 / 562949953421312"

definition small_change :: "row list" where
  "small_change =
     rows_in_year 2022
       [Fin dime, Fin eight_ninety, Fin dime, Fin eight_ninety, Fin dime, Fin eight_ninety,
        Fin dime, Fin eight_ninety, Fin dime, Fin eight_ninety, Fin dime, Fin eight_ninety]"

text \<open>
  A store for the state scope: the query ZIP has a geo row with a state and no claims of
  its own or of its prefix, and twelve claims of that state lie at another ZIP.  And a store
  with 51 geo rows, of which the farthest comes first in the table and holds the only
  claims.
\<close>

definition claims_in_state :: "string \<Rightarrow> string \<Rightarrow> string \<Rightarrow> int \<Rightarrow> jsnum list \<Rightarrow> claim list" where
  "claims_in_state st z cpt y amounts =
     map (\<lambda>a. \<lparr>c_zip5 = Some z, c_cpt = cpt, c_state = Some st, c_paid_amt = a, c_dos_year = y\<rparr>)
       amounts"

definition state_geo :: zip_geo where
  "state_geo = \<lparr>g_zip5 = ''10001'', g_state = Some ''NY'', g_lat = 0, g_lon = 0\<rparr>"

definition state_store :: store where
  "state_store = store_of (claims_in_state ''NY'' ''11201'' ''99213'' 2022 twelve_paid) [state_geo]"

definition crowded_store :: store where
  "crowded_store =
     store_of (claims_at ''07030'' ''99213'' 2022 twelve_paid) (far_geo # replicate 50 near_geo)"

section \<open>Rounding to the nearest double\<close>

declare bit_length.simps [simp del]

lemma bit_length_bounds:
  "0 < n \<Longrightarrow> 2 ^ (bit_length n - 1) \<le> n \<and> n < 2 ^ bit_length n"
proof (induction n rule: bit_length.induct)
  case (1 n)
  show ?case
  proof (cases "n div 2 = 0")
    case True
    with 1(2) have "n = 1" by (simp add: div_eq_0_iff)
    then show ?thesis by (simp add: bit_length.simps [of "Suc 0"] bit_length.simps [of 0])
  next
    case False
    then have p: "0 < n div 2" by simp
    from 1(1) [OF _ p] 1(2)
    have ih: "2 ^ (bit_length (n div 2) - 1) \<le> n div 2" "n div 2 < 2 ^ bit_length (n div 2)"
      by auto
    have b: "bit_length n = Suc (bit_length (n div 2))"
      using 1(2) by (subst bit_length.simps) simp
    have pos: "0 < bit_length (n div 2)"
      using p by (subst bit_length.simps) simp
    then obtain k where k: "bit_length (n div 2) = Suc k" by (cases "bit_length (n div 2)") auto
    have "2 * 2 ^ k \<le> 2 * (n div 2)" using ih(1) k by simp
    also have "\<dots> \<le> n" by simp
    finally have lo: "2 ^ (bit_length n - 1) \<le> n" using b k by simp
    have "n div 2 + 1 \<le> 2 ^ bit_length (n div 2)" using ih(2) by simp
    then have "2 * (n div 2) + 2 \<le> 2 * 2 ^ bit_length (n div 2)" by simp
    moreover have "n < 2 * (n div 2) + 2" by presburger
    ultimately have "n < 2 ^ bit_length n" using b by simp
    with lo show ?thesis by simp
  qed
qed

lemma real_pow2_le: "2 ^ k \<le> (m::nat) \<Longrightarrow> (2::real) ^ k \<le> real m"
proof -
  assume "2 ^ k \<le> m"
  then have "real (2 ^ k) \<le> real m" by (rule of_nat_mono)
  then show ?thesis by simp
qed

lemma real_less_pow2: "(m::nat) < 2 ^ k \<Longrightarrow> real m + 1 \<le> (2::real) ^ k"
proof -
  assume "m < 2 ^ k"
  then have "Suc m \<le> 2 ^ k" by simp
  then have "real (Suc m) \<le> real (2 ^ k)" by (rule of_nat_mono)
  then show ?thesis by simp
qed

lemma binade_bounds:
  assumes "0 < x"
  shows "2 powi binade x \<le> x" and "x < 2 powi (binade x + 1)"
proof -
  have "2 powi binade x \<le> x \<and> x < 2 powi (binade x + 1)"
  proof (cases "1 \<le> x")
    case True
    define n where "n = nat \<lfloor>x\<rfloor>"
    have fl: "1 \<le> \<lfloor>x\<rfloor>" using True by linarith
    have rn: "real n = of_int \<lfloor>x\<rfloor>" unfolding n_def using fl by simp
    have n0: "0 < n" unfolding n_def using fl by simp
    have n1: "real n \<le> x" unfolding rn by linarith
    have n2: "x < real n + 1" unfolding rn by linarith
    from bit_length_bounds [OF n0] obtain k where
      k: "bit_length n = Suc k" "2 ^ k \<le> n" "n < 2 ^ Suc k"
      by (cases "bit_length n") auto
    have b: "binade x = int k" using True k(1) by (simp add: binade_def n_def)
    have p1: "(2::real) powi binade x = 2 ^ k" unfolding b by (rule power_int_of_nat)
    have "binade x + 1 = int (Suc k)" unfolding b by simp
    then have p2: "(2::real) powi (binade x + 1) = 2 ^ Suc k" by (simp only: power_int_of_nat)
    from real_pow2_le [OF k(2)] n1 have lo: "2 powi binade x \<le> x" unfolding p1 by linarith
    from real_less_pow2 [OF k(3)] n2 have "x < 2 powi (binade x + 1)" unfolding p2 by linarith
    with lo show ?thesis by simp
  next
    case False
    define y where "y = 1 / x"
    have y: "1 < y" using False assms by (simp add: y_def)
    have xy: "x = 1 / y" by (simp add: y_def)
    define m where "m = nat (\<lceil>y\<rceil> - 1)"
    have c: "2 \<le> \<lceil>y\<rceil>" using y by linarith
    have rm: "real m = of_int \<lceil>y\<rceil> - 1" unfolding m_def using c by simp
    have m0: "0 < m" unfolding m_def using c by simp
    have m1: "real m < y" unfolding rm by linarith
    have m2: "y \<le> real m + 1" unfolding rm by linarith
    from bit_length_bounds [OF m0] obtain k where
      k: "bit_length m = Suc k" "2 ^ k \<le> m" "m < 2 ^ Suc k"
      by (cases "bit_length m") auto
    have b: "binade x = - int (Suc k)"
      using False k(1) by (simp add: binade_def m_def y_def)
    have p1: "(2::real) powi binade x = 1 / 2 ^ Suc k"
      unfolding b by (simp only: power_int_minus_divide power_int_of_nat)
    have "binade x + 1 = - int k" unfolding b by simp
    then have p2: "(2::real) powi (binade x + 1) = 1 / 2 ^ k"
      by (simp only: power_int_minus_divide power_int_of_nat)
    have "y \<le> 2 ^ Suc k" using real_less_pow2 [OF k(3)] m2 by linarith
    then have "1 / 2 ^ Suc k \<le> 1 / y"
      using y by (intro divide_left_mono) auto
    then have "1 / 2 ^ Suc k \<le> x" by (simp only: xy)
    then have lo: "2 powi binade x \<le> x" by (simp only: p1)
    have "(2::real) ^ k < y" using real_pow2_le [OF k(2)] m1 by linarith
    then have "1 / y < 1 / 2 ^ k"
      using y by (intro divide_strict_left_mono) auto
    then have "x < 1 / 2 ^ k" by (simp only: xy)
    then have "x < 2 powi (binade x + 1)" by (simp only: p2)
    with lo show ?thesis by simp
  qed
  then show "2 powi binade x \<le> x" and "x < 2 powi (binade x + 1)" by simp_all
qed

lemma powi_less_imp_less:
  assumes "(2::real) powi a < 2 powi b"
  shows "a < b"
proof (rule ccontr)
  assume "\<not> a < b"
  then have "b \<le> a" by simp
  then have "(2::real) powi b \<le> 2 powi a" by (intro power_int_increasing) auto
  with assms show False by simp
qed

lemma binade_unique:
  assumes "2 powi e \<le> x" "x < 2 powi (e + 1)"
  shows "binade x = e"
proof -
  have pos: "0 < x" using assms(1) zero_less_power_int [of "2::real" e] by linarith
  note b = binade_bounds [OF pos]
  have "(2::real) powi e < 2 powi (binade x + 1)" using assms(1) b(2) by linarith
  then have 1: "e < binade x + 1" by (rule powi_less_imp_less)
  have "(2::real) powi binade x < 2 powi (e + 1)" using assms(2) b(1) by linarith
  then have 2: "binade x < e + 1" by (rule powi_less_imp_less)
  from 1 2 show ?thesis by simp
qed

lemma binade_mono:
  assumes "0 < x" "x \<le> y"
  shows "binade x \<le> binade y"
proof -
  have y: "0 < y" using assms by simp
  have "(2::real) powi binade x < 2 powi (binade y + 1)"
    using binade_bounds(1) [OF assms(1)] binade_bounds(2) [OF y] assms(2) by linarith
  then have "binade x < binade y + 1" by (rule powi_less_imp_less)
  then show ?thesis by simp
qed


lemma rte_of_int [simp]: "round_ties_even (of_int m) = m"
  by (simp add: round_ties_even_def)

lemma rte_floor: "\<lfloor>t\<rfloor> \<le> round_ties_even t" "round_ties_even t \<le> \<lfloor>t\<rfloor> + 1"
  by (simp_all add: round_ties_even_def)

lemma rte_error: "\<bar>of_int (round_ties_even t) - t\<bar> \<le> 1 / 2"
proof -
  have "of_int \<lfloor>t\<rfloor> \<le> t" "t < of_int \<lfloor>t\<rfloor> + 1" by linarith+
  then show ?thesis unfolding round_ties_even_def by (auto simp: abs_le_iff)
qed

lemma rte_unique:
  assumes "of_int m - 1 / 2 < t" "t < of_int m + 1 / 2"
  shows "round_ties_even t = m"
proof -
  have "\<bar>of_int (round_ties_even t) - t\<bar> \<le> 1 / 2" by (rule rte_error)
  then have "\<bar>real_of_int (round_ties_even t) - of_int m\<bar> < 1" using assms by linarith
  then have "\<bar>real_of_int (round_ties_even t - m)\<bar> < 1" by simp
  then have "\<bar>round_ties_even t - m\<bar> < 1" by linarith
  then show ?thesis by simp
qed

lemma rte_mono:
  assumes "s \<le> t"
  shows "round_ties_even s \<le> round_ties_even t"
proof (cases "\<lfloor>s\<rfloor> < \<lfloor>t\<rfloor>")
  case True
  then have "round_ties_even s \<le> \<lfloor>t\<rfloor>" using rte_floor(2) [of s] by linarith
  then show ?thesis using rte_floor(1) [of t] by linarith
next
  case False
  then have eq: "\<lfloor>s\<rfloor> = \<lfloor>t\<rfloor>" using assms by (meson floor_mono le_less not_less)
  show ?thesis using assms unfolding round_ties_even_def eq by auto
qed

lemma rte_minus: "round_ties_even (- t) = - round_ties_even t"
proof (cases "t = of_int \<lfloor>t\<rfloor>")
  case True
  then obtain k where "t = of_int k" by blast
  then have "- t = of_int (- k)" by simp
  then show ?thesis using \<open>t = of_int k\<close> by (simp only: rte_of_int)
next
  case False
  then have lt: "of_int \<lfloor>t\<rfloor> < t" using of_int_floor_le [of t] by linarith
  have up: "t < of_int \<lfloor>t\<rfloor> + 1" by linarith
  have fm: "\<lfloor>- t\<rfloor> = - \<lfloor>t\<rfloor> - 1"
  proof (rule floor_unique)
    have c: "real_of_int (- \<lfloor>t\<rfloor> - 1) = - real_of_int \<lfloor>t\<rfloor> - 1" by simp
    show "of_int (- \<lfloor>t\<rfloor> - 1) \<le> - t" unfolding c using up by linarith
    show "- t < of_int (- \<lfloor>t\<rfloor> - 1) + 1" unfolding c using lt by linarith
  qed
  show ?thesis unfolding round_ties_even_def fm using lt up by auto
qed

lemma ulp_pos [simp]: "0 < ulp x"
  by (simp add: ulp_def zero_less_power_int)

lemma ulp_nonneg [simp]: "0 \<le> ulp x"
  using ulp_pos [of x] by linarith

lemma ulp_neq0 [simp]: "ulp x \<noteq> 0"
  using ulp_pos [of x] by linarith

lemma ulp_minus [simp]: "ulp (- x) = ulp x"
  by (simp add: ulp_def)

lemma nm_minus: "nearest_multiple (- x) = - nearest_multiple x"
  by (simp add: nearest_multiple_def rte_minus)

lemma nm_zero [simp]: "nearest_multiple 0 = 0"
  by (simp add: nearest_multiple_def round_ties_even_def)

lemma nm_nonneg: "0 \<le> x \<Longrightarrow> 0 \<le> nearest_multiple x"
proof -
  assume "0 \<le> x"
  then have "0 \<le> x / ulp x" by simp
  then have "0 \<le> \<lfloor>x / ulp x\<rfloor>" by simp
  then have "0 \<le> round_ties_even (x / ulp x)" using rte_floor(1) [of "x / ulp x"] by linarith
  then show ?thesis by (simp add: nearest_multiple_def)
qed

lemma nm_error: "\<bar>nearest_multiple x - x\<bar> \<le> ulp x / 2"
proof -
  have "nearest_multiple x - x = (of_int (round_ties_even (x / ulp x)) - x / ulp x) * ulp x"
    by (simp add: nearest_multiple_def algebra_simps)
  then have "\<bar>nearest_multiple x - x\<bar> = \<bar>of_int (round_ties_even (x / ulp x)) - x / ulp x\<bar> * ulp x"
    by (simp add: abs_mult)
  also have "\<dots> \<le> (1 / 2) * ulp x"
    by (intro mult_right_mono rte_error) simp
  finally show ?thesis by simp
qed

lemma powi_split: "(2::real) powi (a + b) = 2 powi a * 2 powi b"
  by (simp add: power_int_add)

lemma nm_mono_pos:
  assumes "0 < x" "x \<le> y"
  shows "nearest_multiple x \<le> nearest_multiple y"
proof -
  have y: "0 < y" using assms by simp
  define bx where "bx = max (binade x) (- 1022)"
  define b where "b = max (binade y) (- 1022)"
  have ux: "ulp x = 2 powi (bx - 52)" using assms(1) by (simp add: ulp_def bx_def)
  have uy: "ulp y = 2 powi (b - 52)" using y by (simp add: ulp_def b_def)
  have le: "bx \<le> b" using binade_mono [OF assms] by (simp add: bx_def b_def)
  show ?thesis
  proof (cases "bx = b")
    case True
    then have u: "ulp x = ulp y" using ux uy by simp
    have "x / ulp y \<le> y / ulp y" using assms(2) by (simp add: divide_right_mono)
    then have "round_ties_even (x / ulp y) \<le> round_ties_even (y / ulp y)" by (rule rte_mono)
    then have "real_of_int (round_ties_even (x / ulp y)) \<le> real_of_int (round_ties_even (y / ulp y))"
      by simp
    then show ?thesis unfolding nearest_multiple_def u
      by (intro mult_right_mono) simp_all
  next
    case False
    then have lt: "bx < b" using le by simp
    then have beq: "b = binade y" unfolding b_def bx_def by linarith
    have "binade x \<le> bx" by (simp add: bx_def)
    then have "(2::real) powi (binade x + 1) \<le> 2 powi (bx + 1)"
      by (intro power_int_increasing) auto
    then have xb: "x < 2 powi (bx + 1)" using binade_bounds(2) [OF assms(1)] by linarith
    have split: "(2::real) powi (bx + 1) = 2 ^ 53 * 2 powi (bx - 52)"
      using powi_split [of 53 "bx - 52"] by (simp add: add.commute)
    have "x / ulp x < 2 ^ 53"
      unfolding ux using xb split by (simp add: pos_divide_less_eq zero_less_power_int)
    then have "x / ulp x < of_int (2 ^ 53)" by simp
    then have "\<lfloor>x / ulp x\<rfloor> < 2 ^ 53" by (simp only: floor_less_iff)
    then have "round_ties_even (x / ulp x) \<le> 2 ^ 53" using rte_floor(2) [of "x / ulp x"] by linarith
    then have "real_of_int (round_ties_even (x / ulp x)) \<le> real_of_int (2 ^ 53)" by (simp only: of_int_le_iff)
    then have "real_of_int (round_ties_even (x / ulp x)) * ulp x \<le> real_of_int (2 ^ 53) * ulp x"
      by (intro mult_right_mono) simp_all
    then have "nearest_multiple x \<le> 2 powi (bx + 1)"
      unfolding nearest_multiple_def split ux by simp
    moreover have "(2::real) powi (bx + 1) \<le> 2 powi b"
      using lt by (intro power_int_increasing) auto
    ultimately have A: "nearest_multiple x \<le> 2 powi b" by linarith
    have yb: "2 powi b \<le> y" unfolding beq by (rule binade_bounds(1) [OF y])
    have split2: "(2::real) powi b = 2 ^ 52 * 2 powi (b - 52)"
      using powi_split [of 52 "b - 52"] by (simp add: add.commute)
    have "2 ^ 52 \<le> y / ulp y"
      unfolding uy using yb split2 by (simp add: pos_le_divide_eq zero_less_power_int)
    then have "of_int (2 ^ 52) \<le> y / ulp y" by simp
    then have "2 ^ 52 \<le> \<lfloor>y / ulp y\<rfloor>" by (simp only: le_floor_iff)
    then have "2 ^ 52 \<le> round_ties_even (y / ulp y)" using rte_floor(1) [of "y / ulp y"] by linarith
    then have "real_of_int (2 ^ 52) \<le> real_of_int (round_ties_even (y / ulp y))" by (simp only: of_int_le_iff)
    then have "real_of_int (2 ^ 52) * ulp y \<le> real_of_int (round_ties_even (y / ulp y)) * ulp y"
      by (intro mult_right_mono) simp_all
    then have "2 powi b \<le> nearest_multiple y"
      unfolding nearest_multiple_def split2 uy by simp
    with A show ?thesis by linarith
  qed
qed

lemma nm_mono:
  assumes "x \<le> y"
  shows "nearest_multiple x \<le> nearest_multiple y"
proof -
  consider "0 < x" | "y < 0" | "x \<le> 0" "0 \<le> y" by linarith
  then show ?thesis
  proof cases
    case 1
    then show ?thesis using assms by (rule nm_mono_pos)
  next
    case 2
    then have "0 < - y" "- y \<le> - x" using assms by simp_all
    from nm_mono_pos [OF this] show ?thesis by (simp add: nm_minus)
  next
    case 3
    have "0 \<le> nearest_multiple (- x)" using 3(1) by (intro nm_nonneg) simp
    then have "nearest_multiple x \<le> 0" by (simp add: nm_minus)
    moreover have "0 \<le> nearest_multiple y" using 3(2) by (rule nm_nonneg)
    ultimately show ?thesis by linarith
  qed
qed


lemma nm_exact:
  assumes "\<bar>m\<bar> < 2 ^ 53" "- 1074 \<le> e"
  shows "nearest_multiple (of_int m * 2 powi e) = of_int m * 2 powi e"
proof (cases "m = 0")
  case True
  then show ?thesis by simp
next
  case False
  define x where "x = real_of_int m * 2 powi e"
  have p: "(0::real) < 2 powi e" by (simp add: zero_less_power_int)
  have ax: "\<bar>x\<bar> = real_of_int \<bar>m\<bar> * 2 powi e"
    using p by (simp add: x_def abs_mult)
  have "0 < real_of_int \<bar>m\<bar>" using False by simp
  then have xpos: "0 < \<bar>x\<bar>" unfolding ax using p by (rule mult_pos_pos)
  define b where "b = max (binade \<bar>x\<bar>) (- 1022)"
  have le: "b - 52 \<le> e"
  proof (cases "binade \<bar>x\<bar> \<le> - 1022")
    case True
    then show ?thesis using assms(2) by (simp add: b_def)
  next
    case F2: False
    have m53: "real_of_int \<bar>m\<bar> < 2 ^ 53"
    proof -
      have "real_of_int \<bar>m\<bar> < real_of_int (2 ^ 53)" using assms(1) by (simp only: of_int_less_iff)
      then show ?thesis by simp
    qed
    have "2 powi binade \<bar>x\<bar> \<le> \<bar>x\<bar>" by (rule binade_bounds(1) [OF xpos])
    also have "\<dots> < 2 ^ 53 * 2 powi e"
      unfolding ax using m53 p by (rule mult_strict_right_mono)
    also have "\<dots> = 2 powi (53 + e)" using powi_split [of 53 e] by simp
    finally have "binade \<bar>x\<bar> < 53 + e" by (rule powi_less_imp_less)
    then show ?thesis using F2 by (simp add: b_def)
  qed
  define d where "d = nat (e - (b - 52))"
  have d: "e = int d + (b - 52)" using le by (simp add: d_def)
  have u: "ulp x = 2 powi (b - 52)" by (simp add: ulp_def b_def)
  have pe: "(2::real) powi e = 2 ^ d * 2 powi (b - 52)"
    using powi_split [of "int d" "b - 52"] d by (simp add: power_int_of_nat)
  have "x / ulp x = real_of_int m * 2 ^ d"
    unfolding u unfolding x_def pe by (simp add: zero_less_power_int)
  also have "\<dots> = of_int (m * 2 ^ d)" by simp
  finally have "round_ties_even (x / ulp x) = m * 2 ^ d" by (simp only: rte_of_int)
  then have "nearest_multiple x = of_int (m * 2 ^ d) * 2 powi (b - 52)"
    by (simp add: nearest_multiple_def u)
  also have "\<dots> = x" unfolding x_def pe by simp
  finally show ?thesis unfolding x_def .
qed



lemma to_double_exact:
  assumes "\<bar>m\<bar> < 2 ^ 53" "- 1074 \<le> e" "e \<le> 971"
  shows "to_double (of_int m * 2 powi e) = Fin (of_int m * 2 powi e)"
proof -
  have p: "(0::real) < 2 powi e" by (simp add: zero_less_power_int)
  have "real_of_int \<bar>m\<bar> < real_of_int (2 ^ 53)" using assms(1) by (simp only: of_int_less_iff)
  then have m53: "real_of_int \<bar>m\<bar> < 2 ^ 53" by simp
  have "\<bar>real_of_int m * 2 powi e\<bar> = real_of_int \<bar>m\<bar> * 2 powi e"
    using p by (simp add: abs_mult)
  also have "\<dots> < 2 ^ 53 * 2 powi e" using m53 p by (rule mult_strict_right_mono)
  also have "\<dots> \<le> 2 ^ 53 * 2 powi 971"
    using assms(3) by (intro mult_left_mono power_int_increasing) auto
  also have "\<dots> = 2 powi 1024" using powi_split [of 53 971] by simp
  finally have "\<bar>real_of_int m * 2 powi e\<bar> < 2 powi 1024" .
  then show ?thesis
    unfolding to_double_def nm_exact [OF assms(1,2)] by simp
qed

lemma to_double_eqI:
  assumes "2 powi e \<le> \<bar>x\<bar>" "\<bar>x\<bar> < 2 powi (e + 1)" "- 1022 \<le> e"
    and "of_int m - 1 / 2 < x / 2 powi (e - 52)" "x / 2 powi (e - 52) < of_int m + 1 / 2"
    and "\<bar>of_int m * 2 powi (e - 52)\<bar> < (2::real) powi 1024"
  shows "to_double x = Fin (of_int m * 2 powi (e - 52))"
proof -
  have b: "binade \<bar>x\<bar> = e" using assms(1,2) by (rule binade_unique)
  have u: "ulp x = 2 powi (e - 52)" using assms(3) by (simp add: ulp_def b)
  have "round_ties_even (x / ulp x) = m" unfolding u using assms(4,5) by (rule rte_unique)
  then have "nearest_multiple x = of_int m * 2 powi (e - 52)"
    by (simp add: nearest_multiple_def u)
  then show ?thesis using assms(6) by (simp add: to_double_def)
qed

lemma to_double_0 [simp]: "to_double 0 = Fin 0"
  by (simp add: to_double_def zero_less_power_int)

lemma to_double_of_int:
  assumes "\<bar>m\<bar> < 2 ^ 53"
  shows "to_double (of_int m) = Fin (of_int m)"
  using to_double_exact [OF assms, of 0] by simp

lemma to_double_of_nat:
  assumes "n < 2 ^ 53"
  shows "to_double (real n) = Fin (real n)"
proof -
  have "\<bar>int n\<bar> < 2 ^ 53" using assms by (simp add: of_nat_less_iff [of n "2 ^ 53", where 'a = int, simplified]) 
  from to_double_of_int [OF this] show ?thesis by simp
qed

lemma to_double_1 [simp]: "to_double 1 = Fin 1"
  using to_double_of_int [of 1] by simp


lemma nm_bounded:
  assumes "\<bar>x\<bar> \<le> B" "nearest_multiple B = B"
  shows "\<bar>nearest_multiple x\<bar> \<le> B"
proof -
  have "nearest_multiple x \<le> nearest_multiple B" using assms(1) by (intro nm_mono) linarith
  moreover have "nearest_multiple (- B) \<le> nearest_multiple x" using assms(1) by (intro nm_mono) linarith
  ultimately show ?thesis using assms(2) by (simp add: nm_minus abs_le_iff)
qed

lemma whole_step:
  assumes "\<bar>a\<bar> < 2 ^ 53"
  shows "to_double (real_of_int a) = Fin (real_of_int a)"
  using assms by (rule to_double_of_int)

lemma whole_sum:
  assumes "list_all (\<lambda>v. real_of_int \<lfloor>v\<rfloor> = v) xs"
    and "\<bar>real_of_int a\<bar> + sum_list (map abs xs) < 2 ^ 53"
  shows "foldl (\<lambda>s n. js_add s (Fin n)) (Fin (real_of_int a)) xs = Fin (real_of_int a + sum_list xs)"
  using assms
proof (induction xs arbitrary: a)
  case Nil
  show ?case by simp
next
  case (Cons x xs)
  from Cons.prems(1) have xi: "real_of_int \<lfloor>x\<rfloor> = x" and rest: "list_all (\<lambda>v. real_of_int \<lfloor>v\<rfloor> = v) xs"
    by (simp_all only: list.pred_inject)
  have nn: "0 \<le> sum_list (map abs xs)" by (induction xs) auto
  have ax: "real_of_int a + x = real_of_int (a + \<lfloor>x\<rfloor>)" by (simp only: of_int_add xi)
  have "\<bar>real_of_int (a + \<lfloor>x\<rfloor>)\<bar> \<le> \<bar>real_of_int a\<bar> + \<bar>x\<bar>" unfolding ax [symmetric] by simp
  then have b: "\<bar>real_of_int (a + \<lfloor>x\<rfloor>)\<bar> + sum_list (map abs xs) < 2 ^ 53"
    using Cons.prems(2) by simp
  then have "\<bar>real_of_int (a + \<lfloor>x\<rfloor>)\<bar> < real_of_int (2 ^ 53)" using nn by simp
  then have "\<bar>a + \<lfloor>x\<rfloor>\<bar> < 2 ^ 53" by linarith
  from to_double_of_int [OF this] have st: "js_add (Fin (real_of_int a)) (Fin x) = Fin (real_of_int (a + \<lfloor>x\<rfloor>))"
    unfolding ax [symmetric] by simp
  have "foldl (\<lambda>s n. js_add s (Fin n)) (Fin (real_of_int a)) (x # xs)
          = foldl (\<lambda>s n. js_add s (Fin n)) (Fin (real_of_int (a + \<lfloor>x\<rfloor>))) xs"
    by (simp add: st del: js_add.simps)
  also have "\<dots> = Fin (real_of_int (a + \<lfloor>x\<rfloor>) + sum_list xs)"
    by (rule Cons.IH [OF rest b])
  finally show ?case using ax by simp
qed

lemma half_integer_exact:
  assumes "\<bar>k\<bar> \<le> 2 ^ 51 + 1"
  shows "nearest_multiple (real_of_int k + 1 / 2) = real_of_int k + 1 / 2"
    and "nearest_multiple (real_of_int k - 1 / 2) = real_of_int k - 1 / 2"
proof -
  have a: "\<bar>2 * k + 1\<bar> < 2 ^ 53" "\<bar>2 * k - 1\<bar> < 2 ^ 53" using assms by simp_all
  have e1: "real_of_int (2 * k + 1) * 2 powi (- 1) = real_of_int k + 1 / 2"
    by (simp add: field_simps)
  have "nearest_multiple (real_of_int (2 * k + 1) * 2 powi (- 1)) = real_of_int (2 * k + 1) * 2 powi (- 1)"
    using a(1) by (intro nm_exact) simp_all
  then show "nearest_multiple (real_of_int k + 1 / 2) = real_of_int k + 1 / 2"
    by (simp only: e1)
  have e2: "real_of_int (2 * k - 1) * 2 powi (- 1) = real_of_int k - 1 / 2"
    by (simp add: field_simps)
  have "nearest_multiple (real_of_int (2 * k - 1) * 2 powi (- 1)) = real_of_int (2 * k - 1) * 2 powi (- 1)"
    using a(2) by (intro nm_exact) simp_all
  then show "nearest_multiple (real_of_int k - 1 / 2) = real_of_int k - 1 / 2"
    by (simp only: e2)
qed

lemma ulp_le:
  assumes "x \<noteq> 0"
  shows "ulp x \<le> max (\<bar>x\<bar> / 2 ^ 52) (2 powi (- 1074))"
proof (cases "- 1022 \<le> binade \<bar>x\<bar>")
  case True
  have pos: "0 < \<bar>x\<bar>" using assms by simp
  have "ulp x = 2 powi (binade \<bar>x\<bar> - 52)" using True by (simp add: ulp_def)
  also have "\<dots> = 2 powi binade \<bar>x\<bar> / 2 ^ 52"
    using power_int_diff [of "2::real" "binade \<bar>x\<bar>" 52] by simp
  also have "\<dots> \<le> \<bar>x\<bar> / 2 ^ 52"
    using binade_bounds(1) [OF pos] by (simp add: divide_right_mono)
  finally show ?thesis by simp
next
  case False
  then have "ulp x = 2 powi (- 1074)" by (simp add: ulp_def)
  then show ?thesis by simp
qed

lemma whole_quotient:
  fixes S :: int and n :: nat
  assumes "\<bar>S\<bar> \<le> 2 ^ 51" "0 < n" "n \<le> array_max"
  shows "\<exists>q. to_double (real_of_int S / real n) = Fin q \<and>
             \<lfloor>q + 1 / 2\<rfloor> = \<lfloor>real_of_int S / real n + 1 / 2\<rfloor>"
proof -
  define z where "z = real_of_int S / real n"
  define k where "k = \<lfloor>z + 1 / 2\<rfloor>"
  have n1: "1 \<le> real n" using assms(2) by simp
  have zb: "\<bar>z\<bar> \<le> 2 ^ 51"
  proof -
    have "\<bar>z\<bar> = \<bar>real_of_int S\<bar> / real n" by (simp add: z_def)
    also have "\<dots> \<le> \<bar>real_of_int S\<bar> / 1" using n1 by (intro divide_left_mono) auto
    also have "\<dots> \<le> real_of_int (2 ^ 51)" using assms(1) by simp
    finally show ?thesis by simp
  qed
  have lo: "real_of_int k - 1 / 2 \<le> z" unfolding k_def by linarith
  have hi: "z < real_of_int k + 1 / 2" unfolding k_def by linarith
  have "real_of_int \<bar>k\<bar> \<le> 2 ^ 51 + 1" using lo hi zb by (simp add: abs_le_iff) 
  then have "real_of_int \<bar>k\<bar> \<le> real_of_int (2 ^ 51 + 1)" by simp
  then have kb: "\<bar>k\<bar> \<le> 2 ^ 51 + 1" by (simp only: of_int_le_iff)
  note he = half_integer_exact [OF kb]
  define q where "q = nearest_multiple z"
  have q_lo: "real_of_int k - 1 / 2 \<le> q"
    using nm_mono [OF lo] he(2) by (simp add: q_def)
  have q_hi': "q \<le> real_of_int k + 1 / 2"
    using nm_mono [of z "real_of_int k + 1 / 2"] hi he(1) by (simp add: q_def)
  have q_ne: "q \<noteq> real_of_int k + 1 / 2"
  proof
    assume eq: "q = real_of_int k + 1 / 2"
    have err: "\<bar>q - z\<bar> \<le> ulp z / 2" unfolding q_def by (rule nm_error)
    have gap: "1 / (2 * real n) \<le> real_of_int k + 1 / 2 - z"
    proof -
      define N where "N = (2 * k + 1) * int n - 2 * S"
      have g: "real_of_int k + 1 / 2 - z = real_of_int N / (2 * real n)"
        using assms(2) by (simp add: z_def N_def field_simps)
      have "0 < real_of_int N / (2 * real n)"
        using hi g by linarith
      then have "0 < real_of_int N"
        using assms(2) by (simp add: zero_less_divide_iff)
      then have "0 < N" by (simp only: of_int_0_less_iff)
      then have "1 \<le> N" by simp
      then have "real_of_int 1 \<le> real_of_int N" by (simp only: of_int_le_iff)
      then have "1 \<le> real_of_int N" by simp
      then have "1 / (2 * real n) \<le> real_of_int N / (2 * real n)"
        using assms(2) by (intro divide_right_mono) auto
      then show ?thesis using g by simp
    qed
    have zne: "z \<noteq> 0"
    proof
      assume "z = 0"
      then have "q = 0" by (simp add: q_def)
      moreover from \<open>z = 0\<close> have "k = 0" by (simp add: k_def)
      ultimately show False using eq by simp
    qed
    have nle: "real n \<le> 2 ^ 32" using assms(3) by (simp add: array_max_def)
    have "real n * ulp z < 1"
    proof -
      from ulp_le [OF zne] consider "ulp z \<le> \<bar>z\<bar> / 2 ^ 52" | "ulp z \<le> 2 powi (- 1074)"
        by (auto simp: max_def split: if_splits)
      then show ?thesis
      proof cases
        case 1
        then have "real n * ulp z \<le> real n * (\<bar>z\<bar> / 2 ^ 52)"
          by (intro mult_left_mono) auto
        also have "\<dots> = \<bar>real_of_int S\<bar> / 2 ^ 52" using assms(2) by (simp add: z_def)
        also have "\<dots> \<le> real_of_int (2 ^ 51) / 2 ^ 52"
          using assms(1) by (intro divide_right_mono) auto
        also have "\<dots> < 1" by simp
        finally show ?thesis .
      next
        case 2
        then have "real n * ulp z \<le> 2 ^ 32 * 2 powi (- 1074)"
          using nle by (intro mult_mono) auto
        also have "\<dots> = 2 powi (- 1042)" using powi_split [of 32 "- 1074"] by simp
        also have "\<dots> < 2 powi 0" by (intro power_int_strict_increasing) auto
        finally show ?thesis by simp
      qed
    qed
    then have "ulp z / 2 < 1 / (2 * real n)"
      using assms(2) by (simp add: field_simps)
    with err gap eq show False by linarith
  qed
  have q_hi: "q < real_of_int k + 1 / 2" using q_hi' q_ne by linarith
  have fl: "\<lfloor>q + 1 / 2\<rfloor> = k"
    by (rule floor_unique) (use q_lo q_hi in auto)
  have "\<bar>q\<bar> \<le> 2 ^ 52" using q_lo q_hi \<open>real_of_int \<bar>k\<bar> \<le> 2 ^ 51 + 1\<close> by (simp add: abs_le_iff)
  also have "\<dots> < (2::real) powi 1024" by simp
  finally have "to_double z = Fin q" by (simp add: to_double_def q_def)
  then show ?thesis using fl unfolding z_def k_def by blast
qed

lemma rte_tie:
  assumes "t = of_int f + 1 / 2"
  shows "round_ties_even t = (if even f then f else f + 1)"
proof -
  have "\<lfloor>t\<rfloor> = f" unfolding assms by (rule floor_unique) simp_all
  then show ?thesis unfolding round_ties_even_def using assms by simp
qed

lemma to_double_tieI:
  assumes "2 powi e \<le> \<bar>x\<bar>" "\<bar>x\<bar> < 2 powi (e + 1)" "- 1022 \<le> e"
    and "x / 2 powi (e - 52) = of_int f + 1 / 2"
    and "\<bar>of_int (if even f then f else f + 1) * 2 powi (e - 52)\<bar> < (2::real) powi 1024"
  shows "to_double x = Fin (of_int (if even f then f else f + 1) * 2 powi (e - 52))"
proof -
  have b: "binade \<bar>x\<bar> = e" using assms(1,2) by (rule binade_unique)
  have u: "ulp x = 2 powi (e - 52)" using assms(3) by (simp add: ulp_def b)
  have "round_ties_even (x / ulp x) = (if even f then f else f + 1)"
    unfolding u using assms(4) by (rule rte_tie)
  then have "nearest_multiple x = of_int (if even f then f else f + 1) * 2 powi (e - 52)"
    by (simp only: nearest_multiple_def u)
  then show ?thesis using assms(5) by (simp only: to_double_def if_False not_le [symmetric])
qed

lemma to_double_numeral:
  "numeral k < (2::int) ^ 53 \<Longrightarrow> to_double (numeral k) = Fin (numeral k)"
  "numeral k < (2::int) ^ 53 \<Longrightarrow> to_double (- numeral k) = Fin (- numeral k)"
  using to_double_of_int [of "numeral k"] to_double_of_int [of "- numeral k"] by simp_all

lemma is_double_of_int: "\<bar>m\<bar> < 2 ^ 53 \<Longrightarrow> is_double (of_int m)"
  unfolding is_double_def by (rule to_double_of_int)

lemma is_double_numeral: "numeral k < (2::int) ^ 53 \<Longrightarrow> is_double (numeral k)"
  unfolding is_double_def by (rule to_double_numeral)

lemma is_double_0 [simp]: "is_double 0"
  by (simp add: is_double_def)

lemma is_double_1 [simp]: "is_double 1"
  by (simp add: is_double_def)

section \<open>The third quartile of the filtered cascade\<close>

lemma finite_amounts_Nil [simp]: "finite_amounts [] = []"
  by (simp add: finite_amounts_def map_filter_simps)

lemma finite_amounts_Cons:
  "finite_amounts (r # rs) =
     (case fin_of (paid_amt r) of None \<Rightarrow> finite_amounts rs | Some x \<Rightarrow> x # finite_amounts rs)"
  by (simp add: finite_amounts_def map_filter_simps split: option.split)

lemma sort_eq_Nil [simp]: "sort xs = [] \<longleftrightarrow> xs = []"
  by (metis length_0_conv length_sort)

lemma dollars_props_index [simp]: "map_of dollars_props (Index k) = None"
  by (simp add: dollars_props_def)

lemma sorted_last_Max:
  fixes ys :: "real list"
  assumes "sorted ys" "ys \<noteq> []"
  shows "ys ! (length ys - 1) = Max (set ys)"
proof (rule Max_eqI [symmetric])
  show "finite (set ys)" by simp
  show "ys ! (length ys - 1) \<in> set ys" using assms(2) by simp
  fix y assume "y \<in> set ys"
  then obtain i where i: "i < length ys" "ys ! i = y"
    unfolding in_set_conv_nth by blast
  have "ys ! i \<le> ys ! (length ys - 1)"
    by (rule sorted_nth_mono [OF assms(1)]) (use i in auto)
  then show "y \<le> ys ! (length ys - 1)"
    using i by simp
qed

lemma last_sort_Max:
  fixes xs :: "real list"
  assumes "xs \<noteq> []"
  shows "sort xs ! (length xs - 1) = Max (set xs)"
proof -
  have "sort xs \<noteq> []" using assms by (metis length_0_conv length_sort)
  then show ?thesis
    using sorted_last_Max [of "sort xs"] by simp
qed

text \<open>
  C9.  In the cascade with row filters, whenever the rows hold a finite amount, summarize
  answers an envelope whose p75 is the rounded largest finite amount: the guard reads an
  integer key of the function object, finds nothing, and the fallback to the last sorted
  value is taken.
\<close>

theorem summarize_v2_p75_is_max:
  assumes "finite_amounts rows \<noteq> []"
  shows "\<exists>e ms. summarize_v2 rows m qzip y0 y1 lvl = Some e \<and> metrics e = Some ms \<and>
           p75 ms = dollars (Max (set (finite_amounts rows)))"
proof -
  have ne: "sort (finite_amounts rows) \<noteq> []"
    using assms by (metis length_0_conv length_sort)
  have "sort (finite_amounts rows) ! (length (sort (finite_amounts rows)) - 1)
          = Max (set (finite_amounts rows))"
    using last_sort_Max [OF assms] by simp
  then show ?thesis
    using ne by (simp add: summarize_v2_def Let_def)
qed

theorem summarize_v2_p75_is_max_witness:
  "finite_amounts [\<lparr>paid_amt = Fin 10, dos_year = 2022\<rparr>, \<lparr>paid_amt = NaN, dos_year = 2022\<rparr>,
                   \<lparr>paid_amt = Fin 30.4, dos_year = 2023\<rparr>, \<lparr>paid_amt = Fin 20, dos_year = 2023\<rparr>] \<noteq> [] \<and>
   (\<exists>e ms. summarize_v2 [\<lparr>paid_amt = Fin 10, dos_year = 2022\<rparr>, \<lparr>paid_amt = NaN, dos_year = 2022\<rparr>,
                   \<lparr>paid_amt = Fin 30.4, dos_year = 2023\<rparr>, \<lparr>paid_amt = Fin 20, dos_year = 2023\<rparr>]
               meta_empty ''10001'' 2021 2025 ''zip'' = Some e \<and> metrics e = Some ms \<and> p75 ms = 30)"
proof -
  let ?rows = "[\<lparr>paid_amt = Fin 10, dos_year = 2022\<rparr>, \<lparr>paid_amt = NaN, dos_year = 2022\<rparr>,
                   \<lparr>paid_amt = Fin 30.4, dos_year = 2023\<rparr>, \<lparr>paid_amt = Fin 20, dos_year = 2023\<rparr>]"
  have fa: "finite_amounts ?rows = [10, 30.4, 20]"
    by (simp add: finite_amounts_Cons)
  then have h: "finite_amounts ?rows \<noteq> []" by simp
  have "dollars (Max (set (finite_amounts ?rows))) = 30"
    unfolding fa by (simp add: dollars_def)
  with summarize_v2_p75_is_max [OF h, of meta_empty "''10001''" 2021 2025 "''zip''"] h
  show ?thesis by simp
qed

section \<open>The interpolated percentile\<close>

lemma floor_eq_ceiling_int:
  fixes i :: real
  assumes "\<lfloor>i\<rfloor> = \<lceil>i\<rceil>"
  shows "i = real_of_int \<lfloor>i\<rfloor>"
proof -
  have a: "real_of_int \<lfloor>i\<rfloor> \<le> i" by (rule of_int_floor_le)
  have b: "i \<le> real_of_int \<lceil>i\<rceil>" by (rule le_of_int_ceiling)
  from b have "i \<le> real_of_int \<lfloor>i\<rfloor>" unfolding assms .
  from order_antisym [OF this a] show ?thesis .
qed

lemma exact_doubles:
  "to_double (1 / 2) = Fin (1 / 2)" "to_double (1 / 4) = Fin (1 / 4)"
  "to_double (3 / 4) = Fin (3 / 4)" "to_double (3 / 2) = Fin (3 / 2)"
  "to_double (11 / 2) = Fin (11 / 2)" "to_double (11 / 4) = Fin (11 / 4)"
  "to_double (33 / 4) = Fin (33 / 4)" "to_double (15 / 2) = Fin (15 / 2)"
  "to_double (75 / 2) = Fin (75 / 2)" "to_double (135 / 2) = Fin (135 / 2)"
  "to_double (185 / 2) = Fin (185 / 2)" "to_double (5 / 2) = Fin (5 / 2)"
  "to_double (- (5 / 2)) = Fin (- (5 / 2))"
  using to_double_exact [of 1 "- 1"] to_double_exact [of 1 "- 2"] to_double_exact [of 3 "- 2"]
    to_double_exact [of 3 "- 1"] to_double_exact [of 11 "- 1"] to_double_exact [of 11 "- 2"]
    to_double_exact [of 33 "- 2"] to_double_exact [of 15 "- 1"] to_double_exact [of 75 "- 1"]
    to_double_exact [of 135 "- 1"] to_double_exact [of 185 "- 1"] to_double_exact [of 5 "- 1"]
    to_double_exact [of "- 5" "- 1"]
  by simp_all

lemma element_in_range:
  "0 \<le> k \<Longrightarrow> k < int (length xs) \<Longrightarrow> element xs k = Fin (xs ! nat k)"
  by (simp add: element_def)

lemma element_cases:
  "element xs k = NaN \<or> (0 \<le> k \<and> k < int (length xs) \<and> element xs k = Fin (xs ! nat k))"
  by (simp add: element_def)

lemma element_double:
  assumes "list_all is_double xs" "element xs k = Fin a"
  shows "to_double a = Fin a"
proof -
  from element_cases [of xs k] assms(2)
  have k: "0 \<le> k" "k < int (length xs)" "a = xs ! nat k" by auto
  then have "nat k < length xs" by simp
  then have "is_double (xs ! nat k)" using assms(1) by (simp add: list_all_length)
  then show ?thesis using k(3) by (simp add: is_double_def)
qed

lemma js_sub_same: "js_sub (Fin i) (Fin i) = Fin 0"
  by (simp add: js_sub_def)

lemma js_sub_1_0: "js_sub (Fin 1) (Fin 0) = Fin 1"
  by (simp add: js_sub_def)

lemma blend_at_integer:
  assumes "\<lfloor>i\<rfloor> = \<lceil>i\<rceil>" "list_all is_double xs"
  shows "blend xs i = element xs \<lfloor>i\<rfloor>"
proof -
  have i: "real_of_int \<lfloor>i\<rfloor> = i" using floor_eq_ceiling_int [OF assms(1)] by simp
  have w: "js_sub (Fin i) (Fin (real_of_int \<lfloor>i\<rfloor>)) = Fin 0"
    unfolding i by (rule js_sub_same)
  have b: "blend xs i = js_add (js_mul (element xs \<lfloor>i\<rfloor>) (Fin 1)) (js_mul (element xs \<lfloor>i\<rfloor>) (Fin 0))"
    unfolding blend_def Let_def w js_sub_1_0 assms(1) [symmetric] ..
  from element_cases [of xs "\<lfloor>i\<rfloor>"] show ?thesis
  proof
    assume "element xs \<lfloor>i\<rfloor> = NaN"
    then show ?thesis unfolding b by simp
  next
    assume "0 \<le> \<lfloor>i\<rfloor> \<and> \<lfloor>i\<rfloor> < int (length xs) \<and> element xs \<lfloor>i\<rfloor> = Fin (xs ! nat \<lfloor>i\<rfloor>)"
    then have e: "element xs \<lfloor>i\<rfloor> = Fin (xs ! nat \<lfloor>i\<rfloor>)" by simp
    from element_double [OF assms(2) e] show ?thesis unfolding b e by simp
  qed
qed

lemma array_length_double:
  assumes "length xs \<le> array_max"
  shows "to_double (real (length xs - 1)) = Fin (real (length xs - 1))"
proof -
  have "length xs - 1 < 2 ^ 53" using assms by (simp add: array_max_def)
  then show ?thesis by (rule to_double_of_nat)
qed

lemma pct_eq_interp:
  assumes "xs \<noteq> []" "js_array xs" "0 \<le> p" "p \<le> 1"
  shows "pct xs p = Some (interpolated_percentile xs p)"
proof -
  have d: "list_all is_double xs" and l: "length xs \<le> array_max"
    using assms(2) by (simp_all add: js_array_def)
  have len: "0 < length xs" using assms(1) by simp
  consider "p = 0" | "p = 1" | "0 < p" "p < 1" using assms by linarith
  then show ?thesis
  proof cases
    case 1
    have "interpolated_percentile xs 0 = blend xs 0"
      by (simp add: interpolated_percentile_def)
    also have "\<dots> = element xs \<lfloor>0::real\<rfloor>" by (rule blend_at_integer) (simp_all add: d)
    also have "\<dots> = Fin (xs ! 0)" using len by (simp add: element_def)
    finally show ?thesis using assms(1) 1 by (simp add: pct_def)
  next
    case 2
    have "interpolated_percentile xs 1 = blend xs (real (length xs - 1))"
      using array_length_double [OF l] by (simp add: interpolated_percentile_def)
    also have "\<dots> = element xs \<lfloor>real (length xs - 1)\<rfloor>"
      by (rule blend_at_integer) (simp_all add: d)
    also have "\<dots> = Fin (xs ! (length xs - 1))" using len by (simp add: element_def)
    finally show ?thesis using assms(1) 2 by (simp add: pct_def)
  next
    case 3
    show ?thesis
    proof (cases "js_mul (Fin (real (length xs - 1))) (Fin p)")
      case (Fin i)
      show ?thesis
      proof (cases "\<lfloor>i\<rfloor> = \<lceil>i\<rceil>")
        case True
        from blend_at_integer [OF True d] show ?thesis
          using assms(1) 3 Fin True
          by (simp add: pct_def interpolated_percentile_def del: js_mul.simps)
      next
        case False
        then show ?thesis
          using assms(1) 3 Fin
          by (simp add: pct_def interpolated_percentile_def blend_def Let_def del: js_mul.simps)
      qed
    next
      case NaN
      then show ?thesis using assms(1) 3
        by (simp add: pct_def interpolated_percentile_def del: js_mul.simps)
    next
      case PosInf
      then show ?thesis using assms(1) 3
        by (simp add: pct_def interpolated_percentile_def del: js_mul.simps)
    next
      case NegInf
      then show ?thesis using assms(1) 3
        by (simp add: pct_def interpolated_percentile_def del: js_mul.simps)
    qed
  qed
qed















lemma idx_50: "vals \<noteq> [] \<Longrightarrow> idx vals 50 = length vals div 2"
proof -
  assume ne: "vals \<noteq> []"
  have "\<lfloor>(50 / 100) * real (length vals)\<rfloor> = int (length vals div 2)"
  proof -
    have "(50 / 100) * real (length vals) = real (length vals) / 2" by simp
    moreover have "\<lfloor>real (length vals) / 2\<rfloor> = int (length vals div 2)"
      by (simp add: floor_divide_of_nat_eq [where 'a = real, symmetric] del: of_nat_div)
    ultimately show ?thesis by simp
  qed
  moreover have "int (length vals div 2) \<le> int (length vals) - 1"
    using ne by (cases vals) auto
  ultimately show ?thesis by (simp add: idx_def)
qed

text \<open>
  The index of the cascade summaries is computed by \<^verbatim>\<open>Math.floor((p/100)*vals.length)\<close>
  in double arithmetic.  For the two arguments the source passes, 25 and 75, and an array,
  no operation rounds, so \<open>idx\<close> over the reals gives the index of the source.
\<close>

lemma idx_in_doubles:
  assumes "length vals \<le> array_max"
  shows "js_mul (js_div (Fin 25) (Fin 100)) (Fin (real (length vals))) = Fin (25 / 100 * real (length vals))"
    and "js_mul (js_div (Fin 75) (Fin 100)) (Fin (real (length vals))) = Fin (75 / 100 * real (length vals))"
proof -
  have n: "\<bar>int (length vals)\<bar> < 2 ^ 53" "\<bar>3 * int (length vals)\<bar> < 2 ^ 53"
    using assms by (simp_all add: array_max_def)
  have a: "to_double (real (length vals) / 4) = Fin (real (length vals) / 4)"
    using to_double_exact [OF n(1), of "- 2"] by simp
  have b: "to_double (3 * real (length vals) / 4) = Fin (3 * real (length vals) / 4)"
    using to_double_exact [OF n(2), of "- 2"] by simp
  show "js_mul (js_div (Fin 25) (Fin 100)) (Fin (real (length vals))) = Fin (25 / 100 * real (length vals))"
    using a by (simp add: exact_doubles)
  show "js_mul (js_div (Fin 75) (Fin 100)) (Fin (real (length vals))) = Fin (75 / 100 * real (length vals))"
    using b by (simp add: exact_doubles)
qed

lemma cascade_percentiles:
  assumes "finite_amounts rows \<noteq> []"
  shows "\<exists>e1 ms1 e2 ms2.
           summarize_v1 rows m z y0 y1 l = Some e1 \<and> metrics e1 = Some ms1 \<and>
           summarize_v2 rows m z y0 y1 l = Some e2 \<and> metrics e2 = Some ms2 \<and>
           median ms1 = dollars (nearest_rank (sort (finite_amounts rows)) (1 / 2)) \<and>
           p25 ms1 = dollars (nearest_rank (sort (finite_amounts rows)) (1 / 4)) \<and>
           p75 ms1 = dollars (nearest_rank (sort (finite_amounts rows)) (3 / 4)) \<and>
           median ms2 = median ms1 \<and> p25 ms2 = p25 ms1"
proof -
  have ne: "sort (finite_amounts rows) \<noteq> []" using assms by simp
  show ?thesis
    using ne idx_50 [OF ne]
    by (simp add: summarize_v1_def summarize_v2_def Let_def nearest_rank_def)
qed

lemma twelve_sorted:
  "sort (finite_amounts (rows_in_year y twelve_paid)) =
     [10, 20, 30, 40, 50, 60, 70, 80, 90, 100, 110, 120]"
  by (simp add: rows_in_year_def twelve_paid_def finite_amounts_Cons)

lemma twelve_nearest_rank:
  "nearest_rank [10, 20, 30, 40, 50, 60, 70, 80, 90, 100, 110, 120] (1 / 2) = 70"
  "nearest_rank [10, 20, 30, 40, 50, 60, 70, 80, 90, 100, 110, 120] (1 / 4) = 40"
  "nearest_rank [10, 20, 30, 40, 50, 60, 70, 80, 90, 100, 110, 120] (3 / 4) = 100"
  by (simp_all add: nearest_rank_def idx_def)

lemma floors:
  "\<lfloor>11 / 2 :: real\<rfloor> = 5" "\<lceil>11 / 2 :: real\<rceil> = 6"
  "\<lfloor>11 / 4 :: real\<rfloor> = 2" "\<lceil>11 / 4 :: real\<rceil> = 3"
  "\<lfloor>33 / 4 :: real\<rfloor> = 8" "\<lceil>33 / 4 :: real\<rceil> = 9"
  "\<lfloor>1 / 2 :: real\<rfloor> = 0" "\<lceil>1 / 2 :: real\<rceil> = 1"
  by (simp_all add: floor_eq_iff ceiling_eq_iff)

lemmas eval_blend =
  interpolated_percentile_def blend_def Let_def element_def js_sub_def floors exact_doubles
  to_double_numeral

lemma twelve_interpolated:
  "interpolated_percentile [10, 20, 30, 40, 50, 60, 70, 80, 90, 100, 110, 120] (1 / 2) = Fin 65"
  "interpolated_percentile [10, 20, 30, 40, 50, 60, 70, 80, 90, 100, 110, 120] (1 / 4) = Fin (75 / 2)"
  "interpolated_percentile [10, 20, 30, 40, 50, 60, 70, 80, 90, 100, 110, 120] (3 / 4) = Fin (185 / 2)"
  by (simp_all add: eval_blend)

lemma small_arrays:
  "js_array [0, 10]" "js_array [1, 2, 4]" "js_array [10, 20, 30, 40, 50, 60, 70, 80, 90, 100, 110, 120]"
  by (simp_all add: js_array_def array_max_def is_double_numeral)

text \<open>
  C2, as amended.  On every non-empty ascending array of numbers and every \<open>p\<close> in the unit
  interval, \<open>pct\<close>, the percentile behind median, p25 and p75 of the single-scope handler,
  is the linear interpolation between the order statistics around index \<open>(n - 1) * p\<close>,
  evaluated in double arithmetic.  The cascade summaries report nearest-rank values
  instead: the median, p25 and p75 of the cascade without row filters, and the median and
  p25 of the cascade with row filters, are the elements at \<^verbatim>\<open>idx\<close> of 50, 25 and 75 per
  cent, in whole dollars.  The nearest-rank value does not meet the definition: on
  \<open>[0, 10]\<close> at \<open>p = 1/2\<close> it is 10 where the interpolation is 5.
\<close>

theorem pct_linear_interpolation:
  "(\<forall>xs p. xs \<noteq> [] \<and> sorted xs \<and> js_array xs \<and> 0 \<le> p \<and> p \<le> 1 \<longrightarrow>
       pct xs p = Some (interpolated_percentile xs p)) \<and>
   (\<exists>xs p. xs \<noteq> [] \<and> sorted xs \<and> js_array xs \<and> 0 \<le> p \<and> p \<le> 1 \<and>
       Fin (nearest_rank xs p) \<noteq> interpolated_percentile xs p) \<and>
   (\<forall>rows m z y0 y1 l. finite_amounts rows \<noteq> [] \<longrightarrow>
       (\<exists>e1 ms1 e2 ms2.
           summarize_v1 rows m z y0 y1 l = Some e1 \<and> metrics e1 = Some ms1 \<and>
           summarize_v2 rows m z y0 y1 l = Some e2 \<and> metrics e2 = Some ms2 \<and>
           median ms1 = dollars (nearest_rank (sort (finite_amounts rows)) (1 / 2)) \<and>
           p25 ms1 = dollars (nearest_rank (sort (finite_amounts rows)) (1 / 4)) \<and>
           p75 ms1 = dollars (nearest_rank (sort (finite_amounts rows)) (3 / 4)) \<and>
           median ms2 = median ms1 \<and> p25 ms2 = p25 ms1))"
proof (intro conjI)
  show "\<forall>xs p. xs \<noteq> [] \<and> sorted xs \<and> js_array xs \<and> 0 \<le> p \<and> p \<le> 1 \<longrightarrow>
       pct xs p = Some (interpolated_percentile xs p)"
    using pct_eq_interp by blast
  have "nearest_rank [0, 10] (1 / 2) = 10"
    by (simp add: nearest_rank_def idx_def)
  moreover have "interpolated_percentile [0, 10] (1 / 2) = Fin 5"
    by (simp add: eval_blend)
  ultimately have "[0, 10] \<noteq> [] \<and> sorted [0, 10 :: real] \<and> js_array [0, 10] \<and>
       (0::real) \<le> 1 / 2 \<and> (1 / 2 :: real) \<le> 1 \<and>
       Fin (nearest_rank [0, 10] (1 / 2)) \<noteq> interpolated_percentile [0, 10] (1 / 2)"
    using small_arrays(1) by simp
  then show "\<exists>xs p. xs \<noteq> [] \<and> sorted xs \<and> js_array xs \<and> 0 \<le> p \<and> p \<le> 1 \<and>
       Fin (nearest_rank xs p) \<noteq> interpolated_percentile xs p"
    by blast
  show "\<forall>rows m z y0 y1 l. finite_amounts rows \<noteq> [] \<longrightarrow>
       (\<exists>e1 ms1 e2 ms2.
           summarize_v1 rows m z y0 y1 l = Some e1 \<and> metrics e1 = Some ms1 \<and>
           summarize_v2 rows m z y0 y1 l = Some e2 \<and> metrics e2 = Some ms2 \<and>
           median ms1 = dollars (nearest_rank (sort (finite_amounts rows)) (1 / 2)) \<and>
           p25 ms1 = dollars (nearest_rank (sort (finite_amounts rows)) (1 / 4)) \<and>
           p75 ms1 = dollars (nearest_rank (sort (finite_amounts rows)) (3 / 4)) \<and>
           median ms2 = median ms1 \<and> p25 ms2 = p25 ms1)"
    using cascade_percentiles by blast
qed

theorem pct_linear_interpolation_witness:
  "[1, 2, 4 :: real] \<noteq> [] \<and> sorted [1, 2, 4 :: real] \<and> js_array [1, 2, 4] \<and>
   pct [1, 2, 4] (1 / 4) = Some (Fin (3 / 2)) \<and>
   pct [1, 2, 4] (1 / 2) = Some (Fin 2) \<and>
   finite_amounts (rows_in_year 2022 twelve_paid) \<noteq> [] \<and>
   (\<exists>e ms. summarize_v1 (rows_in_year 2022 twelve_paid) meta_empty ''10001'' 2021 2025 ''zip'' = Some e \<and>
       metrics e = Some ms \<and> median ms = 70 \<and> p25 ms = 40 \<and> p75 ms = 100)"
proof -
  have a: "interpolated_percentile [1, 2, 4] (1 / 4) = Fin (3 / 2)"
    by (simp add: eval_blend)
  have b: "interpolated_percentile [1, 2, 4] (1 / 2) = Fin 2"
    by (simp add: eval_blend)
  have ne: "finite_amounts (rows_in_year 2022 twelve_paid) \<noteq> []"
    by (simp add: rows_in_year_def twelve_paid_def finite_amounts_Cons)
  note t = pct_linear_interpolation
  from t small_arrays(2)
  have "pct [1, 2, 4] (1 / 4) = Some (interpolated_percentile [1, 2, 4] (1 / 4))"
    and "pct [1, 2, 4] (1 / 2) = Some (interpolated_percentile [1, 2, 4] (1 / 2))"
    by simp_all
  then have p: "pct [1, 2, 4] (1 / 4) = Some (Fin (3 / 2))" "pct [1, 2, 4] (1 / 2) = Some (Fin 2)"
    using a b by simp_all
  from t have "\<forall>rows m z y0 y1 l. finite_amounts rows \<noteq> [] \<longrightarrow>
       (\<exists>e1 ms1 e2 ms2.
           summarize_v1 rows m z y0 y1 l = Some e1 \<and> metrics e1 = Some ms1 \<and>
           summarize_v2 rows m z y0 y1 l = Some e2 \<and> metrics e2 = Some ms2 \<and>
           median ms1 = dollars (nearest_rank (sort (finite_amounts rows)) (1 / 2)) \<and>
           p25 ms1 = dollars (nearest_rank (sort (finite_amounts rows)) (1 / 4)) \<and>
           p75 ms1 = dollars (nearest_rank (sort (finite_amounts rows)) (3 / 4)) \<and>
           median ms2 = median ms1 \<and> p25 ms2 = p25 ms1)"
    by (elim conjE)
  from this [rule_format, OF ne, of meta_empty "''10001''" 2021 2025 "''zip''"]
  obtain e ms where "summarize_v1 (rows_in_year 2022 twelve_paid) meta_empty ''10001'' 2021 2025 ''zip'' = Some e"
    and "metrics e = Some ms"
    and "median ms = dollars (nearest_rank (sort (finite_amounts (rows_in_year 2022 twelve_paid))) (1 / 2))"
    and "p25 ms = dollars (nearest_rank (sort (finite_amounts (rows_in_year 2022 twelve_paid))) (1 / 4))"
    and "p75 ms = dollars (nearest_rank (sort (finite_amounts (rows_in_year 2022 twelve_paid))) (3 / 4))"
    by blast
  then have "\<exists>e ms. summarize_v1 (rows_in_year 2022 twelve_paid) meta_empty ''10001'' 2021 2025 ''zip'' = Some e \<and>
       metrics e = Some ms \<and> median ms = 70 \<and> p25 ms = 40 \<and> p75 ms = 100"
    unfolding twelve_sorted twelve_nearest_rank by (auto simp: dollars_def)
  with p ne small_arrays(2) show ?thesis by simp
qed

text \<open>
  The claim as it was stated fails on the cascade summaries: for twelve fetched rows from 10
  to 120 in steps of 10 they report median 70, p25 40 and p75 100, where the interpolation
  gives 65, 37.5 and 92.5.
\<close>

theorem cascade_percentile_counterexample:
  "MIN_N \<le> length (rows_in_year 2022 twelve_paid) \<and>
   (\<exists>e ms. summarize_v1 (rows_in_year 2022 twelve_paid) (meta_rep ''10001'') ''10001''
              2021 2025 ''zip'' = Some e \<and>
            metrics e = Some ms \<and> median ms = 70 \<and> p25 ms = 40 \<and> p75 ms = 100) \<and>
   interpolated_percentile (sort (finite_amounts (rows_in_year 2022 twelve_paid))) (1 / 2) = Fin 65 \<and>
   interpolated_percentile (sort (finite_amounts (rows_in_year 2022 twelve_paid))) (1 / 4) = Fin (75 / 2) \<and>
   interpolated_percentile (sort (finite_amounts (rows_in_year 2022 twelve_paid))) (3 / 4) = Fin (185 / 2)"
proof -
  have ne: "finite_amounts (rows_in_year 2022 twelve_paid) \<noteq> []"
    by (simp add: rows_in_year_def twelve_paid_def finite_amounts_Cons)
  from cascade_percentiles [OF ne, of "meta_rep ''10001''" "''10001''" 2021 2025 "''zip''"]
  obtain e ms where "summarize_v1 (rows_in_year 2022 twelve_paid) (meta_rep ''10001'') ''10001'' 2021 2025 ''zip'' = Some e"
    and "metrics e = Some ms"
    and "median ms = dollars (nearest_rank (sort (finite_amounts (rows_in_year 2022 twelve_paid))) (1 / 2))"
    and "p25 ms = dollars (nearest_rank (sort (finite_amounts (rows_in_year 2022 twelve_paid))) (1 / 4))"
    and "p75 ms = dollars (nearest_rank (sort (finite_amounts (rows_in_year 2022 twelve_paid))) (3 / 4))"
    by blast
  then have "\<exists>e ms. summarize_v1 (rows_in_year 2022 twelve_paid) (meta_rep ''10001'') ''10001''
              2021 2025 ''zip'' = Some e \<and>
            metrics e = Some ms \<and> median ms = 70 \<and> p25 ms = 40 \<and> p75 ms = 100"
    unfolding twelve_sorted twelve_nearest_rank by (auto simp: dollars_def)
  moreover have "MIN_N \<le> length (rows_in_year 2022 twelve_paid)"
    by (simp add: MIN_N_def rows_in_year_def twelve_paid_def)
  ultimately show ?thesis
    unfolding twelve_sorted by (simp add: twelve_interpolated)
qed

lemma sample_doubles:
  "to_double (1 / 100) = Fin cent" "to_double (4 / 100) = Fin four_cents"
  "to_double (1 / 10) = Fin dime" "to_double (89 / 10) = Fin eight_ninety"
  "is_double cent" "is_double four_cents" "is_double dime" "is_double eight_ninety"
proof -
  have a: "to_double (1 / 100) = Fin (of_int 5764607523034235 * 2 powi (- 7 - 52))"
    by (rule to_double_eqI) simp_all
  then show "to_double (1 / 100) = Fin cent" by (simp add: cent_def)
  have b: "to_double (4 / 100) = Fin (of_int 5764607523034235 * 2 powi (- 5 - 52))"
    by (rule to_double_eqI) simp_all
  then show "to_double (4 / 100) = Fin four_cents" by (simp add: four_cents_def)
  have c: "to_double (1 / 10) = Fin (of_int 7205759403792794 * 2 powi (- 4 - 52))"
    by (rule to_double_eqI) simp_all
  then show "to_double (1 / 10) = Fin dime" by (simp add: dime_def)
  have d: "to_double (89 / 10) = Fin (of_int 5010254585449677 * 2 powi (3 - 52))"
    by (rule to_double_eqI) simp_all
  then show "to_double (89 / 10) = Fin eight_ninety" by (simp add: eight_ninety_def)
  show "is_double cent"
    using to_double_exact [of 5764607523034235 "- 59"] by (simp add: is_double_def cent_def)
  show "is_double four_cents"
    using to_double_exact [of 5764607523034235 "- 57"] by (simp add: is_double_def four_cents_def)
  show "is_double dime"
    using to_double_exact [of 3602879701896397 "- 55"] by (simp add: is_double_def dime_def)
  show "is_double eight_ninety"
    using to_double_exact [of 5010254585449677 "- 49"] by (simp add: is_double_def eight_ninety_def)
qed






section \<open>The mean\<close>

lemma sum_list_sort: "sum_list (sort xs) = sum_list (xs :: real list)"
proof -
  have "sum_list (sort xs) = sum_mset (mset (sort xs))" by (simp only: sum_mset_sum_list)
  also have "\<dots> = sum_mset (mset xs)" by simp
  also have "\<dots> = sum_list xs" by (simp only: sum_mset_sum_list)
  finally show ?thesis .
qed

lemma sum_abs_sort: "sum_list (map abs (sort xs)) = sum_list (map abs (xs :: real list))"
proof -
  have "sum_list (map abs (sort xs)) = sum_mset (mset (map abs (sort xs)))"
    by (simp only: sum_mset_sum_list)
  also have "\<dots> = sum_mset (mset (map abs xs))" by simp
  also have "\<dots> = sum_list (map abs xs)" by (simp only: sum_mset_sum_list)
  finally show ?thesis .
qed

lemma list_all_sort: "list_all P (sort xs) = list_all P (xs :: real list)"
  by (simp add: list_all_iff)

lemma dollars_half_away:
  "dollars x = round_half_away_from_zero x \<longleftrightarrow> (0 \<le> x \<or> x + 1 / 2 \<notin> \<int>)"
proof (cases "0 \<le> x")
  case True
  then show ?thesis by (simp add: dollars_def round_half_away_from_zero_def)
next
  case False
  show ?thesis
  proof (cases "x + 1 / 2 \<in> \<int>")
    case True
    then obtain k :: int where k: "x + 1 / 2 = of_int k" by (auto elim: Ints_cases)
    then have "x - 1 / 2 = of_int (k - 1)" by simp
    then have "\<lceil>x - 1 / 2\<rceil> = k - 1" by (metis ceiling_of_int)
    moreover have "\<lfloor>x + 1 / 2\<rfloor> = k" using k by (metis floor_of_int)
    ultimately show ?thesis using False True
      by (simp add: dollars_def round_half_away_from_zero_def)
  next
    case ni: False
    define k where "k = \<lfloor>x + 1 / 2\<rfloor>"
    have "of_int k \<le> x + 1 / 2" unfolding k_def by (rule of_int_floor_le)
    moreover have "of_int k \<noteq> x + 1 / 2" using ni by (metis Ints_of_int)
    ultimately have lo: "of_int k < x + 1 / 2" by simp
    have hi: "x + 1 / 2 < of_int k + 1" unfolding k_def by linarith
    have "\<lceil>x - 1 / 2\<rceil> = k"
      by (rule ceiling_unique) (use lo hi in auto)
    then show ?thesis using False ni
      by (simp add: dollars_def round_half_away_from_zero_def k_def)
  qed
qed

lemma whole_sum_is_int:
  assumes "list_all (\<lambda>v. real_of_int \<lfloor>v\<rfloor> = v) xs"
  shows "\<exists>S::int. sum_list xs = real_of_int S"
  using assms
proof (induction xs)
  case Nil
  have "sum_list ([]::real list) = real_of_int 0" by simp
  then show ?case by blast
next
  case (Cons x xs)
  from Cons.prems have xi: "real_of_int \<lfloor>x\<rfloor> = x"
    and rest: "list_all (\<lambda>v. real_of_int \<lfloor>v\<rfloor> = v) xs"
    by (simp_all only: list.pred_inject)
  from Cons.IH [OF rest] obtain S :: int where S: "sum_list xs = real_of_int S" by blast
  have "sum_list (x # xs) = real_of_int \<lfloor>x\<rfloor> + real_of_int S"
    unfolding xi using S by simp
  also have "\<dots> = real_of_int (\<lfloor>x\<rfloor> + S)" by simp
  finally show ?case by blast
qed

lemma whole_mean:
  assumes "xs \<noteq> []" "whole_amounts xs"
  shows "\<exists>q. mean_avg (sort xs) = Some (Fin q) \<and> dollars q = \<lfloor>average xs + 1 / 2\<rfloor>"
proof -
  have w: "list_all (\<lambda>v. real_of_int \<lfloor>v\<rfloor> = v) xs" and b: "sum_list (map abs xs) \<le> 2 ^ 51"
    and l: "length xs \<le> array_max"
    using assms(2) by (simp_all only: whole_amounts_def)
  have ws: "list_all (\<lambda>v. real_of_int \<lfloor>v\<rfloor> = v) (sort xs)" using w by (simp only: list_all_sort)
  have "\<bar>real_of_int 0\<bar> + sum_list (map abs (sort xs)) < 2 ^ 53"
    using b by (simp add: sum_abs_sort)
  from whole_sum [OF ws this]
  have f: "foldl (\<lambda>s n. js_add s (Fin n)) (Fin 0) (sort xs) = Fin (sum_list xs)"
    by (simp add: sum_list_sort)
  from whole_sum_is_int [OF w] obtain S :: int where S: "sum_list xs = real_of_int S" by blast
  have "\<bar>real_of_int S\<bar> \<le> sum_list (map abs xs)" unfolding S [symmetric] by (rule sum_list_abs)
  then have "\<bar>real_of_int S\<bar> \<le> real_of_int (2 ^ 51)" using b by simp
  then have Sb: "\<bar>S\<bar> \<le> 2 ^ 51" by linarith
  have n: "0 < length xs" using assms(1) by simp
  from whole_quotient [OF Sb n l] obtain q where
    q: "to_double (real_of_int S / real (length xs)) = Fin q"
       "\<lfloor>q + 1 / 2\<rfloor> = \<lfloor>real_of_int S / real (length xs) + 1 / 2\<rfloor>"
    by blast
  have ne: "sort xs \<noteq> []" using assms(1) by simp
  have "mean_avg (sort xs) = Some (Fin q)"
    using ne n q(1) by (simp add: mean_avg_def f S)
  moreover have "dollars q = \<lfloor>average xs + 1 / 2\<rfloor>"
    using q(2) by (simp add: dollars_def average_def S)
  ultimately show ?thesis by blast
qed

lemma summarize_mean:
  assumes "finite_amounts rows \<noteq> []"
  shows "\<exists>e1 ms1 e2 ms2 avg.
           summarize_v1 rows m z y0 y1 l = Some e1 \<and> metrics e1 = Some ms1 \<and>
           summarize_v2 rows m z y0 y1 l = Some e2 \<and> metrics e2 = Some ms2 \<and>
           mean_avg (sort (finite_amounts rows)) = Some avg \<and>
           avg = js_div (foldl (\<lambda>s n. js_add s (Fin n)) (Fin 0) (sort (finite_amounts rows)))
                   (Fin (real (length (finite_amounts rows)))) \<and>
           mean ms1 = dollars_num avg \<and> mean ms2 = mean ms1"
proof -
  have ne: "sort (finite_amounts rows) \<noteq> []" using assms by simp
  then show ?thesis
    by (simp add: summarize_v1_def summarize_v2_def Let_def mean_avg_def)
qed

text \<open>
  C6, as amended.  Whenever the rows hold a finite amount, both cascade summaries report as
  mean the quotient, in double arithmetic, of the sum of the finite amounts by their number,
  rounded to a whole number once, at the end, by \<open>dollars\<close>: to the nearest integer, a tie
  going up.  The sum is accumulated from the left over the ascending amounts and every
  addition rounds to the nearest double, as does the division; the quotient is the value the
  single-scope handler reports unrounded.  For amounts in whole currency units that sum
  to at most \<open>2^51\<close> in absolute value no operation loses anything, and the mean is the
  exact average rounded half up.  Rounding half up is rounding half away from zero exactly
  when the number is not a negative tie.
\<close>

theorem summarize_mean_rounds_half_up:
  assumes "finite_amounts rows \<noteq> []"
  shows "(\<exists>e1 ms1 e2 ms2 avg.
           summarize_v1 rows m qzip y0 y1 lvl = Some e1 \<and> metrics e1 = Some ms1 \<and>
           summarize_v2 rows m qzip y0 y1 lvl = Some e2 \<and> metrics e2 = Some ms2 \<and>
           mean_avg (sort (finite_amounts rows)) = Some avg \<and>
           avg = js_div (foldl (\<lambda>s n. js_add s (Fin n)) (Fin 0) (sort (finite_amounts rows)))
                   (Fin (real (length (finite_amounts rows)))) \<and>
           mean ms1 = dollars_num avg \<and> mean ms2 = mean ms1 \<and>
           (whole_amounts (finite_amounts rows) \<longrightarrow>
              mean ms1 = Some \<lfloor>average (finite_amounts rows) + 1 / 2\<rfloor>)) \<and>
         (\<forall>x. dollars_num (Fin x) = Some (round_half_away_from_zero x) \<longleftrightarrow>
              (0 \<le> x \<or> x + 1 / 2 \<notin> \<int>))"
proof
  from summarize_mean [OF assms, of m qzip y0 y1 lvl] obtain e1 ms1 e2 ms2 avg where
    s: "summarize_v1 rows m qzip y0 y1 lvl = Some e1" "metrics e1 = Some ms1"
       "summarize_v2 rows m qzip y0 y1 lvl = Some e2" "metrics e2 = Some ms2"
       "mean_avg (sort (finite_amounts rows)) = Some avg"
       "avg = js_div (foldl (\<lambda>s n. js_add s (Fin n)) (Fin 0) (sort (finite_amounts rows)))
                   (Fin (real (length (finite_amounts rows))))"
       "mean ms1 = dollars_num avg" "mean ms2 = mean ms1"
    by blast
  have "whole_amounts (finite_amounts rows) \<longrightarrow>
              mean ms1 = Some \<lfloor>average (finite_amounts rows) + 1 / 2\<rfloor>"
  proof
    assume "whole_amounts (finite_amounts rows)"
    from whole_mean [OF assms this] s(5,7) show "mean ms1 = Some \<lfloor>average (finite_amounts rows) + 1 / 2\<rfloor>"
      by auto
  qed
  with s show "\<exists>e1 ms1 e2 ms2 avg.
           summarize_v1 rows m qzip y0 y1 lvl = Some e1 \<and> metrics e1 = Some ms1 \<and>
           summarize_v2 rows m qzip y0 y1 lvl = Some e2 \<and> metrics e2 = Some ms2 \<and>
           mean_avg (sort (finite_amounts rows)) = Some avg \<and>
           avg = js_div (foldl (\<lambda>s n. js_add s (Fin n)) (Fin 0) (sort (finite_amounts rows)))
                   (Fin (real (length (finite_amounts rows)))) \<and>
           mean ms1 = dollars_num avg \<and> mean ms2 = mean ms1 \<and>
           (whole_amounts (finite_amounts rows) \<longrightarrow>
              mean ms1 = Some \<lfloor>average (finite_amounts rows) + 1 / 2\<rfloor>)"
    by blast
  show "\<forall>x. dollars_num (Fin x) = Some (round_half_away_from_zero x) \<longleftrightarrow>
              (0 \<le> x \<or> x + 1 / 2 \<notin> \<int>)"
    using dollars_half_away by simp
qed

theorem summarize_mean_rounds_half_up_witness:
  "finite_amounts (rows_in_year 2022 [Fin 1, Fin 2, NaN, Fin 2, Fin 5]) \<noteq> [] \<and>
   whole_amounts (finite_amounts (rows_in_year 2022 [Fin 1, Fin 2, NaN, Fin 2, Fin 5])) \<and>
   (\<exists>e ms. summarize_v1 (rows_in_year 2022 [Fin 1, Fin 2, NaN, Fin 2, Fin 5]) meta_empty ''10001''
              2021 2025 ''zip'' = Some e \<and> metrics e = Some ms \<and> mean ms = Some 3 \<and>
            round_half_away_from_zero (average [1, 2, 2, 5]) = 3) \<and>
   mean_avg (sort [1, 2, 2, 5]) = Some (Fin (5 / 2))"
proof -
  let ?rows = "rows_in_year 2022 [Fin 1, Fin 2, NaN, Fin 2, Fin 5]"
  have fa: "finite_amounts ?rows = [1, 2, 2, 5]"
    by (simp add: rows_in_year_def finite_amounts_Cons)
  then have h: "finite_amounts ?rows \<noteq> []" by simp
  have wh: "whole_amounts (finite_amounts ?rows)"
    unfolding fa by (simp add: whole_amounts_def array_max_def)
  have a: "average [1, 2, 2, 5] = 5 / 2" by (simp add: average_def)
  have r: "round_half_away_from_zero (5 / 2) = 3" by (simp add: round_half_away_from_zero_def)
  have f: "\<lfloor>(5 / 2 :: real) + 1 / 2\<rfloor> = 3" by simp
  have ma: "mean_avg (sort [1, 2, 2, 5]) = Some (Fin (5 / 2))"
    by (simp add: mean_avg_def to_double_numeral exact_doubles)
  from summarize_mean_rounds_half_up [OF h, of meta_empty "''10001''" 2021 2025 "''zip''"] wh
  obtain e ms where "summarize_v1 ?rows meta_empty ''10001'' 2021 2025 ''zip'' = Some e"
    "metrics e = Some ms" "mean ms = Some \<lfloor>average (finite_amounts ?rows) + 1 / 2\<rfloor>"
    by blast
  then have "\<exists>e ms. summarize_v1 ?rows meta_empty ''10001''
              2021 2025 ''zip'' = Some e \<and> metrics e = Some ms \<and> mean ms = Some 3"
    unfolding fa a using f by auto
  moreover have "round_half_away_from_zero (average [1, 2, 2, 5]) = 3"
    unfolding a by (rule r)
  ultimately have "\<exists>e ms. summarize_v1 ?rows meta_empty ''10001''
              2021 2025 ''zip'' = Some e \<and> metrics e = Some ms \<and> mean ms = Some 3 \<and>
            round_half_away_from_zero (average [1, 2, 2, 5]) = 3"
    by auto
  with h wh ma show ?thesis by (intro conjI)
qed

lemma small_change_sorted:
  "sort (finite_amounts small_change) = [(3602879701896397 / 36028797018963968), (3602879701896397 / 36028797018963968), (3602879701896397 / 36028797018963968), (3602879701896397 / 36028797018963968), (3602879701896397 / 36028797018963968), (3602879701896397 / 36028797018963968), (5010254585449677 / 562949953421312), (5010254585449677 / 562949953421312), (5010254585449677 / 562949953421312), (5010254585449677 / 562949953421312), (5010254585449677 / 562949953421312), (5010254585449677 / 562949953421312)]"
  by (simp add: small_change_def rows_in_year_def finite_amounts_Cons dime_def eight_ninety_def)

lemma small_change_quotient:
  "js_div (foldl (\<lambda>s n. js_add s (Fin n)) (Fin 0) [(3602879701896397 / 36028797018963968), (3602879701896397 / 36028797018963968), (3602879701896397 / 36028797018963968), (3602879701896397 / 36028797018963968), (3602879701896397 / 36028797018963968), (3602879701896397 / 36028797018963968), (5010254585449677 / 562949953421312), (5010254585449677 / 562949953421312), (5010254585449677 / 562949953421312), (5010254585449677 / 562949953421312), (5010254585449677 / 562949953421312), (5010254585449677 / 562949953421312)]) (Fin 12) = Fin (5066549580791807 / 1125899906842624)"
proof -
  have s1: "js_add (Fin 0) (Fin (3602879701896397 / 36028797018963968)) = Fin (3602879701896397 / 36028797018963968)"
  proof -
    have e: "0 + (3602879701896397 / 36028797018963968) = ((3602879701896397 / 36028797018963968)::real)" by simp
    have "to_double (3602879701896397 / 36028797018963968) = Fin (of_int 7205759403792794 * 2 powi ((- 4) - 52))"
      by (rule to_double_eqI) simp_all
    then have r: "to_double (3602879701896397 / 36028797018963968) = Fin (3602879701896397 / 36028797018963968)" by simp
    show ?thesis unfolding js_add.simps e by (rule r)
  qed
  have s2: "js_add (Fin (3602879701896397 / 36028797018963968)) (Fin (3602879701896397 / 36028797018963968)) = Fin (3602879701896397 / 18014398509481984)"
  proof -
    have e: "(3602879701896397 / 36028797018963968) + (3602879701896397 / 36028797018963968) = ((3602879701896397 / 18014398509481984)::real)" by simp
    have "to_double (3602879701896397 / 18014398509481984) = Fin (of_int 7205759403792794 * 2 powi ((- 3) - 52))"
      by (rule to_double_eqI) simp_all
    then have r: "to_double (3602879701896397 / 18014398509481984) = Fin (3602879701896397 / 18014398509481984)" by simp
    show ?thesis unfolding js_add.simps e by (rule r)
  qed
  have s3: "js_add (Fin (3602879701896397 / 18014398509481984)) (Fin (3602879701896397 / 36028797018963968)) = Fin (1351079888211149 / 4503599627370496)"
  proof -
    have e: "(3602879701896397 / 18014398509481984) + (3602879701896397 / 36028797018963968) = ((10808639105689191 / 36028797018963968)::real)" by simp
    have "to_double (10808639105689191 / 36028797018963968) = Fin (of_int (if even (5404319552844595::int) then 5404319552844595 else 5404319552844595 + 1) * 2 powi ((- 2) - 52))"
      by (rule to_double_tieI) simp_all
    then have r: "to_double (10808639105689191 / 36028797018963968) = Fin (1351079888211149 / 4503599627370496)" by simp
    show ?thesis unfolding js_add.simps e by (rule r)
  qed
  have s4: "js_add (Fin (1351079888211149 / 4503599627370496)) (Fin (3602879701896397 / 36028797018963968)) = Fin (3602879701896397 / 9007199254740992)"
  proof -
    have e: "(1351079888211149 / 4503599627370496) + (3602879701896397 / 36028797018963968) = ((14411518807585589 / 36028797018963968)::real)" by simp
    have "to_double (14411518807585589 / 36028797018963968) = Fin (of_int (if even (7205759403792794::int) then 7205759403792794 else 7205759403792794 + 1) * 2 powi ((- 2) - 52))"
      by (rule to_double_tieI) simp_all
    then have r: "to_double (14411518807585589 / 36028797018963968) = Fin (3602879701896397 / 9007199254740992)" by simp
    show ?thesis unfolding js_add.simps e by (rule r)
  qed
  have s5: "js_add (Fin (3602879701896397 / 9007199254740992)) (Fin (3602879701896397 / 36028797018963968)) = Fin (1 / 2)"
  proof -
    have e: "(3602879701896397 / 9007199254740992) + (3602879701896397 / 36028797018963968) = ((18014398509481985 / 36028797018963968)::real)" by simp
    have "to_double (18014398509481985 / 36028797018963968) = Fin (of_int 4503599627370496 * 2 powi ((- 1) - 52))"
      by (rule to_double_eqI) simp_all
    then have r: "to_double (18014398509481985 / 36028797018963968) = Fin (1 / 2)" by simp
    show ?thesis unfolding js_add.simps e by (rule r)
  qed
  have s6: "js_add (Fin (1 / 2)) (Fin (3602879701896397 / 36028797018963968)) = Fin (5404319552844595 / 9007199254740992)"
  proof -
    have e: "(1 / 2) + (3602879701896397 / 36028797018963968) = ((21617278211378381 / 36028797018963968)::real)" by simp
    have "to_double (21617278211378381 / 36028797018963968) = Fin (of_int 5404319552844595 * 2 powi ((- 1) - 52))"
      by (rule to_double_eqI) simp_all
    then have r: "to_double (21617278211378381 / 36028797018963968) = Fin (5404319552844595 / 9007199254740992)" by simp
    show ?thesis unfolding js_add.simps e by (rule r)
  qed
  have s7: "js_add (Fin (5404319552844595 / 9007199254740992)) (Fin (5010254585449677 / 562949953421312)) = Fin (19 / 2)"
  proof -
    have e: "(5404319552844595 / 9007199254740992) + (5010254585449677 / 562949953421312) = ((85568392920039427 / 9007199254740992)::real)" by simp
    have "to_double (85568392920039427 / 9007199254740992) = Fin (of_int 5348024557502464 * 2 powi (3 - 52))"
      by (rule to_double_eqI) simp_all
    then have r: "to_double (85568392920039427 / 9007199254740992) = Fin (19 / 2)" by simp
    show ?thesis unfolding js_add.simps e by (rule r)
  qed
  have s8: "js_add (Fin (19 / 2)) (Fin (5010254585449677 / 562949953421312)) = Fin (2589569785738035 / 140737488355328)"
  proof -
    have e: "(19 / 2) + (5010254585449677 / 562949953421312) = ((10358279142952141 / 562949953421312)::real)" by simp
    have "to_double (10358279142952141 / 562949953421312) = Fin (of_int (if even (5179139571476070::int) then 5179139571476070 else 5179139571476070 + 1) * 2 powi (4 - 52))"
      by (rule to_double_tieI) simp_all
    then have r: "to_double (10358279142952141 / 562949953421312) = Fin (2589569785738035 / 140737488355328)" by simp
    show ?thesis unfolding js_add.simps e by (rule r)
  qed
  have s9: "js_add (Fin (2589569785738035 / 140737488355328)) (Fin (5010254585449677 / 562949953421312)) = Fin (1921066716050227 / 70368744177664)"
  proof -
    have e: "(2589569785738035 / 140737488355328) + (5010254585449677 / 562949953421312) = ((15368533728401817 / 562949953421312)::real)" by simp
    have "to_double (15368533728401817 / 562949953421312) = Fin (of_int (if even (7684266864200908::int) then 7684266864200908 else 7684266864200908 + 1) * 2 powi (4 - 52))"
      by (rule to_double_tieI) simp_all
    then have r: "to_double (15368533728401817 / 562949953421312) = Fin (1921066716050227 / 70368744177664)" by simp
    show ?thesis unfolding js_add.simps e by (rule r)
  qed
  have s10: "js_add (Fin (1921066716050227 / 70368744177664)) (Fin (5010254585449677 / 562949953421312)) = Fin (5094697078462873 / 140737488355328)"
  proof -
    have e: "(1921066716050227 / 70368744177664) + (5010254585449677 / 562949953421312) = ((20378788313851493 / 562949953421312)::real)" by simp
    have "to_double (20378788313851493 / 562949953421312) = Fin (of_int 5094697078462873 * 2 powi (5 - 52))"
      by (rule to_double_eqI) simp_all
    then have r: "to_double (20378788313851493 / 562949953421312) = Fin (5094697078462873 / 140737488355328)" by simp
    show ?thesis unfolding js_add.simps e by (rule r)
  qed
  have s11: "js_add (Fin (5094697078462873 / 140737488355328)) (Fin (5010254585449677 / 562949953421312)) = Fin (1586815181206323 / 35184372088832)"
  proof -
    have e: "(5094697078462873 / 140737488355328) + (5010254585449677 / 562949953421312) = ((25389042899301169 / 562949953421312)::real)" by simp
    have "to_double (25389042899301169 / 562949953421312) = Fin (of_int 6347260724825292 * 2 powi (5 - 52))"
      by (rule to_double_eqI) simp_all
    then have r: "to_double (25389042899301169 / 562949953421312) = Fin (1586815181206323 / 35184372088832)" by simp
    show ?thesis unfolding js_add.simps e by (rule r)
  qed
  have s12: "js_add (Fin (1586815181206323 / 35184372088832)) (Fin (5010254585449677 / 562949953421312)) = Fin (7599824371187711 / 140737488355328)"
  proof -
    have e: "(1586815181206323 / 35184372088832) + (5010254585449677 / 562949953421312) = ((30399297484750845 / 562949953421312)::real)" by simp
    have "to_double (30399297484750845 / 562949953421312) = Fin (of_int 7599824371187711 * 2 powi (5 - 52))"
      by (rule to_double_eqI) simp_all
    then have r: "to_double (30399297484750845 / 562949953421312) = Fin (7599824371187711 / 140737488355328)" by simp
    show ?thesis unfolding js_add.simps e by (rule r)
  qed
  have q: "js_div (Fin (7599824371187711 / 140737488355328)) (Fin 12) = Fin (5066549580791807 / 1125899906842624)"
  proof -
    have e: "(7599824371187711 / 140737488355328) / 12 = ((7599824371187711 / 1688849860263936)::real)" by simp
    have "to_double (7599824371187711 / 1688849860263936) = Fin (of_int 5066549580791807 * 2 powi (2 - 52))"
      by (rule to_double_eqI) simp_all
    then have r: "to_double (7599824371187711 / 1688849860263936) = Fin (5066549580791807 / 1125899906842624)" by simp
    have nz: "12 \<noteq> (0::real)" by simp
    show ?thesis unfolding js_div.simps if_not_P [OF nz] e by (rule r)
  qed
  show ?thesis by (simp only: foldl.simps s1 s2 s3 s4 s5 s6 s7 s8 s9 s10 s11 s12 q)
qed

text \<open>
  The claim as it was stated fails in two ways.  On a negative tie: twelve fetched rows with
  average -5/2 are reported with mean -2, where rounding half away from zero gives -3.  And
  on the rounding of the sum: for six amounts of 0.1 and six of 8.9 the additions lose
  enough for the quotient to fall below 4.5, and the reported mean is 4, where the exact
  average of these doubles rounds to 5.
\<close>

theorem mean_negative_tie_counterexample:
  "MIN_N \<le> length refund_rows \<and>
   (\<exists>e ms. summarize_v1 refund_rows (meta_rep ''10001'') ''10001'' 2021 2025 ''zip'' = Some e \<and>
            metrics e = Some ms \<and> mean ms = Some (- 2)) \<and>
   average (finite_amounts refund_rows) = - 5 / 2 \<and>
   round_half_away_from_zero (average (finite_amounts refund_rows)) = - 3 \<and>
   MIN_N \<le> length small_change \<and> list_all is_double (finite_amounts small_change) \<and>
   (\<exists>e ms. summarize_v1 small_change (meta_rep ''10001'') ''10001'' 2021 2025 ''zip'' = Some e \<and>
            metrics e = Some ms \<and> mean ms = Some 4) \<and>
   9 / 2 < average (finite_amounts small_change) \<and>
   round_half_away_from_zero (average (finite_amounts small_change)) = 5"
proof -
  have fa: "finite_amounts refund_rows = [-3, -3, -3, -3, -3, -3, -2, -2, -2, -2, -2, -2]"
    by (simp add: refund_rows_def rows_in_year_def finite_amounts_Cons)
  have ne: "finite_amounts refund_rows \<noteq> []" unfolding fa by simp
  have a: "average (finite_amounts refund_rows) = - 5 / 2"
    unfolding fa by (simp add: average_def)
  have r: "round_half_away_from_zero (- 5 / 2) = - 3"
    by (simp add: round_half_away_from_zero_def)
  have wh: "whole_amounts (finite_amounts refund_rows)"
    unfolding fa by (simp add: whole_amounts_def array_max_def del: of_int_floor_cancel)
  from whole_mean [OF ne wh] obtain q where
    q: "mean_avg (sort (finite_amounts refund_rows)) = Some (Fin q)"
       "dollars q = \<lfloor>average (finite_amounts refund_rows) + 1 / 2\<rfloor>" by blast
  have "\<lfloor>(- 5 / 2 :: real) + 1 / 2\<rfloor> = - 2" by simp
  then have d: "dollars q = - 2" using q(2) a by simp
  from summarize_mean [OF ne, of "meta_rep ''10001''" "''10001''" 2021 2025 "''zip''"] q(1) d
  have A: "\<exists>e ms. summarize_v1 refund_rows (meta_rep ''10001'') ''10001'' 2021 2025 ''zip'' = Some e \<and>
            metrics e = Some ms \<and> mean ms = Some (- 2)"
    by auto
  have l: "MIN_N \<le> length refund_rows"
    by (simp add: MIN_N_def refund_rows_def rows_in_year_def)
  have fs: "finite_amounts small_change =
      [dime, eight_ninety, dime, eight_ninety, dime, eight_ninety,
       dime, eight_ninety, dime, eight_ninety, dime, eight_ninety]"
    by (simp add: small_change_def rows_in_year_def finite_amounts_Cons)
  have ns: "finite_amounts small_change \<noteq> []" unfolding fs by simp
  have ds: "list_all is_double (finite_amounts small_change)"
    unfolding fs using sample_doubles(7,8) by simp
  have ls: "MIN_N \<le> length small_change"
    by (simp add: MIN_N_def small_change_def rows_in_year_def)
  have len: "real (length (finite_amounts small_change)) = 12" unfolding fs by simp
  have dq: "dollars (5066549580791807 / 1125899906842624) = 4" by (simp add: dollars_def)
  from summarize_mean [OF ns, of "meta_rep ''10001''" "''10001''" 2021 2025 "''zip''"]
  have B: "\<exists>e ms. summarize_v1 small_change (meta_rep ''10001'') ''10001'' 2021 2025 ''zip'' = Some e \<and>
            metrics e = Some ms \<and> mean ms = Some 4"
    unfolding small_change_sorted len small_change_quotient using dq by auto
  have av: "average (finite_amounts small_change) = (324259173170675725 / 72057594037927936)"
    unfolding fs by (simp add: average_def dime_def eight_ninety_def)
  have c: "9 / 2 < average (finite_amounts small_change)" unfolding av by simp
  have rs: "round_half_away_from_zero (average (finite_amounts small_change)) = 5"
    unfolding av by (simp add: round_half_away_from_zero_def)
  show ?thesis
    using l A a r ls ds B c rs by simp
qed

section \<open>The cascade on a store without failures\<close>

lemma healthy_query: "healthy db \<Longrightarrow> query_error db q = None"
  by (cases q) (simp_all add: healthy_def)

lemma healthy_connect: "healthy db \<Longrightarrow> connect_error db = None"
  by (simp add: healthy_def)

lemma client_query_healthy: "healthy db \<Longrightarrow> client_query db q rows = ([q], Inr rows)"
  by (simp add: client_query_def healthy_query)

lemma and_then_Inr [simp]: "and_then (tr, Inr x) f = (tr @ fst (f x), snd (f x))"
  by (simp add: and_then_def)

lemma and_then_Inl [simp]: "and_then (tr, Inl msg) f = (tr, Inl msg)"
  by (simp add: and_then_def)

lemma or_else_simps [simp]:
  "or_else (tr, Inl msg) rest = (tr, Inl msg)"
  "or_else (tr, Inr (Some r)) rest = (tr, Inr r)"
  "or_else (tr, Inr None) rest = (tr @ fst rest, snd rest)"
  by (simp_all add: or_else_def)

lemma summarize_v1_None: "summarize_v1 rows m z y0 y1 l = None \<longleftrightarrow> finite_amounts rows = []"
  by (simp add: summarize_v1_def Let_def)

lemma summarize_v1_sample_size:
  "summarize_v1 rows m z y0 y1 l = Some e \<Longrightarrow> sample_size (used_scope e) = length rows"
  by (auto simp: summarize_v1_def Let_def split: if_splits)

lemma handler_v1_healthy:
  assumes "well_formed rq" "healthy db"
  shows "snd (handler_v1 db rq) =
           Json (case first_accepted (\<lambda>rows. rows) (scope_candidates db rq (radius_meta_v1 db rq)) of
                   None \<Rightarrow> Some (no_data (rq_zip rq))
                 | Some c \<Rightarrow> summarize_v1 (snd (snd c)) (fst (snd c)) (rq_zip rq) (rq_y0 rq) (rq_y1 rq) (fst c))"
  using assms
  by (simp add: handler_v1_def try_v1_def well_formed_def caught_def exact_v1_def zip3_v1_def
      radius_v1_def state_v1_def national_v1_def done_with_def first_accepted_def
      scope_candidates_def radius_meta_v1_def client_query_healthy healthy_connect split: option.splits)

text \<open>
  C10.  In the cascade without row filters, on a well-formed request and a store without
  failures, the scope that answers is the first whose fetched rows, counted as fetched,
  reach \<open>MIN_N\<close>.  Its summary reports that raw count as sample size, although only the
  finite amounts are summarized, and when none of its amounts is finite the summary is null
  and the body of the response is null.
\<close>

theorem unfiltered_cascade_counts_raw_rows:
  assumes "well_formed rq" "healthy db"
  shows "snd (handler_v1 db rq) =
           Json (case first_accepted (\<lambda>rows. rows) (scope_candidates db rq (radius_meta_v1 db rq)) of
                   None \<Rightarrow> Some (no_data (rq_zip rq))
                 | Some c \<Rightarrow> summarize_v1 (snd (snd c)) (fst (snd c)) (rq_zip rq) (rq_y0 rq) (rq_y1 rq) (fst c)) \<and>
         (\<forall>rows m z y0 y1 l. summarize_v1 rows m z y0 y1 l = None \<longleftrightarrow> finite_amounts rows = []) \<and>
         (\<forall>rows m z y0 y1 l e. summarize_v1 rows m z y0 y1 l = Some e \<longrightarrow>
            sample_size (used_scope e) = length rows) \<and>
         (\<forall>c. first_accepted (\<lambda>rows. rows) (scope_candidates db rq (radius_meta_v1 db rq)) = Some c \<and>
              finite_amounts (snd (snd c)) = [] \<longrightarrow> snd (handler_v1 db rq) = Json None)"
proof (intro conjI allI impI)
  show h: "snd (handler_v1 db rq) =
           Json (case first_accepted (\<lambda>rows. rows) (scope_candidates db rq (radius_meta_v1 db rq)) of
                   None \<Rightarrow> Some (no_data (rq_zip rq))
                 | Some c \<Rightarrow> summarize_v1 (snd (snd c)) (fst (snd c)) (rq_zip rq) (rq_y0 rq) (rq_y1 rq) (fst c))"
    by (rule handler_v1_healthy [OF assms])
  fix c
  assume "first_accepted (\<lambda>rows. rows) (scope_candidates db rq (radius_meta_v1 db rq)) = Some c \<and>
              finite_amounts (snd (snd c)) = []"
  then show "snd (handler_v1 db rq) = Json None"
    unfolding h by (simp add: summarize_v1_None)
next
  fix rows m z y0 y1 l
  show "summarize_v1 rows m z y0 y1 l = None \<longleftrightarrow> finite_amounts rows = []"
    by (rule summarize_v1_None)
next
  fix rows m z y0 y1 l e
  assume "summarize_v1 rows m z y0 y1 l = Some e"
  then show "sample_size (used_scope e) = length rows"
    by (rule summarize_v1_sample_size)
qed

lemma well_formed_sample: "well_formed sample_request"
  by (simp add: well_formed_def sample_request_def valid_zip_def valid_cpt_def is_digit_def)

lemma healthy_store_of: "healthy (store_of cs gs)"
  by (simp add: healthy_def store_of_def)

lemma sql_exact_claims_at:
  "y0 \<le> y \<Longrightarrow> y \<le> y1 \<Longrightarrow>
   sql_exact (claims_at z cpt y amounts) z cpt y0 y1 = rows_in_year y amounts"
  by (induction amounts) (simp_all add: sql_exact_def claims_at_def rows_in_year_def select_row_def in_window_def)

theorem unfiltered_cascade_counts_raw_rows_witness:
  "well_formed sample_request \<and> healthy (store_of (claims_at ''10001'' ''99213'' 2022 one_finite) []) \<and>
   healthy (store_of (claims_at ''10001'' ''99213'' 2022 none_finite) []) \<and>
   (\<exists>e. snd (handler_v1 (store_of (claims_at ''10001'' ''99213'' 2022 one_finite) []) sample_request)
           = Json (Some e) \<and> level (used_scope e) = Some ''zip'' \<and> sample_size (used_scope e) = 12) \<and>
   length (finite_amounts (rows_in_year 2022 one_finite)) = 1 \<and>
   snd (handler_v1 (store_of (claims_at ''10001'' ''99213'' 2022 none_finite) []) sample_request) = Json None"
proof -
  let ?db1 = "store_of (claims_at ''10001'' ''99213'' 2022 one_finite) []"
  let ?db0 = "store_of (claims_at ''10001'' ''99213'' 2022 none_finite) []"
  have ex1: "sql_exact (claims ?db1) ''10001'' ''99213'' 2021 2025 = rows_in_year 2022 one_finite"
    by (simp add: store_of_def sql_exact_claims_at)
  have ex0: "sql_exact (claims ?db0) ''10001'' ''99213'' 2021 2025 = rows_in_year 2022 none_finite"
    by (simp add: store_of_def sql_exact_claims_at)
  have f1: "finite_amounts (rows_in_year 2022 one_finite) = [80]"
    by (simp add: rows_in_year_def one_finite_def finite_amounts_Cons)
  have f0: "finite_amounts (rows_in_year 2022 none_finite) = []"
    by (simp add: rows_in_year_def none_finite_def finite_amounts_Cons)
  have l1: "length (rows_in_year 2022 one_finite) = 12"
    by (simp add: rows_in_year_def one_finite_def)
  have l0: "length (rows_in_year 2022 none_finite) = 12"
    by (simp add: rows_in_year_def none_finite_def)
  have a1: "first_accepted (\<lambda>rows. rows) (scope_candidates ?db1 sample_request (radius_meta_v1 ?db1 sample_request))
              = Some (''zip'', meta_rep ''10001'', rows_in_year 2022 one_finite)"
    using ex1 l1 by (simp add: first_accepted_def scope_candidates_def sample_request_def MIN_N_def)
  have a0: "first_accepted (\<lambda>rows. rows) (scope_candidates ?db0 sample_request (radius_meta_v1 ?db0 sample_request))
              = Some (''zip'', meta_rep ''10001'', rows_in_year 2022 none_finite)"
    using ex0 l0 by (simp add: first_accepted_def scope_candidates_def sample_request_def MIN_N_def)
  note t1 = unfiltered_cascade_counts_raw_rows [OF well_formed_sample healthy_store_of, of "claims_at ''10001'' ''99213'' 2022 one_finite" "[]"]
  note t0 = unfiltered_cascade_counts_raw_rows [OF well_formed_sample healthy_store_of, of "claims_at ''10001'' ''99213'' 2022 none_finite" "[]"]
  have r0: "snd (handler_v1 ?db0 sample_request) = Json None"
    using t0 a0 f0 by simp
  have "summarize_v1 (rows_in_year 2022 one_finite) (meta_rep ''10001'') ''10001'' 2021 2025 ''zip'' \<noteq> None"
    using f1 by (simp add: summarize_v1_None)
  then obtain e where e: "summarize_v1 (rows_in_year 2022 one_finite) (meta_rep ''10001'') ''10001'' 2021 2025 ''zip'' = Some e"
    by blast
  have "snd (handler_v1 ?db1 sample_request) = Json (Some e)"
    using t1 a1 e by (simp add: sample_request_def)
  moreover have "level (used_scope e) = Some ''zip''" "sample_size (used_scope e) = 12"
    using e l1 by (auto simp: summarize_v1_def Let_def split: if_splits)
  ultimately show ?thesis
    using r0 f1 well_formed_sample healthy_store_of by simp
qed

section \<open>The row count of the cascade with row filters\<close>

lemma keep_row_finite: "keep_row ex mp r \<Longrightarrow> fin_of (paid_amt r) \<noteq> None"
  by (auto simp: keep_row_def split: option.splits)

lemma finite_amounts_length_filterRows:
  "length (finite_amounts (filterRows rows ex mp)) = length (filterRows rows ex mp)"
proof (induction rows)
  case Nil
  show ?case by (simp add: filterRows_def)
next
  case (Cons r rows)
  then show ?case
    using keep_row_finite [of ex mp r]
    by (auto simp: filterRows_def finite_amounts_Cons split: option.splits)
qed

lemma summarize_v2_None: "summarize_v2 rows m z y0 y1 l = None \<longleftrightarrow> finite_amounts rows = []"
  by (simp add: summarize_v2_def Let_def)

lemma summarize_v2_filtered_None:
  "summarize_v2 (filterRows rows ex mp) m z y0 y1 l = None \<longleftrightarrow> filterRows rows ex mp = []"
  using finite_amounts_length_filterRows [of rows ex mp]
  by (simp add: summarize_v2_None) (metis length_0_conv)

lemma summarize_v2_level:
  "summarize_v2 rows m z y0 y1 l = Some e \<Longrightarrow>
     level (used_scope e) = Some l \<and> sample_size (used_scope e) = length rows \<and>
     scope_meta (used_scope e) = m \<and> query_zip e = z \<and> metrics e \<noteq> None"
  by (auto simp: summarize_v2_def Let_def split: if_splits)

lemma return_if_simps [simp]:
  "return_if (tr, Inl msg) = (tr, Inl msg)"
  "return_if (tr, Inr x) = (tr, Inr (map_option (\<lambda>e. Json (Some e)) x))"
  by (simp_all add: return_if_def done_with_def)

lemma runQuery_healthy:
  "healthy db \<Longrightarrow> runQuery db rq stmt rows lvl m =
     ([stmt], Inr (if MIN_N \<le> length (filterRows rows (rq_exclude_zero rq) (rq_min_paid rq))
           then summarize_v2 (filterRows rows (rq_exclude_zero rq) (rq_min_paid rq)) m
                  (rq_zip rq) (rq_y0 rq) (rq_y1 rq) lvl
           else None))"
  by (simp add: runQuery_def client_query_healthy done_with_def)

lemma accepted_step:
  assumes "MIN_N \<le> length (filterRows rows ex mp)"
  shows "\<exists>e. summarize_v2 (filterRows rows ex mp) m z y0 y1 l = Some e"
proof -
  have "filterRows rows ex mp \<noteq> []" using assms by (auto simp: MIN_N_def)
  then have "summarize_v2 (filterRows rows ex mp) m z y0 y1 l \<noteq> None"
    by (simp add: summarize_v2_filtered_None)
  then show ?thesis by blast
qed

lemma scope_v2_healthy:
  assumes "healthy db"
  shows "return_if (runQuery db rq stmt rows lvl m) =
     ([stmt], Inr (if MIN_N \<le> length (filterRows rows (rq_exclude_zero rq) (rq_min_paid rq))
           then Some (Json (summarize_v2 (filterRows rows (rq_exclude_zero rq) (rq_min_paid rq)) m
                  (rq_zip rq) (rq_y0 rq) (rq_y1 rq) lvl))
           else None))"
proof (cases "MIN_N \<le> length (filterRows rows (rq_exclude_zero rq) (rq_min_paid rq))")
  case True
  from accepted_step [OF True] obtain e where
    "summarize_v2 (filterRows rows (rq_exclude_zero rq) (rq_min_paid rq)) m (rq_zip rq) (rq_y0 rq) (rq_y1 rq) lvl = Some e"
    by blast
  then show ?thesis using True by (simp add: runQuery_healthy [OF assms])
next
  case False
  then show ?thesis by (simp add: runQuery_healthy [OF assms])
qed

lemma handler_v2_healthy:
  assumes "well_formed rq" "healthy db"
  shows "snd (handler_v2 db rq) =
           Json (case first_accepted (\<lambda>rows. filterRows rows (rq_exclude_zero rq) (rq_min_paid rq))
                   (scope_candidates db rq (radius_meta_v2 rq)) of
              None \<Rightarrow> Some (no_data (rq_zip rq))
            | Some c \<Rightarrow> summarize_v2 (filterRows (snd (snd c)) (rq_exclude_zero rq) (rq_min_paid rq))
                          (fst (snd c)) (rq_zip rq) (rq_y0 rq) (rq_y1 rq) (fst c))"
  using assms
  by (simp add: handler_v2_def try_v2_def well_formed_def caught_def 
      radius_v2_def state_v2_def done_with_def first_accepted_def scope_v2_healthy
      scope_candidates_def radius_meta_v2_def client_query_healthy healthy_connect 
      split: option.splits)

lemma trace_v2_healthy:
  assumes "well_formed rq" "healthy db"
  shows "subseq (fst (handler_v2 db rq)) [QExact, QZip3, QGeo, QRadius, QState, QNational]"
  using assms
  by (simp add: handler_v2_def try_v2_def well_formed_def caught_def 
      radius_v2_def state_v2_def done_with_def scope_v2_healthy
      client_query_healthy healthy_connect 
      split: option.splits)

lemma trace_v1_healthy:
  assumes "well_formed rq" "healthy db"
  shows "subseq (fst (handler_v1 db rq)) [QExact, QZip3, QGeo, QRadius, QRep, QState, QNational]"
  using assms
  by (simp add: handler_v1_def try_v1_def well_formed_def caught_def exact_v1_def zip3_v1_def
      radius_v1_def state_v1_def national_v1_def done_with_def
      client_query_healthy healthy_connect
      split: option.splits)

lemma candidates_order:
  "subseq (map fst (scope_candidates db rq rm)) [''zip'', ''zip3'', ''radius'', ''state'', ''national'']"
  by (simp add: scope_candidates_def split: option.splits)


lemma first_accepted_Some:
  assumes "first_accepted prepare cands = Some c"
  shows "\<exists>i<length cands. c = cands ! i \<and> MIN_N \<le> length (prepare (snd (snd c))) \<and>
            (\<forall>j<i. length (prepare (snd (snd (cands ! j)))) < MIN_N)"
  using assms unfolding first_accepted_def find_Some_iff
  by (metis not_le_imp_less)

lemma sql_zip3_claims_at:
  "y0 \<le> y \<Longrightarrow> y \<le> y1 \<Longrightarrow> take 3 z = z3 \<Longrightarrow>
   sql_zip3 (claims_at z cpt y amounts) z3 cpt y0 y1 = rows_in_year y amounts"
  by (induction amounts) (simp_all add: sql_zip3_def claims_at_def rows_in_year_def select_row_def in_window_def)

lemma sql_exact_other_zip:
  "z \<noteq> z' \<Longrightarrow> sql_exact (claims_at z' cpt y amounts) z cpt y0 y1 = []"
  by (induction amounts) (simp_all add: sql_exact_def claims_at_def)

lemma sql_exact_append: "sql_exact (cs @ ds) z cpt y0 y1 = sql_exact cs z cpt y0 y1 @ sql_exact ds z cpt y0 y1"
  by (simp add: sql_exact_def)

lemma sql_zip3_append: "sql_zip3 (cs @ ds) z cpt y0 y1 = sql_zip3 cs z cpt y0 y1 @ sql_zip3 ds z cpt y0 y1"
  by (simp add: sql_zip3_def)

lemma filterRows_all_positive:
  "filterRows (rows_in_year 2022 five_paid) False (Fin 0) = rows_in_year 2022 five_paid"
  "filterRows (rows_in_year 2023 twelve_paid) False (Fin 0) = rows_in_year 2023 twelve_paid"
  by (simp_all add: filterRows_def rows_in_year_def five_paid_def twelve_paid_def keep_row_def)

lemma filterRows_append: "filterRows (xs @ ys) ex mp = filterRows xs ex mp @ filterRows ys ex mp"
  by (simp add: filterRows_def)

section \<open>A query ZIP without geometry\<close>

lemma client_query_ok: "query_error db q = None \<Longrightarrow> client_query db q rows = ([q], Inr rows)"
  by (simp add: client_query_def)

lemma scope_v2_ok:
  assumes "query_error db stmt = None"
  shows "return_if (runQuery db rq stmt rows lvl m) =
     ([stmt], Inr (if MIN_N \<le> length (filterRows rows (rq_exclude_zero rq) (rq_min_paid rq))
           then Some (Json (summarize_v2 (filterRows rows (rq_exclude_zero rq) (rq_min_paid rq)) m
                  (rq_zip rq) (rq_y0 rq) (rq_y1 rq) lvl))
           else None))"
proof (cases "MIN_N \<le> length (filterRows rows (rq_exclude_zero rq) (rq_min_paid rq))")
  case True
  from accepted_step [OF True] obtain e where
    "summarize_v2 (filterRows rows (rq_exclude_zero rq) (rq_min_paid rq)) m (rq_zip rq) (rq_y0 rq) (rq_y1 rq) lvl = Some e"
    by blast
  then show ?thesis using True by (simp add: runQuery_def client_query_ok [OF assms] done_with_def)
next
  case False
  then show ?thesis by (simp add: runQuery_def client_query_ok [OF assms] done_with_def)
qed

text \<open>
  C4.  When the query ZIP has no row in \<open>zip_geometry\<close> and the exact and prefix scopes stay
  under \<open>MIN_N\<close>, both cascade handlers send exactly the exact, prefix, geo and national
  statements: the radius and state statements are never sent, whatever they would have
  answered.  The response is the national summary when the national rows reach \<open>MIN_N\<close>, and
  otherwise the no-data envelope, with level null, sample size 0 and metrics null.
\<close>

theorem geo_absent_skips_radius_and_state:
  assumes "well_formed rq" and "connect_error db = None"
    and "query_error db QExact = None" and "query_error db QZip3 = None"
    and "query_error db QGeo = None" and "query_error db QNational = None"
    and "sql_geo (zip_geometry db) (rq_zip rq) = []"
  shows "(length (sql_exact (claims db) (rq_zip rq) (rq_cpt rq) (rq_y0 rq) (rq_y1 rq)) < MIN_N \<and>
          length (sql_zip3 (claims db) (take 3 (rq_zip rq)) (rq_cpt rq) (rq_y0 rq) (rq_y1 rq)) < MIN_N \<longrightarrow>
          handler_v1 db rq =
            ([QExact, QZip3, QGeo, QNational],
             Json (if MIN_N \<le> length (sql_national (claims db) (rq_cpt rq) (rq_y0 rq) (rq_y1 rq))
                   then summarize_v1 (sql_national (claims db) (rq_cpt rq) (rq_y0 rq) (rq_y1 rq))
                          meta_empty (rq_zip rq) (rq_y0 rq) (rq_y1 rq) ''national''
                   else Some (no_data (rq_zip rq))))) \<and>
         (length (filterRows (sql_exact (claims db) (rq_zip rq) (rq_cpt rq) (rq_y0 rq) (rq_y1 rq))
                    (rq_exclude_zero rq) (rq_min_paid rq)) < MIN_N \<and>
          length (filterRows (sql_zip3 (claims db) (take 3 (rq_zip rq)) (rq_cpt rq) (rq_y0 rq) (rq_y1 rq))
                    (rq_exclude_zero rq) (rq_min_paid rq)) < MIN_N \<longrightarrow>
          handler_v2 db rq =
            ([QExact, QZip3, QGeo, QNational],
             Json (if MIN_N \<le> length (filterRows (sql_national (claims db) (rq_cpt rq) (rq_y0 rq) (rq_y1 rq))
                                        (rq_exclude_zero rq) (rq_min_paid rq))
                   then summarize_v2 (filterRows (sql_national (claims db) (rq_cpt rq) (rq_y0 rq) (rq_y1 rq))
                                        (rq_exclude_zero rq) (rq_min_paid rq))
                          meta_empty (rq_zip rq) (rq_y0 rq) (rq_y1 rq) ''national''
                   else Some (no_data (rq_zip rq))))) \<and>
         level (used_scope (no_data (rq_zip rq))) = None \<and>
         sample_size (used_scope (no_data (rq_zip rq))) = 0 \<and>
         metrics (no_data (rq_zip rq)) = None"
proof (intro conjI impI)
  assume "length (sql_exact (claims db) (rq_zip rq) (rq_cpt rq) (rq_y0 rq) (rq_y1 rq)) < MIN_N \<and>
          length (sql_zip3 (claims db) (take 3 (rq_zip rq)) (rq_cpt rq) (rq_y0 rq) (rq_y1 rq)) < MIN_N"
  then show "handler_v1 db rq =
            ([QExact, QZip3, QGeo, QNational],
             Json (if MIN_N \<le> length (sql_national (claims db) (rq_cpt rq) (rq_y0 rq) (rq_y1 rq))
                   then summarize_v1 (sql_national (claims db) (rq_cpt rq) (rq_y0 rq) (rq_y1 rq))
                          meta_empty (rq_zip rq) (rq_y0 rq) (rq_y1 rq) ''national''
                   else Some (no_data (rq_zip rq))))"
    using assms
    by (simp add: handler_v1_def try_v1_def well_formed_def caught_def exact_v1_def zip3_v1_def
        radius_v1_def state_v1_def national_v1_def done_with_def client_query_ok
        first_row_def geo_state_def)
next
  assume "length (filterRows (sql_exact (claims db) (rq_zip rq) (rq_cpt rq) (rq_y0 rq) (rq_y1 rq))
                    (rq_exclude_zero rq) (rq_min_paid rq)) < MIN_N \<and>
          length (filterRows (sql_zip3 (claims db) (take 3 (rq_zip rq)) (rq_cpt rq) (rq_y0 rq) (rq_y1 rq))
                    (rq_exclude_zero rq) (rq_min_paid rq)) < MIN_N"
  then show "handler_v2 db rq =
            ([QExact, QZip3, QGeo, QNational],
             Json (if MIN_N \<le> length (filterRows (sql_national (claims db) (rq_cpt rq) (rq_y0 rq) (rq_y1 rq))
                                        (rq_exclude_zero rq) (rq_min_paid rq))
                   then summarize_v2 (filterRows (sql_national (claims db) (rq_cpt rq) (rq_y0 rq) (rq_y1 rq))
                                        (rq_exclude_zero rq) (rq_min_paid rq))
                          meta_empty (rq_zip rq) (rq_y0 rq) (rq_y1 rq) ''national''
                   else Some (no_data (rq_zip rq))))"
    using assms
    by (simp add: handler_v2_def try_v2_def well_formed_def caught_def
        radius_v2_def state_v2_def done_with_def client_query_ok scope_v2_ok
        first_row_def geo_state_def)
qed (simp_all add: no_data_def)

lemma sql_national_claims_at:
  "y0 \<le> y \<Longrightarrow> y \<le> y1 \<Longrightarrow>
   sql_national (claims_at z cpt y amounts) cpt y0 y1 = rows_in_year y amounts"
  by (induction amounts) (simp_all add: sql_national_def claims_at_def rows_in_year_def select_row_def in_window_def)

theorem geo_absent_skips_radius_and_state_witness:
  "well_formed sample_request \<and> connect_error no_geo_store = None \<and>
   query_error no_geo_store QExact = None \<and> query_error no_geo_store QZip3 = None \<and>
   query_error no_geo_store QGeo = None \<and> query_error no_geo_store QNational = None \<and>
   query_error no_geo_store QRadius = Some ''down'' \<and> query_error no_geo_store QState = Some ''down'' \<and>
   sql_geo (zip_geometry no_geo_store) ''10001'' = [] \<and>
   length (sql_exact (claims no_geo_store) ''10001'' ''99213'' 2021 2025) = 5 \<and>
   length (sql_zip3 (claims no_geo_store) ''100'' ''99213'' 2021 2025) = 5 \<and>
   length (sql_national (claims no_geo_store) ''99213'' 2021 2025) = 5 \<and>
   handler_v1 no_geo_store sample_request =
     ([QExact, QZip3, QGeo, QNational], Json (Some (no_data ''10001''))) \<and>
   handler_v2 no_geo_store sample_request =
     ([QExact, QZip3, QGeo, QNational], Json (Some (no_data ''10001'')))"
proof -
  have q: "connect_error no_geo_store = None" "query_error no_geo_store QExact = None"
    "query_error no_geo_store QZip3 = None" "query_error no_geo_store QGeo = None"
    "query_error no_geo_store QNational = None"
    "query_error no_geo_store QRadius = Some ''down''" "query_error no_geo_store QState = Some ''down''"
    by (simp_all add: no_geo_store_def)
  have g: "sql_geo (zip_geometry no_geo_store) (rq_zip sample_request) = []"
    by (simp add: no_geo_store_def sql_geo_def)
  have l5: "length (rows_in_year 2022 five_paid) = 5"
    by (simp add: rows_in_year_def five_paid_def)
  have ex: "sql_exact (claims no_geo_store) ''10001'' ''99213'' 2021 2025 = rows_in_year 2022 five_paid"
    by (simp add: no_geo_store_def sql_exact_claims_at)
  have z3: "sql_zip3 (claims no_geo_store) ''100'' ''99213'' 2021 2025 = rows_in_year 2022 five_paid"
    by (simp add: no_geo_store_def sql_zip3_claims_at)
  have na: "sql_national (claims no_geo_store) ''99213'' 2021 2025 = rows_in_year 2022 five_paid"
    by (simp add: no_geo_store_def sql_national_claims_at)
  note t = geo_absent_skips_radius_and_state [OF well_formed_sample q(1-5) g]
  have "handler_v1 no_geo_store sample_request =
     ([QExact, QZip3, QGeo, QNational], Json (Some (no_data ''10001'')))"
    using t ex z3 na l5 by (simp add: sample_request_def MIN_N_def)
  moreover have "handler_v2 no_geo_store sample_request =
     ([QExact, QZip3, QGeo, QNational], Json (Some (no_data ''10001'')))"
    using t ex z3 na l5 by (simp add: sample_request_def MIN_N_def filterRows_all_positive)
  ultimately show ?thesis
    using well_formed_sample q g ex z3 na l5 by (simp add: sample_request_def)
qed

section \<open>The representative of the radius scope\<close>

lemma dist_far: "dist_mi 0 0 far_geo = 3959 * pi"
  by (simp add: dist_mi_def far_geo_def radians_def)

lemma dist_near: "dist_mi 0 0 near_geo = 0"
  by (simp add: dist_mi_def near_geo_def radians_def)

lemma dist_far_pos: "\<not> dist_mi 0 0 far_geo \<le> 0"
proof -
  have "\<not> pi \<le> 0" using pi_gt_zero by linarith
  then show ?thesis by (simp add: dist_far)
qed

lemma sort_key_hd_min:
  assumes "gs \<noteq> []"
  shows "hd (sort_key f gs) \<in> set gs \<and> (\<forall>g\<in>set gs. f (hd (sort_key f gs)) \<le> (f g :: real))"
proof -
  obtain h t where ht: "sort_key f gs = h # t"
    using assms by (cases "sort_key f gs") (auto simp: sort_key_def [symmetric] dest: arg_cong [where f = length])
  have s: "sorted (map f (h # t))" using sorted_sort_key [of f gs] ht by simp
  have st: "set (h # t) = set gs" using set_sort [of f gs] ht by simp
  have "\<forall>g\<in>set (h # t). f h \<le> f g" using s by auto
  then show ?thesis using ht st by auto
qed


lemma or_else_Inr:
  assumes "snd (or_else step rest) = Inr r"
  shows "snd step = Inr (Some r) \<or> (snd step = Inr None \<and> snd rest = Inr r)"
  using assms by (auto simp: or_else_def split: sum.splits option.splits)

lemma and_then_Inr_elim:
  assumes "snd (and_then a f) = Inr r"
  shows "\<exists>x. snd a = Inr x \<and> snd (f x) = Inr r"
  using assms by (auto simp: and_then_def split: sum.splits)

lemma client_query_Inr: "snd (client_query db q rows) = Inr x \<Longrightarrow> x = rows"
  by (auto simp: client_query_def split: option.splits)

lemma summarize_v1_fields:
  "summarize_v1 rows m z y0 y1 l = Some e \<Longrightarrow>
     level (used_scope e) = Some l \<and> sample_size (used_scope e) = length rows \<and>
     scope_meta (used_scope e) = m \<and> query_zip e = z \<and> metrics e \<noteq> None"
  by (auto simp: summarize_v1_def Let_def split: if_splits)

lemma exact_v1_level:
  assumes "snd (exact_v1 db rq) = Inr (Some (Json (Some e)))"
  shows "level (used_scope e) = Some ''zip''"
proof -
  from and_then_Inr_elim [OF assms [unfolded exact_v1_def]]
  obtain q where "snd (done_with (if MIN_N \<le> length q
           then Some (Json (summarize_v1 q (meta_rep (rq_zip rq)) (rq_zip rq) (rq_y0 rq) (rq_y1 rq) ''zip''))
           else None)) = Inr (Some (Json (Some e)))" by blast
  then have "summarize_v1 q (meta_rep (rq_zip rq)) (rq_zip rq) (rq_y0 rq) (rq_y1 rq) ''zip'' = Some e"
    by (simp add: done_with_def split: if_splits)
  then show ?thesis by (simp add: summarize_v1_fields)
qed

lemma zip3_v1_level:
  assumes "snd (zip3_v1 db rq) = Inr (Some (Json (Some e)))"
  shows "level (used_scope e) = Some ''zip3''"
proof -
  from and_then_Inr_elim [OF assms [unfolded zip3_v1_def]]
  obtain q where "snd (done_with (if MIN_N \<le> length q
           then Some (Json (summarize_v1 q meta_empty (rq_zip rq) (rq_y0 rq) (rq_y1 rq) ''zip3''))
           else None)) = Inr (Some (Json (Some e)))" by blast
  then have "summarize_v1 q meta_empty (rq_zip rq) (rq_y0 rq) (rq_y1 rq) ''zip3'' = Some e"
    by (simp add: done_with_def split: if_splits)
  then show ?thesis by (simp add: summarize_v1_fields)
qed

lemma national_v1_level:
  assumes "snd (national_v1 db rq) = Inr (Some (Json (Some e)))"
  shows "level (used_scope e) = Some ''national''"
proof -
  from and_then_Inr_elim [OF assms [unfolded national_v1_def]]
  obtain q where "snd (done_with (if MIN_N \<le> length q
           then Some (Json (summarize_v1 q meta_empty (rq_zip rq) (rq_y0 rq) (rq_y1 rq) ''national''))
           else None)) = Inr (Some (Json (Some e)))" by blast
  then have "summarize_v1 q meta_empty (rq_zip rq) (rq_y0 rq) (rq_y1 rq) ''national'' = Some e"
    by (simp add: done_with_def split: if_splits)
  then show ?thesis by (simp add: summarize_v1_fields)
qed

lemma state_v1_level:
  assumes "snd (state_v1 db rq qgeo) = Inr (Some (Json (Some e)))"
  shows "level (used_scope e) = Some ''state''"
proof (cases "geo_state qgeo")
  case None
  then show ?thesis using assms by (simp add: state_v1_def done_with_def)
next
  case (Some st)
  with assms have "snd (and_then (client_query db QState
                      (sql_state (claims db) st (rq_cpt rq) (rq_y0 rq) (rq_y1 rq)))
            (\<lambda>q. done_with
               (if MIN_N \<le> length q
                then Some (Json (summarize_v1 q (meta_state st) (rq_zip rq) (rq_y0 rq) (rq_y1 rq) ''state''))
                else None))) = Inr (Some (Json (Some e)))"
    by (simp add: state_v1_def)
  from and_then_Inr_elim [OF this]
  obtain q where "snd (done_with (if MIN_N \<le> length q
           then Some (Json (summarize_v1 q (meta_state st) (rq_zip rq) (rq_y0 rq) (rq_y1 rq) ''state''))
           else None)) = Inr (Some (Json (Some e)))" by blast
  then have "summarize_v1 q (meta_state st) (rq_zip rq) (rq_y0 rq) (rq_y1 rq) ''state'' = Some e"
    by (simp add: done_with_def split: if_splits)
  then show ?thesis by (simp add: summarize_v1_fields)
qed

lemma radius_v1_meta:
  assumes "snd (radius_v1 db rq qgeo) = Inr (Some (Json (Some e)))"
  shows "\<exists>g. qgeo = Some g \<and>
           scope_meta (used_scope e) = rep_meta (sql_rep (zip_geometry db) (g_lat g) (g_lon g)) (rq_zip rq)"
proof (cases qgeo)
  case None
  then show ?thesis using assms by (simp add: radius_v1_def done_with_def)
next
  case (Some g)
  let ?inner = "\<lambda>q. if MIN_N \<le> length q
                  then and_then (client_query db QRep (sql_rep (zip_geometry db) (g_lat g) (g_lon g)))
                         (\<lambda>rep. done_with
                            (Some (Json (summarize_v1 q (rep_meta rep (rq_zip rq)) (rq_zip rq)
                                           (rq_y0 rq) (rq_y1 rq) ''radius''))))
                  else done_with None"
  from assms Some have "snd (and_then (client_query db QRadius
                      (sql_radius (zip_geometry db) (claims db) (g_lat g) (g_lon g) MAX_RADIUS_ZIPS
                         (rq_cpt rq) (rq_y0 rq) (rq_y1 rq))) ?inner) = Inr (Some (Json (Some e)))"
    by (simp add: radius_v1_def)
  from and_then_Inr_elim [OF this]
  obtain q where q: "snd (?inner q) = Inr (Some (Json (Some e)))" by blast
  then have ge: "MIN_N \<le> length q" by (auto simp: done_with_def split: if_splits)
  with q have "snd (and_then (client_query db QRep (sql_rep (zip_geometry db) (g_lat g) (g_lon g)))
                         (\<lambda>rep. done_with
                            (Some (Json (summarize_v1 q (rep_meta rep (rq_zip rq)) (rq_zip rq)
                                           (rq_y0 rq) (rq_y1 rq) ''radius''))))) = Inr (Some (Json (Some e)))"
    by simp
  from and_then_Inr_elim [OF this]
  obtain rep where r1: "snd (client_query db QRep (sql_rep (zip_geometry db) (g_lat g) (g_lon g))) = Inr rep"
    and r2: "snd (done_with (Some (Json (summarize_v1 q (rep_meta rep (rq_zip rq)) (rq_zip rq)
                                           (rq_y0 rq) (rq_y1 rq) ''radius'')))) = Inr (Some (Json (Some e)))"
    by blast
  from client_query_Inr [OF r1] have rep: "rep = sql_rep (zip_geometry db) (g_lat g) (g_lon g)" .
  from r2 have "summarize_v1 q (rep_meta rep (rq_zip rq)) (rq_zip rq) (rq_y0 rq) (rq_y1 rq) ''radius'' = Some e"
    by (simp add: done_with_def)
  then show ?thesis using Some rep by (simp add: summarize_v1_fields)
qed

lemma try_v1_radius:
  assumes "snd (try_v1 db rq) = Inr (Json (Some e))" and "level (used_scope e) = Some ''radius''"
  shows "\<exists>g. first_row (sql_geo (zip_geometry db) (rq_zip rq)) = Some g \<and>
           scope_meta (used_scope e) = rep_meta (sql_rep (zip_geometry db) (g_lat g) (g_lon g)) (rq_zip rq)"
proof -
  let ?tail = "\<lambda>zg. or_else (radius_v1 db rq (first_row zg))
                              (or_else (state_v1 db rq (first_row zg))
                                 (or_else (national_v1 db rq)
                                    (done_with (Json (Some (no_data (rq_zip rq)))))))"
  let ?geo = "and_then (client_query db QGeo (sql_geo (zip_geometry db) (rq_zip rq))) ?tail"
  have a: "snd (or_else (exact_v1 db rq) (or_else (zip3_v1 db rq) ?geo)) = Inr (Json (Some e))"
    using assms(1) by (auto simp: try_v1_def done_with_def split: if_splits option.splits)
  from or_else_Inr [OF a] exact_v1_level [of db rq e] assms(2)
  have b: "snd (or_else (zip3_v1 db rq) ?geo) = Inr (Json (Some e))" by auto
  from or_else_Inr [OF b] zip3_v1_level [of db rq e] assms(2)
  have c: "snd ?geo = Inr (Json (Some e))" by auto
  from and_then_Inr_elim [OF c] obtain zg where
    zg1: "snd (client_query db QGeo (sql_geo (zip_geometry db) (rq_zip rq))) = Inr zg"
    and zg2: "snd (?tail zg) = Inr (Json (Some e))" by blast
  from client_query_Inr [OF zg1] have zg: "zg = sql_geo (zip_geometry db) (rq_zip rq)" .
  have "snd (radius_v1 db rq (first_row zg)) = Inr (Some (Json (Some e)))"
  proof (rule ccontr)
    assume n: "snd (radius_v1 db rq (first_row zg)) \<noteq> Inr (Some (Json (Some e)))"
    with or_else_Inr [OF zg2]
    have d: "snd (or_else (state_v1 db rq (first_row zg))
                                 (or_else (national_v1 db rq)
                                    (done_with (Json (Some (no_data (rq_zip rq))))))) = Inr (Json (Some e))"
      by auto
    from or_else_Inr [OF d] state_v1_level [of db rq "first_row zg" e] assms(2)
    have f: "snd (or_else (national_v1 db rq) (done_with (Json (Some (no_data (rq_zip rq)))))) = Inr (Json (Some e))"
      by auto
    from or_else_Inr [OF f] national_v1_level [of db rq e] assms(2)
    have "snd (done_with (Json (Some (no_data (rq_zip rq))))) = Inr (Json (Some e))" by auto
    then have "e = no_data (rq_zip rq)" by (simp add: done_with_def)
    with assms(2) show False by (simp add: no_data_def)
  qed
  from radius_v1_meta [OF this] zg show ?thesis by simp
qed

lemma handler_v1_Json:
  assumes "snd (handler_v1 db rq) = Json b"
  shows "snd (try_v1 db rq) = Inr (Json b)"
  using assms by (auto simp: handler_v1_def caught_def split: if_splits sum.splits)

lemma sql_geo_member: "first_row (sql_geo gs z) = Some g \<Longrightarrow> g \<in> set gs"
proof -
  assume "first_row (sql_geo gs z) = Some g"
  then have "g \<in> set (sql_geo gs z)" by (auto simp: first_row_def split: list.splits)
  then have "g \<in> set (filter (\<lambda>g. g_zip5 g = z) gs)"
    unfolding sql_geo_def by (rule in_set_takeD)
  then show ?thesis by simp
qed

lemma sql_rep_nearest:
  assumes "gs \<noteq> []"
  shows "sql_rep gs qlat qlon =
           [(g_zip5 (hd (sort_key (dist_mi qlat qlon) gs)),
             dist_mi qlat qlon (hd (sort_key (dist_mi qlat qlon) gs)))]"
proof -
  have "sort_key (dist_mi qlat qlon) gs \<noteq> []"
    using assms by (metis length_0_conv length_sort)
  then show ?thesis unfolding sql_rep_def
    by (cases "sort_key (dist_mi qlat qlon) gs") simp_all
qed


lemma scope_v2_fields:
  assumes "snd (return_if (runQuery db rq stmt rows lvl m)) = Inr (Some (Json (Some e)))"
  shows "level (used_scope e) = Some lvl \<and> scope_meta (used_scope e) = m"
proof -
  from and_then_Inr_elim [OF assms [unfolded return_if_def]]
  obtain x where x1: "snd (runQuery db rq stmt rows lvl m) = Inr x"
    and x2: "snd (done_with (map_option (\<lambda>e. Json (Some e)) x)) = Inr (Some (Json (Some e)))"
    by blast
  from x2 have x: "x = Some e" by (cases x) (simp_all add: done_with_def)
  from and_then_Inr_elim [OF x1 [unfolded runQuery_def]] x
  obtain q where "snd (done_with
          (if MIN_N \<le> length (filterRows q (rq_exclude_zero rq) (rq_min_paid rq))
           then summarize_v2 (filterRows q (rq_exclude_zero rq) (rq_min_paid rq)) m
                  (rq_zip rq) (rq_y0 rq) (rq_y1 rq) lvl
           else None)) = Inr (Some e)" by blast
  then have "summarize_v2 (filterRows q (rq_exclude_zero rq) (rq_min_paid rq)) m
                  (rq_zip rq) (rq_y0 rq) (rq_y1 rq) lvl = Some e"
    by (simp add: done_with_def split: if_splits)
  then show ?thesis by (simp add: summarize_v2_level)
qed

lemma radius_v2_meta:
  assumes "snd (radius_v2 db rq qgeo) = Inr (Some (Json (Some e)))"
  shows "scope_meta (used_scope e) = meta_rep (rq_zip rq)"
proof (cases qgeo)
  case None
  then show ?thesis using assms by (simp add: radius_v2_def done_with_def)
next
  case (Some g)
  then show ?thesis using assms scope_v2_fields by (simp add: radius_v2_def)
qed

lemma state_v2_level:
  assumes "snd (state_v2 db rq qgeo) = Inr (Some (Json (Some e)))"
  shows "level (used_scope e) = Some ''state''"
proof (cases "geo_state qgeo")
  case None
  then show ?thesis using assms by (simp add: state_v2_def done_with_def)
next
  case (Some st)
  then show ?thesis using assms scope_v2_fields by (simp add: state_v2_def)
qed

lemma try_v2_radius:
  assumes "snd (try_v2 db rq) = Inr (Json (Some e))" and "level (used_scope e) = Some ''radius''"
  shows "scope_meta (used_scope e) = meta_rep (rq_zip rq)"
proof -
  let ?exact = "return_if (runQuery db rq QExact
                        (sql_exact (claims db) (rq_zip rq) (rq_cpt rq) (rq_y0 rq) (rq_y1 rq))
                        ''zip'' (meta_rep (rq_zip rq)))"
  let ?zip3 = "return_if (runQuery db rq QZip3
                           (sql_zip3 (claims db) (take 3 (rq_zip rq)) (rq_cpt rq) (rq_y0 rq) (rq_y1 rq))
                           ''zip3'' meta_empty)"
  let ?national = "return_if (runQuery db rq QNational
                                             (sql_national (claims db) (rq_cpt rq) (rq_y0 rq) (rq_y1 rq))
                                             ''national'' meta_empty)"
  let ?tail = "\<lambda>zg. or_else (radius_v2 db rq (first_row zg))
                              (or_else (state_v2 db rq (first_row zg))
                                 (or_else ?national
                                    (done_with (Json (Some (no_data (rq_zip rq)))))))"
  let ?geo = "and_then (client_query db QGeo (sql_geo (zip_geometry db) (rq_zip rq))) ?tail"
  have a: "snd (or_else ?exact (or_else ?zip3 ?geo)) = Inr (Json (Some e))"
    using assms(1) by (auto simp: try_v2_def done_with_def split: if_splits option.splits)
  from or_else_Inr [OF a] scope_v2_fields [of db rq QExact _ "''zip''" _ e] assms(2)
  have b: "snd (or_else ?zip3 ?geo) = Inr (Json (Some e))" by auto
  from or_else_Inr [OF b] scope_v2_fields [of db rq QZip3 _ "''zip3''" _ e] assms(2)
  have c: "snd ?geo = Inr (Json (Some e))" by auto
  from and_then_Inr_elim [OF c] obtain zg where
    zg2: "snd (?tail zg) = Inr (Json (Some e))" by blast
  have "snd (radius_v2 db rq (first_row zg)) = Inr (Some (Json (Some e)))"
  proof (rule ccontr)
    assume n: "snd (radius_v2 db rq (first_row zg)) \<noteq> Inr (Some (Json (Some e)))"
    with or_else_Inr [OF zg2]
    have d: "snd (or_else (state_v2 db rq (first_row zg))
                                 (or_else ?national
                                    (done_with (Json (Some (no_data (rq_zip rq))))))) = Inr (Json (Some e))"
      by auto
    from or_else_Inr [OF d] state_v2_level [of db rq "first_row zg" e] assms(2)
    have f: "snd (or_else ?national (done_with (Json (Some (no_data (rq_zip rq)))))) = Inr (Json (Some e))"
      by auto
    from or_else_Inr [OF f] scope_v2_fields [of db rq QNational _ "''national''" _ e] assms(2)
    have "snd (done_with (Json (Some (no_data (rq_zip rq))))) = Inr (Json (Some e))" by auto
    then have "e = no_data (rq_zip rq)" by (simp add: done_with_def)
    with assms(2) show False by (simp add: no_data_def)
  qed
  from radius_v2_meta [OF this] show ?thesis .
qed

lemma handler_v2_Json:
  assumes "snd (handler_v2 db rq) = Json b"
  shows "snd (try_v2 db rq) = Inr (Json b)"
  using assms by (auto simp: handler_v2_def caught_def split: if_splits sum.splits)


lemma rep_meta_nearest:
  assumes "gs \<noteq> []"
  shows "representative_zip (rep_meta (sql_rep gs qlat qlon) z) =
           Some (if g_zip5 (hd (sort_key (dist_mi qlat qlon) gs)) = [] then z
                 else g_zip5 (hd (sort_key (dist_mi qlat qlon) gs)))"
  by (simp add: sql_rep_nearest [OF assms] rep_meta_def first_row_def)

text \<open>
  C8, as amended.  For a request that is answered at the radius scope: the cascade without
  row filters reports as representative the ZIP of a row of \<open>zip_geometry\<close> that is nearest
  to the centroid of the query ZIP by haversine distance, the first row of the
  representative statement (the query ZIP itself when that row's ZIP is empty); the
  metadata is the same whatever the claims table holds.  The cascade with row filters
  reports the query ZIP and no distance.
\<close>

theorem radius_representative_is_nearest:
  assumes "level (used_scope e) = Some ''radius''"
  shows "(snd (handler_v1 db rq) = Json (Some e) \<longrightarrow>
            (\<exists>q g. first_row (sql_geo (zip_geometry db) (rq_zip rq)) = Some q \<and>
                   g \<in> set (zip_geometry db) \<and>
                   (\<forall>g'\<in>set (zip_geometry db).
                       dist_mi (g_lat q) (g_lon q) g \<le> dist_mi (g_lat q) (g_lon q) g') \<and>
                   sql_rep (zip_geometry db) (g_lat q) (g_lon q) =
                     [(g_zip5 g, dist_mi (g_lat q) (g_lon q) g)] \<and>
                   representative_zip (scope_meta (used_scope e)) =
                     Some (if g_zip5 g = [] then rq_zip rq else g_zip5 g)) \<and>
            (\<forall>cs e'. snd (handler_v1 (db\<lparr>claims := cs\<rparr>) rq) = Json (Some e') \<and>
                      level (used_scope e') = Some ''radius'' \<longrightarrow>
                      scope_meta (used_scope e') = scope_meta (used_scope e))) \<and>
         (snd (handler_v2 db rq) = Json (Some e) \<longrightarrow>
            representative_zip (scope_meta (used_scope e)) = Some (rq_zip rq) \<and>
            distance_miles (scope_meta (used_scope e)) = None)"
proof (intro conjI impI)
  assume h: "snd (handler_v1 db rq) = Json (Some e)"
  from try_v1_radius [OF handler_v1_Json [OF h] assms]
  obtain q where q: "first_row (sql_geo (zip_geometry db) (rq_zip rq)) = Some q"
    and m: "scope_meta (used_scope e) = rep_meta (sql_rep (zip_geometry db) (g_lat q) (g_lon q)) (rq_zip rq)"
    by blast
  from sql_geo_member [OF q] have ne: "zip_geometry db \<noteq> []" by auto
  let ?g = "hd (sort_key (dist_mi (g_lat q) (g_lon q)) (zip_geometry db))"
  from sort_key_hd_min [OF ne, of "dist_mi (g_lat q) (g_lon q)"]
  have "?g \<in> set (zip_geometry db)"
    and "\<forall>g'\<in>set (zip_geometry db). dist_mi (g_lat q) (g_lon q) ?g \<le> dist_mi (g_lat q) (g_lon q) g'"
    by blast+
  moreover have "sql_rep (zip_geometry db) (g_lat q) (g_lon q) = [(g_zip5 ?g, dist_mi (g_lat q) (g_lon q) ?g)]"
    by (rule sql_rep_nearest [OF ne])
  moreover have "representative_zip (scope_meta (used_scope e)) =
                     Some (if g_zip5 ?g = [] then rq_zip rq else g_zip5 ?g)"
    unfolding m by (rule rep_meta_nearest [OF ne])
  ultimately show "\<exists>q g. first_row (sql_geo (zip_geometry db) (rq_zip rq)) = Some q \<and>
                   g \<in> set (zip_geometry db) \<and>
                   (\<forall>g'\<in>set (zip_geometry db).
                       dist_mi (g_lat q) (g_lon q) g \<le> dist_mi (g_lat q) (g_lon q) g') \<and>
                   sql_rep (zip_geometry db) (g_lat q) (g_lon q) =
                     [(g_zip5 g, dist_mi (g_lat q) (g_lon q) g)] \<and>
                   representative_zip (scope_meta (used_scope e)) =
                     Some (if g_zip5 g = [] then rq_zip rq else g_zip5 g)"
    using q by blast
  show "\<forall>cs e'. snd (handler_v1 (db\<lparr>claims := cs\<rparr>) rq) = Json (Some e') \<and>
                      level (used_scope e') = Some ''radius'' \<longrightarrow>
                      scope_meta (used_scope e') = scope_meta (used_scope e)"
  proof (intro allI impI)
    fix cs e'
    assume a: "snd (handler_v1 (db\<lparr>claims := cs\<rparr>) rq) = Json (Some e') \<and>
                      level (used_scope e') = Some ''radius''"
    from try_v1_radius [OF handler_v1_Json, of "db\<lparr>claims := cs\<rparr>" rq e'] a
    obtain q' where "first_row (sql_geo (zip_geometry db) (rq_zip rq)) = Some q'"
      and "scope_meta (used_scope e') = rep_meta (sql_rep (zip_geometry db) (g_lat q') (g_lon q')) (rq_zip rq)"
      by auto
    with q m show "scope_meta (used_scope e') = scope_meta (used_scope e)" by simp
  qed
next
  assume h: "snd (handler_v2 db rq) = Json (Some e)"
  from try_v2_radius [OF handler_v2_Json [OF h] assms]
  show "representative_zip (scope_meta (used_scope e)) = Some (rq_zip rq)"
    and "distance_miles (scope_meta (used_scope e)) = None"
    by (simp_all add: meta_rep_def)
qed

lemma sql_zip3_other_prefix:
  "take 3 z' \<noteq> z3 \<Longrightarrow> sql_zip3 (claims_at z' cpt y amounts) z3 cpt y0 y1 = []"
  by (induction amounts) (simp_all add: sql_zip3_def claims_at_def)

lemma sql_radius_as_exact:
  "sql_radius gs cs qlat qlon n cpt y0 y1 =
     concat (map (\<lambda>z. sql_exact cs (g_zip5 z) cpt y0 y1) (nearest gs qlat qlon n))"
  by (simp add: sql_radius_def sql_exact_def)

lemma radius_store_queries:
  "sql_exact (claims radius_store) ''10001'' ''99213'' 2021 2025 = []"
  "sql_zip3 (claims radius_store) ''100'' ''99213'' 2021 2025 = []"
  "sql_geo (zip_geometry radius_store) ''10001'' = [near_geo]"
  "sql_radius (zip_geometry radius_store) (claims radius_store) 0 0 MAX_RADIUS_ZIPS ''99213'' 2021 2025
     = rows_in_year 2022 twelve_paid"
  "sql_rep (zip_geometry radius_store) 0 0 = [(''10001'', 0)]"
proof -
  show "sql_exact (claims radius_store) ''10001'' ''99213'' 2021 2025 = []"
    by (simp add: radius_store_def store_of_def sql_exact_other_zip)
  show "sql_zip3 (claims radius_store) ''100'' ''99213'' 2021 2025 = []"
    by (simp add: radius_store_def store_of_def sql_zip3_other_prefix)
  show "sql_geo (zip_geometry radius_store) ''10001'' = [near_geo]"
    by (simp add: radius_store_def store_of_def sql_geo_def far_geo_def near_geo_def)
  have z: "g_zip5 near_geo = ''10001''" "g_zip5 far_geo = ''07030''"
    by (simp_all add: near_geo_def far_geo_def)
  show "sql_radius (zip_geometry radius_store) (claims radius_store) 0 0 MAX_RADIUS_ZIPS ''99213'' 2021 2025
     = rows_in_year 2022 twelve_paid"
    by (simp add: sql_radius_as_exact nearest_def radius_store_def store_of_def dist_far_pos dist_near
        MAX_RADIUS_ZIPS_def z sql_exact_other_zip sql_exact_claims_at)
  show "sql_rep (zip_geometry radius_store) 0 0 = [(''10001'', 0)]"
    by (simp add: sql_rep_def radius_store_def store_of_def dist_far_pos z dist_near)
qed

lemma twelve_paid_facts:
  "length (rows_in_year y twelve_paid) = 12"
  "finite_amounts (rows_in_year y twelve_paid) \<noteq> []"
  "filterRows (rows_in_year y twelve_paid) False (Fin 0) = rows_in_year y twelve_paid"
  by (simp_all add: rows_in_year_def twelve_paid_def finite_amounts_Cons filterRows_def keep_row_def)

lemma radius_store_accepts:
  "first_accepted (\<lambda>rows. rows) (scope_candidates radius_store sample_request rm)
     = Some (''radius'', rm near_geo, rows_in_year 2022 twelve_paid)"
  "first_accepted (\<lambda>rows. filterRows rows False (Fin 0)) (scope_candidates radius_store sample_request rm)
     = Some (''radius'', rm near_geo, rows_in_year 2022 twelve_paid)"
  using radius_store_queries twelve_paid_facts [of 2022]
  by (simp_all add: first_accepted_def scope_candidates_def sample_request_def MIN_N_def
      first_row_def near_geo_def filterRows_def)

lemma radius_store_v1:
  "\<exists>e. snd (handler_v1 radius_store sample_request) = Json (Some e) \<and>
       level (used_scope e) = Some ''radius'' \<and>
       scope_meta (used_scope e) =
         \<lparr>representative_zip = Some ''10001'', distance_miles = Some None, state = None\<rparr>"
proof -
  have hp: "healthy radius_store" unfolding radius_store_def by (rule healthy_store_of)
  obtain e where e: "summarize_v1 (rows_in_year 2022 twelve_paid)
      (radius_meta_v1 radius_store sample_request near_geo) ''10001'' 2021 2025 ''radius'' = Some e"
    using twelve_paid_facts(2) [of 2022] summarize_v1_None by (metis not_Some_eq)
  have "snd (handler_v1 radius_store sample_request) = Json (Some e)"
    using handler_v1_healthy [OF well_formed_sample hp] radius_store_accepts(1) e
    by (simp add: sample_request_def)
  moreover have "radius_meta_v1 radius_store sample_request near_geo =
       \<lparr>representative_zip = Some ''10001'', distance_miles = Some None, state = None\<rparr>"
    using radius_store_queries(5)
    by (simp add: radius_meta_v1_def near_geo_def rep_meta_def first_row_def sample_request_def)
  ultimately show ?thesis using summarize_v1_fields [OF e] by auto
qed

lemma radius_store_v2:
  "\<exists>e. snd (handler_v2 radius_store sample_request) = Json (Some e) \<and>
       level (used_scope e) = Some ''radius'' \<and>
       scope_meta (used_scope e) =
         \<lparr>representative_zip = Some ''10001'', distance_miles = None, state = None\<rparr>"
proof -
  have hp: "healthy radius_store" unfolding radius_store_def by (rule healthy_store_of)
  obtain e where e: "summarize_v2 (rows_in_year 2022 twelve_paid)
      (radius_meta_v2 sample_request near_geo) ''10001'' 2021 2025 ''radius'' = Some e"
    using twelve_paid_facts(2) [of 2022] summarize_v2_None by (metis not_Some_eq)
  have "snd (handler_v2 radius_store sample_request) = Json (Some e)"
    using handler_v2_healthy [OF well_formed_sample hp] radius_store_accepts(2) e twelve_paid_facts(3)
    by (simp add: sample_request_def)
  moreover have "radius_meta_v2 sample_request near_geo =
       \<lparr>representative_zip = Some ''10001'', distance_miles = None, state = None\<rparr>"
    by (simp add: radius_meta_v2_def meta_rep_def sample_request_def)
  ultimately show ?thesis using summarize_v2_level [OF e] by auto
qed

theorem radius_representative_is_nearest_witness:
  "(\<exists>e. level (used_scope e) = Some ''radius'' \<and>
       snd (handler_v1 radius_store sample_request) = Json (Some e) \<and>
       first_row (sql_geo (zip_geometry radius_store) ''10001'') = Some near_geo \<and>
       sql_rep (zip_geometry radius_store) 0 0 = [(''10001'', 0)] \<and>
       representative_zip (scope_meta (used_scope e)) = Some ''10001'' \<and>
       sql_radius (zip_geometry radius_store) (claims radius_store) 0 0 MAX_RADIUS_ZIPS ''99213'' 2021 2025
         = sql_exact (claims radius_store) ''07030'' ''99213'' 2021 2025) \<and>
   (\<exists>e. level (used_scope e) = Some ''radius'' \<and>
       snd (handler_v2 radius_store sample_request) = Json (Some e) \<and>
       representative_zip (scope_meta (used_scope e)) = Some ''10001'' \<and>
       distance_miles (scope_meta (used_scope e)) = None)"
proof
  from radius_store_v1 obtain e where e: "snd (handler_v1 radius_store sample_request) = Json (Some e)"
    and l: "level (used_scope e) = Some ''radius''" by blast
  have q: "first_row (sql_geo (zip_geometry radius_store) ''10001'') = Some near_geo"
    by (simp add: radius_store_queries first_row_def)
  from radius_representative_is_nearest [OF l, of radius_store sample_request] e
  obtain q' g where "first_row (sql_geo (zip_geometry radius_store) (rq_zip sample_request)) = Some q'"
    and "sql_rep (zip_geometry radius_store) (g_lat q') (g_lon q') = [(g_zip5 g, dist_mi (g_lat q') (g_lon q') g)]"
    and "representative_zip (scope_meta (used_scope e)) =
           Some (if g_zip5 g = [] then rq_zip sample_request else g_zip5 g)"
    by blast
  with q have "representative_zip (scope_meta (used_scope e)) = Some ''10001''"
    using radius_store_queries(5) by (auto simp: sample_request_def near_geo_def)
  moreover have "sql_exact (claims radius_store) ''07030'' ''99213'' 2021 2025 = rows_in_year 2022 twelve_paid"
    by (simp add: radius_store_def store_of_def sql_exact_claims_at)
  ultimately show "\<exists>e. level (used_scope e) = Some ''radius'' \<and>
       snd (handler_v1 radius_store sample_request) = Json (Some e) \<and>
       first_row (sql_geo (zip_geometry radius_store) ''10001'') = Some near_geo \<and>
       sql_rep (zip_geometry radius_store) 0 0 = [(''10001'', 0)] \<and>
       representative_zip (scope_meta (used_scope e)) = Some ''10001'' \<and>
       sql_radius (zip_geometry radius_store) (claims radius_store) 0 0 MAX_RADIUS_ZIPS ''99213'' 2021 2025
         = sql_exact (claims radius_store) ''07030'' ''99213'' 2021 2025"
    using e l q radius_store_queries(4,5) by auto
next
  from radius_store_v2 obtain e where e: "snd (handler_v2 radius_store sample_request) = Json (Some e)"
    and l: "level (used_scope e) = Some ''radius''" by blast
  from radius_representative_is_nearest [OF l, of radius_store sample_request] e
  have "representative_zip (scope_meta (used_scope e)) = Some (rq_zip sample_request)"
    and "distance_miles (scope_meta (used_scope e)) = None"
    by blast+
  then show "\<exists>e. level (used_scope e) = Some ''radius'' \<and>
       snd (handler_v2 radius_store sample_request) = Json (Some e) \<and>
       representative_zip (scope_meta (used_scope e)) = Some ''10001'' \<and>
       distance_miles (scope_meta (used_scope e)) = None"
    using e l by (auto simp: sample_request_def)
qed

text \<open>
  The claim as it was stated fails on the distance: for this request, answered at the radius
  scope, the nearest location is the query ZIP at 0 miles, and the cascade without filters
  reports the distance as null while the cascade with filters reports no distance.
\<close>

theorem radius_distance_counterexample:
  "sql_rep (zip_geometry radius_store) 0 0 = [(''10001'', 0)] \<and>
   (\<exists>e. snd (handler_v1 radius_store sample_request) = Json (Some e) \<and>
        level (used_scope e) = Some ''radius'' \<and>
        distance_miles (scope_meta (used_scope e)) = Some None) \<and>
   (\<exists>e. snd (handler_v2 radius_store sample_request) = Json (Some e) \<and>
        level (used_scope e) = Some ''radius'' \<and>
        distance_miles (scope_meta (used_scope e)) = None)"
  using radius_store_v1 radius_store_v2 radius_store_queries(5) by auto

section \<open>Both cascades answer with the first scope that reaches the minimum\<close>

lemma nearest_length: "length (nearest gs qlat qlon n) = min n (length gs)"
  by (simp add: nearest_def min.commute)

lemma nearest_split:
  "mset gs = mset (nearest gs qlat qlon n) + mset (drop n (sort_key (dist_mi qlat qlon) gs))"
proof -
  let ?s = "sort_key (dist_mi qlat qlon) gs"
  have "mset (take n ?s) + mset (drop n ?s) = mset (take n ?s @ drop n ?s)"
    by (simp only: mset_append)
  also have "\<dots> = mset ?s" by (simp only: append_take_drop_id)
  also have "\<dots> = mset gs" by simp
  finally show ?thesis unfolding nearest_def by (rule sym)
qed

lemma nearest_subset: "mset (nearest gs qlat qlon n) \<subseteq># mset gs"
  using nearest_split [of gs qlat qlon n] by (metis mset_subset_eq_add_left)

lemma nearest_closest:
  "\<forall>k\<in>set (nearest gs qlat qlon n). \<forall>z\<in>#mset gs - mset (nearest gs qlat qlon n).
      dist_mi qlat qlon k \<le> dist_mi qlat qlon z"
proof (intro ballI)
  fix k z
  let ?s = "sort_key (dist_mi qlat qlon) gs"
  assume k: "k \<in> set (nearest gs qlat qlon n)"
    and z: "z \<in># mset gs - mset (nearest gs qlat qlon n)"
  have "mset gs - mset (nearest gs qlat qlon n) = mset (drop n ?s)"
    using nearest_split [of gs qlat qlon n] by simp
  with z have zd: "z \<in> set (drop n ?s)" by simp
  have "sorted (map (dist_mi qlat qlon) (take n ?s) @ map (dist_mi qlat qlon) (drop n ?s))"
    by (simp only: map_append [symmetric] append_take_drop_id sorted_sort_key)
  then have "\<forall>x\<in>set (map (dist_mi qlat qlon) (take n ?s)).
               \<forall>y\<in>set (map (dist_mi qlat qlon) (drop n ?s)). x \<le> y"
    unfolding sorted_append by blast
  then have "\<forall>x\<in>set (take n ?s). \<forall>y\<in>set (drop n ?s). dist_mi qlat qlon x \<le> dist_mi qlat qlon y"
    by auto
  with k zd show "dist_mi qlat qlon k \<le> dist_mi qlat qlon z"
    by (simp add: nearest_def)
qed

lemma candidates_ends:
  "take 2 (scope_candidates db rq rm) =
     [(''zip'', meta_rep (rq_zip rq),
         sql_exact (claims db) (rq_zip rq) (rq_cpt rq) (rq_y0 rq) (rq_y1 rq)),
      (''zip3'', meta_empty,
         sql_zip3 (claims db) (take 3 (rq_zip rq)) (rq_cpt rq) (rq_y0 rq) (rq_y1 rq))]"
  "last (scope_candidates db rq rm) =
     (''national'', meta_empty, sql_national (claims db) (rq_cpt rq) (rq_y0 rq) (rq_y1 rq))"
  by (simp_all add: scope_candidates_def)

lemma candidates_radius:
  assumes "first_row (sql_geo (zip_geometry db) (rq_zip rq)) = Some g"
  shows "(''radius'', rm g,
            sql_radius (zip_geometry db) (claims db) (g_lat g) (g_lon g) 50
              (rq_cpt rq) (rq_y0 rq) (rq_y1 rq)) \<in> set (scope_candidates db rq rm)"
  using assms by (simp add: scope_candidates_def MAX_RADIUS_ZIPS_def)

lemma candidates_state:
  assumes "first_row (sql_geo (zip_geometry db) (rq_zip rq)) = Some g"
    and "g_state g = Some st" "st \<noteq> []"
  shows "(''state'', meta_state st, sql_state (claims db) st (rq_cpt rq) (rq_y0 rq) (rq_y1 rq))
           \<in> set (scope_candidates db rq rm)"
  using assms by (simp add: scope_candidates_def geo_state_def)

lemma candidates_geo:
  "\<forall>g. first_row (sql_geo (zip_geometry db) (rq_zip rq)) = Some g \<longrightarrow>
        (''radius'', rm g,
           sql_radius (zip_geometry db) (claims db) (g_lat g) (g_lon g) 50
             (rq_cpt rq) (rq_y0 rq) (rq_y1 rq)) \<in> set (scope_candidates db rq rm) \<and>
        (\<forall>st. g_state g = Some st \<and> st \<noteq> [] \<longrightarrow>
           (''state'', meta_state st, sql_state (claims db) st (rq_cpt rq) (rq_y0 rq) (rq_y1 rq))
             \<in> set (scope_candidates db rq rm))"
  using candidates_radius [of db rq _ rm] candidates_state [of db rq _ _ rm] by blast

lemma v2_answer:
  assumes "well_formed rq" "healthy db"
  shows "\<exists>e. snd (handler_v2 db rq) = Json (Some e) \<and>
              (e = no_data (rq_zip rq) \<or>
               (\<exists>c. first_accepted (\<lambda>rows. filterRows rows (rq_exclude_zero rq) (rq_min_paid rq))
                       (scope_candidates db rq (radius_meta_v2 rq)) = Some c \<and>
                    level (used_scope e) = Some (fst c) \<and>
                    sample_size (used_scope e) =
                      length (filterRows (snd (snd c)) (rq_exclude_zero rq) (rq_min_paid rq)) \<and>
                    MIN_N \<le> sample_size (used_scope e) \<and> metrics e \<noteq> None))"
proof -
  let ?F = "\<lambda>rows. filterRows rows (rq_exclude_zero rq) (rq_min_paid rq)"
  let ?cands = "scope_candidates db rq (radius_meta_v2 rq)"
  note h = handler_v2_healthy [OF assms]
  show ?thesis
  proof (cases "first_accepted ?F ?cands")
    case None
    then show ?thesis using h by simp
  next
    case (Some c)
    from first_accepted_Some [OF Some]
    have ge: "MIN_N \<le> length (?F (snd (snd c)))" by blast
    from accepted_step [OF ge] obtain e where
      e: "summarize_v2 (?F (snd (snd c))) (fst (snd c)) (rq_zip rq) (rq_y0 rq) (rq_y1 rq) (fst c) = Some e"
      by blast
    from summarize_v2_level [OF e] ge Some h e show ?thesis by auto
  qed
qed

lemma v1_answer:
  assumes "well_formed rq" "healthy db"
  shows "\<exists>b. snd (handler_v1 db rq) = Json b \<and>
              (b = Some (no_data (rq_zip rq)) \<or>
               (\<exists>c. first_accepted (\<lambda>rows. rows) (scope_candidates db rq (radius_meta_v1 db rq)) = Some c \<and>
                    MIN_N \<le> length (snd (snd c)) \<and>
                    (if finite_amounts (snd (snd c)) = [] then b = None
                     else \<exists>e. b = Some e \<and> level (used_scope e) = Some (fst c) \<and>
                              sample_size (used_scope e) = length (snd (snd c)) \<and>
                              metrics e \<noteq> None)))"
proof -
  let ?cands = "scope_candidates db rq (radius_meta_v1 db rq)"
  note h = handler_v1_healthy [OF assms]
  show ?thesis
  proof (cases "first_accepted (\<lambda>rows. rows) ?cands")
    case None
    then show ?thesis using h by simp
  next
    case (Some c)
    from first_accepted_Some [OF Some]
    have ge: "MIN_N \<le> length (snd (snd c))" by blast
    show ?thesis
    proof (cases "finite_amounts (snd (snd c)) = []")
      case True
      then have "summarize_v1 (snd (snd c)) (fst (snd c)) (rq_zip rq) (rq_y0 rq) (rq_y1 rq) (fst c) = None"
        by (simp add: summarize_v1_None)
      with h Some ge True show ?thesis by simp
    next
      case False
      then obtain e where
        e: "summarize_v1 (snd (snd c)) (fst (snd c)) (rq_zip rq) (rq_y0 rq) (rq_y1 rq) (fst c) = Some e"
        using summarize_v1_None [of "snd (snd c)" "fst (snd c)" "rq_zip rq" "rq_y0 rq" "rq_y1 rq" "fst c"]
        by (metis not_Some_eq)
      from summarize_v1_fields [OF e] h Some ge False e show ?thesis by auto
    qed
  qed
qed

text \<open>
  C1, as amended.  On a well-formed request and a store without failures, each cascade
  answers with the summary of the first candidate, in the fixed order exact ZIP, ZIP3,
  radius, state, national, whose counted rows number at least \<open>MIN_N\<close>, which is 12, and with
  the no-data envelope when there is none.  The cascade with row filters counts the rows
  left by \<open>filterRows\<close>; the cascade without row filters counts the rows as fetched.  The
  exact and the prefix scope are always candidates and the national scope is the last; the
  radius scope is a candidate whenever the query ZIP has a geo row, and reads the claims of
  the 50 rows of \<open>zip_geometry\<close> nearest to it (of all rows when there are fewer), none of
  which is farther than a row left out; the state scope is a candidate whenever that geo
  row names a state.  The statements are sent in the order of the scopes.  An answer of the
  cascade with row filters is the no-data envelope or names the level of the accepted scope
  and a sample size of at least \<open>MIN_N\<close>, the count of its filtered rows.  An answer of the
  cascade without row filters is the no-data envelope, or the null body when the accepted
  scope has no finite amount, or names the level of the accepted scope and as sample size
  the count of its rows as fetched, which is at least \<open>MIN_N\<close>.
\<close>

theorem cascade_first_qualifying_scope:
  assumes "well_formed rq" "healthy db"
  shows "snd (handler_v2 db rq) =
           Json (case first_accepted (\<lambda>rows. filterRows rows (rq_exclude_zero rq) (rq_min_paid rq))
                   (scope_candidates db rq (radius_meta_v2 rq)) of
              None \<Rightarrow> Some (no_data (rq_zip rq))
            | Some c \<Rightarrow> summarize_v2 (filterRows (snd (snd c)) (rq_exclude_zero rq) (rq_min_paid rq))
                          (fst (snd c)) (rq_zip rq) (rq_y0 rq) (rq_y1 rq) (fst c)) \<and>
         snd (handler_v1 db rq) =
           Json (case first_accepted (\<lambda>rows. rows) (scope_candidates db rq (radius_meta_v1 db rq)) of
                   None \<Rightarrow> Some (no_data (rq_zip rq))
                 | Some c \<Rightarrow> summarize_v1 (snd (snd c)) (fst (snd c)) (rq_zip rq) (rq_y0 rq) (rq_y1 rq) (fst c)) \<and>
         (\<forall>rm. subseq (map fst (scope_candidates db rq rm))
                 [''zip'', ''zip3'', ''radius'', ''state'', ''national'']) \<and>
         (\<forall>rm. take 2 (scope_candidates db rq rm) =
                 [(''zip'', meta_rep (rq_zip rq),
                     sql_exact (claims db) (rq_zip rq) (rq_cpt rq) (rq_y0 rq) (rq_y1 rq)),
                  (''zip3'', meta_empty,
                     sql_zip3 (claims db) (take 3 (rq_zip rq)) (rq_cpt rq) (rq_y0 rq) (rq_y1 rq))]) \<and>
         (\<forall>rm. last (scope_candidates db rq rm) =
                 (''national'', meta_empty, sql_national (claims db) (rq_cpt rq) (rq_y0 rq) (rq_y1 rq))) \<and>
         (\<forall>rm g. first_row (sql_geo (zip_geometry db) (rq_zip rq)) = Some g \<longrightarrow>
             (''radius'', rm g,
                sql_radius (zip_geometry db) (claims db) (g_lat g) (g_lon g) 50
                  (rq_cpt rq) (rq_y0 rq) (rq_y1 rq)) \<in> set (scope_candidates db rq rm) \<and>
             (\<forall>st. g_state g = Some st \<and> st \<noteq> [] \<longrightarrow>
                (''state'', meta_state st, sql_state (claims db) st (rq_cpt rq) (rq_y0 rq) (rq_y1 rq))
                  \<in> set (scope_candidates db rq rm))) \<and>
         (\<forall>qlat qlon n.
             sql_radius (zip_geometry db) (claims db) qlat qlon n (rq_cpt rq) (rq_y0 rq) (rq_y1 rq) =
               concat (map (\<lambda>z. sql_exact (claims db) (g_zip5 z) (rq_cpt rq) (rq_y0 rq) (rq_y1 rq))
                         (nearest (zip_geometry db) qlat qlon n)) \<and>
             length (nearest (zip_geometry db) qlat qlon n) = min n (length (zip_geometry db)) \<and>
             mset (nearest (zip_geometry db) qlat qlon n) \<subseteq># mset (zip_geometry db) \<and>
             (\<forall>k\<in>set (nearest (zip_geometry db) qlat qlon n).
                \<forall>z\<in>#mset (zip_geometry db) - mset (nearest (zip_geometry db) qlat qlon n).
                   dist_mi qlat qlon k \<le> dist_mi qlat qlon z)) \<and>
         subseq (fst (handler_v2 db rq)) [QExact, QZip3, QGeo, QRadius, QState, QNational] \<and>
         subseq (fst (handler_v1 db rq)) [QExact, QZip3, QGeo, QRadius, QRep, QState, QNational] \<and>
         MIN_N = 12 \<and>
         (\<forall>c. first_accepted (\<lambda>rows. filterRows rows (rq_exclude_zero rq) (rq_min_paid rq))
                (scope_candidates db rq (radius_meta_v2 rq)) = Some c \<longrightarrow>
              (\<exists>i<length (scope_candidates db rq (radius_meta_v2 rq)).
                  c = scope_candidates db rq (radius_meta_v2 rq) ! i \<and>
                  MIN_N \<le> length (filterRows (snd (snd c)) (rq_exclude_zero rq) (rq_min_paid rq)) \<and>
                  (\<forall>j<i. length (filterRows (snd (snd (scope_candidates db rq (radius_meta_v2 rq) ! j)))
                                    (rq_exclude_zero rq) (rq_min_paid rq)) < MIN_N))) \<and>
         (\<forall>c. first_accepted (\<lambda>rows. rows) (scope_candidates db rq (radius_meta_v1 db rq)) = Some c \<longrightarrow>
              (\<exists>i<length (scope_candidates db rq (radius_meta_v1 db rq)).
                  c = scope_candidates db rq (radius_meta_v1 db rq) ! i \<and>
                  MIN_N \<le> length (snd (snd c)) \<and>
                  (\<forall>j<i. length (snd (snd (scope_candidates db rq (radius_meta_v1 db rq) ! j))) < MIN_N))) \<and>
         (\<exists>e. snd (handler_v2 db rq) = Json (Some e) \<and>
              (e = no_data (rq_zip rq) \<or>
               (\<exists>c. first_accepted (\<lambda>rows. filterRows rows (rq_exclude_zero rq) (rq_min_paid rq))
                       (scope_candidates db rq (radius_meta_v2 rq)) = Some c \<and>
                    level (used_scope e) = Some (fst c) \<and>
                    sample_size (used_scope e) =
                      length (filterRows (snd (snd c)) (rq_exclude_zero rq) (rq_min_paid rq)) \<and>
                    MIN_N \<le> sample_size (used_scope e) \<and> metrics e \<noteq> None))) \<and>
         (\<exists>b. snd (handler_v1 db rq) = Json b \<and>
              (b = Some (no_data (rq_zip rq)) \<or>
               (\<exists>c. first_accepted (\<lambda>rows. rows) (scope_candidates db rq (radius_meta_v1 db rq)) = Some c \<and>
                    MIN_N \<le> length (snd (snd c)) \<and>
                    (if finite_amounts (snd (snd c)) = [] then b = None
                     else \<exists>e. b = Some e \<and> level (used_scope e) = Some (fst c) \<and>
                              sample_size (used_scope e) = length (snd (snd c)) \<and>
                              metrics e \<noteq> None))))"
proof (intro conjI)
  show "snd (handler_v2 db rq) =
           Json (case first_accepted (\<lambda>rows. filterRows rows (rq_exclude_zero rq) (rq_min_paid rq))
                   (scope_candidates db rq (radius_meta_v2 rq)) of
              None \<Rightarrow> Some (no_data (rq_zip rq))
            | Some c \<Rightarrow> summarize_v2 (filterRows (snd (snd c)) (rq_exclude_zero rq) (rq_min_paid rq))
                          (fst (snd c)) (rq_zip rq) (rq_y0 rq) (rq_y1 rq) (fst c))"
    by (rule handler_v2_healthy [OF assms])
  show "snd (handler_v1 db rq) =
           Json (case first_accepted (\<lambda>rows. rows) (scope_candidates db rq (radius_meta_v1 db rq)) of
                   None \<Rightarrow> Some (no_data (rq_zip rq))
                 | Some c \<Rightarrow> summarize_v1 (snd (snd c)) (fst (snd c)) (rq_zip rq) (rq_y0 rq) (rq_y1 rq) (fst c))"
    by (rule handler_v1_healthy [OF assms])
  show "\<forall>rm. subseq (map fst (scope_candidates db rq rm))
                 [''zip'', ''zip3'', ''radius'', ''state'', ''national'']"
    using candidates_order by blast
  show "\<forall>rm. take 2 (scope_candidates db rq rm) =
                 [(''zip'', meta_rep (rq_zip rq),
                     sql_exact (claims db) (rq_zip rq) (rq_cpt rq) (rq_y0 rq) (rq_y1 rq)),
                  (''zip3'', meta_empty,
                     sql_zip3 (claims db) (take 3 (rq_zip rq)) (rq_cpt rq) (rq_y0 rq) (rq_y1 rq))]"
    using candidates_ends(1) by blast
  show "\<forall>rm. last (scope_candidates db rq rm) =
                 (''national'', meta_empty, sql_national (claims db) (rq_cpt rq) (rq_y0 rq) (rq_y1 rq))"
    using candidates_ends(2) by blast
  show "\<forall>rm g. first_row (sql_geo (zip_geometry db) (rq_zip rq)) = Some g \<longrightarrow>
             (''radius'', rm g,
                sql_radius (zip_geometry db) (claims db) (g_lat g) (g_lon g) 50
                  (rq_cpt rq) (rq_y0 rq) (rq_y1 rq)) \<in> set (scope_candidates db rq rm) \<and>
             (\<forall>st. g_state g = Some st \<and> st \<noteq> [] \<longrightarrow>
                (''state'', meta_state st, sql_state (claims db) st (rq_cpt rq) (rq_y0 rq) (rq_y1 rq))
                  \<in> set (scope_candidates db rq rm))"
    using candidates_geo by blast
  show "\<forall>qlat qlon n.
             sql_radius (zip_geometry db) (claims db) qlat qlon n (rq_cpt rq) (rq_y0 rq) (rq_y1 rq) =
               concat (map (\<lambda>z. sql_exact (claims db) (g_zip5 z) (rq_cpt rq) (rq_y0 rq) (rq_y1 rq))
                         (nearest (zip_geometry db) qlat qlon n)) \<and>
             length (nearest (zip_geometry db) qlat qlon n) = min n (length (zip_geometry db)) \<and>
             mset (nearest (zip_geometry db) qlat qlon n) \<subseteq># mset (zip_geometry db) \<and>
             (\<forall>k\<in>set (nearest (zip_geometry db) qlat qlon n).
                \<forall>z\<in>#mset (zip_geometry db) - mset (nearest (zip_geometry db) qlat qlon n).
                   dist_mi qlat qlon k \<le> dist_mi qlat qlon z)"
    using sql_radius_as_exact nearest_length nearest_subset nearest_closest by (intro allI conjI)
  show "subseq (fst (handler_v2 db rq)) [QExact, QZip3, QGeo, QRadius, QState, QNational]"
    by (rule trace_v2_healthy [OF assms])
  show "subseq (fst (handler_v1 db rq)) [QExact, QZip3, QGeo, QRadius, QRep, QState, QNational]"
    by (rule trace_v1_healthy [OF assms])
  show "MIN_N = 12" by (simp add: MIN_N_def)
  show "\<forall>c. first_accepted (\<lambda>rows. filterRows rows (rq_exclude_zero rq) (rq_min_paid rq))
                (scope_candidates db rq (radius_meta_v2 rq)) = Some c \<longrightarrow>
              (\<exists>i<length (scope_candidates db rq (radius_meta_v2 rq)).
                  c = scope_candidates db rq (radius_meta_v2 rq) ! i \<and>
                  MIN_N \<le> length (filterRows (snd (snd c)) (rq_exclude_zero rq) (rq_min_paid rq)) \<and>
                  (\<forall>j<i. length (filterRows (snd (snd (scope_candidates db rq (radius_meta_v2 rq) ! j)))
                                    (rq_exclude_zero rq) (rq_min_paid rq)) < MIN_N))"
    using first_accepted_Some
      [of "\<lambda>rows. filterRows rows (rq_exclude_zero rq) (rq_min_paid rq)"
          "scope_candidates db rq (radius_meta_v2 rq)"]
    by blast
  show "\<forall>c. first_accepted (\<lambda>rows. rows) (scope_candidates db rq (radius_meta_v1 db rq)) = Some c \<longrightarrow>
              (\<exists>i<length (scope_candidates db rq (radius_meta_v1 db rq)).
                  c = scope_candidates db rq (radius_meta_v1 db rq) ! i \<and>
                  MIN_N \<le> length (snd (snd c)) \<and>
                  (\<forall>j<i. length (snd (snd (scope_candidates db rq (radius_meta_v1 db rq) ! j))) < MIN_N))"
    using first_accepted_Some [of "\<lambda>rows. rows" "scope_candidates db rq (radius_meta_v1 db rq)"]
    by blast
  show "\<exists>e. snd (handler_v2 db rq) = Json (Some e) \<and>
              (e = no_data (rq_zip rq) \<or>
               (\<exists>c. first_accepted (\<lambda>rows. filterRows rows (rq_exclude_zero rq) (rq_min_paid rq))
                       (scope_candidates db rq (radius_meta_v2 rq)) = Some c \<and>
                    level (used_scope e) = Some (fst c) \<and>
                    sample_size (used_scope e) =
                      length (filterRows (snd (snd c)) (rq_exclude_zero rq) (rq_min_paid rq)) \<and>
                    MIN_N \<le> sample_size (used_scope e) \<and> metrics e \<noteq> None))"
    by (rule v2_answer [OF assms])
  show "\<exists>b. snd (handler_v1 db rq) = Json b \<and>
              (b = Some (no_data (rq_zip rq)) \<or>
               (\<exists>c. first_accepted (\<lambda>rows. rows) (scope_candidates db rq (radius_meta_v1 db rq)) = Some c \<and>
                    MIN_N \<le> length (snd (snd c)) \<and>
                    (if finite_amounts (snd (snd c)) = [] then b = None
                     else \<exists>e. b = Some e \<and> level (used_scope e) = Some (fst c) \<and>
                              sample_size (used_scope e) = length (snd (snd c)) \<and>
                              metrics e \<noteq> None)))"
    by (rule v1_answer [OF assms])
qed

lemma sql_exact_in_state_other:
  "z \<noteq> z' \<Longrightarrow> sql_exact (claims_in_state st z' cpt y amounts) z cpt y0 y1 = []"
  by (induction amounts) (simp_all add: sql_exact_def claims_in_state_def)

lemma sql_zip3_in_state_other:
  "take 3 z' \<noteq> z3 \<Longrightarrow> sql_zip3 (claims_in_state st z' cpt y amounts) z3 cpt y0 y1 = []"
  by (induction amounts) (simp_all add: sql_zip3_def claims_in_state_def)

lemma sql_state_in_state:
  "y0 \<le> y \<Longrightarrow> y \<le> y1 \<Longrightarrow>
   sql_state (claims_in_state st z cpt y amounts) st cpt y0 y1 = rows_in_year y amounts"
  by (induction amounts)
     (simp_all add: sql_state_def claims_in_state_def rows_in_year_def select_row_def in_window_def)

lemma state_store_queries:
  "sql_exact (claims state_store) ''10001'' ''99213'' 2021 2025 = []"
  "sql_zip3 (claims state_store) ''100'' ''99213'' 2021 2025 = []"
  "sql_geo (zip_geometry state_store) ''10001'' = [state_geo]"
  "sql_radius (zip_geometry state_store) (claims state_store) 0 0 MAX_RADIUS_ZIPS ''99213'' 2021 2025 = []"
  "sql_state (claims state_store) ''NY'' ''99213'' 2021 2025 = rows_in_year 2022 twelve_paid"
proof -
  show e: "sql_exact (claims state_store) ''10001'' ''99213'' 2021 2025 = []"
    by (simp add: state_store_def store_of_def sql_exact_in_state_other)
  show "sql_zip3 (claims state_store) ''100'' ''99213'' 2021 2025 = []"
    by (simp add: state_store_def store_of_def sql_zip3_in_state_other)
  show "sql_geo (zip_geometry state_store) ''10001'' = [state_geo]"
    by (simp add: state_store_def store_of_def sql_geo_def state_geo_def)
  have z: "g_zip5 state_geo = ''10001''" by (simp add: state_geo_def)
  have n: "nearest (zip_geometry state_store) 0 0 MAX_RADIUS_ZIPS = [state_geo]"
    by (simp add: nearest_def state_store_def store_of_def MAX_RADIUS_ZIPS_def)
  show "sql_radius (zip_geometry state_store) (claims state_store) 0 0 MAX_RADIUS_ZIPS ''99213'' 2021 2025 = []"
    by (simp add: sql_radius_as_exact n z e)
  show "sql_state (claims state_store) ''NY'' ''99213'' 2021 2025 = rows_in_year 2022 twelve_paid"
    by (simp add: state_store_def store_of_def sql_state_in_state)
qed

lemma state_store_accepts:
  "first_accepted (\<lambda>rows. rows) (scope_candidates state_store sample_request rm)
     = Some (''state'', meta_state ''NY'', rows_in_year 2022 twelve_paid)"
  "first_accepted (\<lambda>rows. filterRows rows False (Fin 0)) (scope_candidates state_store sample_request rm)
     = Some (''state'', meta_state ''NY'', rows_in_year 2022 twelve_paid)"
  using state_store_queries twelve_paid_facts [of 2022]
  by (simp_all add: first_accepted_def scope_candidates_def sample_request_def MIN_N_def
      first_row_def state_geo_def geo_state_def filterRows_def)

lemma sort_key_replicate: "sort_key f (replicate n y) = replicate n y"
proof (induction n)
  case 0
  show ?case by simp
next
  case (Suc n)
  have "insort_key f y (replicate n y) = y # replicate n y"
    by (cases n) simp_all
  with Suc show ?case by simp
qed

lemma insort_key_after_replicate:
  fixes f :: "'a \<Rightarrow> real"
  assumes "f y < f x"
  shows "insort_key f x (replicate n y) = replicate n y @ [x]"
  using assms by (induction n) simp_all

lemma nearest_crowded: "nearest (zip_geometry crowded_store) 0 0 50 = replicate 50 near_geo"
proof -
  have lt: "dist_mi 0 0 near_geo < dist_mi 0 0 far_geo"
    using dist_far_pos by (simp add: dist_near)
  have "sort_key (dist_mi 0 0) (far_geo # replicate 50 near_geo) = replicate 50 near_geo @ [far_geo]"
    by (simp only: sort_key_simps sort_key_replicate insort_key_after_replicate [of "dist_mi 0 0" near_geo far_geo 50, OF lt])
  then show ?thesis
    by (simp add: nearest_def crowded_store_def store_of_def)
qed

lemma crowded_store_queries:
  "sql_exact (claims crowded_store) ''10001'' ''99213'' 2021 2025 = []"
  "sql_zip3 (claims crowded_store) ''100'' ''99213'' 2021 2025 = []"
  "sql_geo (zip_geometry crowded_store) ''10001'' = [near_geo]"
  "sql_radius (zip_geometry crowded_store) (claims crowded_store) 0 0 MAX_RADIUS_ZIPS ''99213'' 2021 2025 = []"
  "sql_national (claims crowded_store) ''99213'' 2021 2025 = rows_in_year 2022 twelve_paid"
proof -
  show e: "sql_exact (claims crowded_store) ''10001'' ''99213'' 2021 2025 = []"
    by (simp add: crowded_store_def store_of_def sql_exact_other_zip)
  show "sql_zip3 (claims crowded_store) ''100'' ''99213'' 2021 2025 = []"
    by (simp add: crowded_store_def store_of_def sql_zip3_other_prefix)
  show "sql_geo (zip_geometry crowded_store) ''10001'' = [near_geo]"
    by (simp add: crowded_store_def store_of_def sql_geo_def far_geo_def near_geo_def)
  have z: "g_zip5 near_geo = ''10001''" by (simp add: near_geo_def)
  show "sql_radius (zip_geometry crowded_store) (claims crowded_store) 0 0 MAX_RADIUS_ZIPS ''99213'' 2021 2025 = []"
    using nearest_crowded by (simp add: sql_radius_as_exact MAX_RADIUS_ZIPS_def z e)
  show "sql_national (claims crowded_store) ''99213'' 2021 2025 = rows_in_year 2022 twelve_paid"
    by (simp add: crowded_store_def store_of_def sql_national_claims_at)
qed

lemma crowded_store_accepts:
  "first_accepted (\<lambda>rows. filterRows rows False (Fin 0)) (scope_candidates crowded_store sample_request rm)
     = Some (''national'', meta_empty, rows_in_year 2022 twelve_paid)"
  using crowded_store_queries twelve_paid_facts [of 2022]
  by (simp add: first_accepted_def scope_candidates_def sample_request_def MIN_N_def
      first_row_def near_geo_def geo_state_def filterRows_def)

lemma prefix_store_queries:
  "sql_exact (claims prefix_store) ''10001'' ''99213'' 2021 2025 = rows_in_year 2022 five_paid"
  "sql_zip3 (claims prefix_store) ''100'' ''99213'' 2021 2025
     = rows_in_year 2022 five_paid @ rows_in_year 2023 twelve_paid"
  "length (rows_in_year 2022 five_paid) = 5"
  "finite_amounts (rows_in_year 2022 five_paid @ rows_in_year 2023 twelve_paid) \<noteq> []"
  by (simp_all add: prefix_store_def store_of_def sql_exact_append sql_exact_claims_at
      sql_exact_other_zip sql_zip3_append sql_zip3_claims_at rows_in_year_def five_paid_def
      finite_amounts_Cons)

lemma prefix_store_accepts:
  "first_accepted (\<lambda>rows. rows) (scope_candidates prefix_store sample_request rm)
     = Some (''zip3'', meta_empty, rows_in_year 2022 five_paid @ rows_in_year 2023 twelve_paid)"
  "first_accepted (\<lambda>rows. filterRows rows False (Fin 0)) (scope_candidates prefix_store sample_request rm)
     = Some (''zip3'', meta_empty, rows_in_year 2022 five_paid @ rows_in_year 2023 twelve_paid)"
  using prefix_store_queries(1,2,3) twelve_paid_facts(1) [of 2023]
  by (simp_all add: first_accepted_def scope_candidates_def sample_request_def MIN_N_def
      filterRows_append filterRows_all_positive)

lemma summarize_v2_answer:
  assumes "finite_amounts rows \<noteq> []"
  shows "\<exists>e. summarize_v2 rows m z y0 y1 l = Some e \<and> level (used_scope e) = Some l \<and>
             sample_size (used_scope e) = length rows"
proof -
  from assms obtain e where e: "summarize_v2 rows m z y0 y1 l = Some e"
    using summarize_v2_None [of rows m z y0 y1 l] by (metis not_Some_eq)
  from summarize_v2_level [OF e] e show ?thesis by simp
qed

lemma summarize_v1_answer:
  assumes "finite_amounts rows \<noteq> []"
  shows "\<exists>e. summarize_v1 rows m z y0 y1 l = Some e \<and> level (used_scope e) = Some l \<and>
             sample_size (used_scope e) = length rows"
proof -
  from assms obtain e where e: "summarize_v1 rows m z y0 y1 l = Some e"
    using summarize_v1_None [of rows m z y0 y1 l] by (metis not_Some_eq)
  from summarize_v1_fields [OF e] e show ?thesis by simp
qed

theorem cascade_first_qualifying_scope_witness:
  "well_formed sample_request \<and> healthy prefix_store \<and> healthy radius_store \<and>
   healthy state_store \<and> healthy crowded_store \<and>
   length (filterRows (sql_exact (claims prefix_store) ''10001'' ''99213'' 2021 2025) False (Fin 0)) = 5 \<and>
   (\<exists>e. snd (handler_v2 prefix_store sample_request) = Json (Some e) \<and>
        level (used_scope e) = Some ''zip3'' \<and> sample_size (used_scope e) = 17) \<and>
   (\<exists>e. snd (handler_v1 prefix_store sample_request) = Json (Some e) \<and>
        level (used_scope e) = Some ''zip3'' \<and> sample_size (used_scope e) = 17) \<and>
   (\<exists>e. snd (handler_v2 radius_store sample_request) = Json (Some e) \<and>
        level (used_scope e) = Some ''radius'' \<and> sample_size (used_scope e) = 12) \<and>
   (\<exists>e. snd (handler_v1 radius_store sample_request) = Json (Some e) \<and>
        level (used_scope e) = Some ''radius'' \<and> sample_size (used_scope e) = 12) \<and>
   first_row (sql_geo (zip_geometry state_store) ''10001'') = Some state_geo \<and>
   g_state state_geo = Some ''NY'' \<and>
   (\<exists>e. snd (handler_v2 state_store sample_request) = Json (Some e) \<and>
        level (used_scope e) = Some ''state'' \<and> sample_size (used_scope e) = 12) \<and>
   (\<exists>e. snd (handler_v1 state_store sample_request) = Json (Some e) \<and>
        level (used_scope e) = Some ''state'' \<and> sample_size (used_scope e) = 12) \<and>
   length (zip_geometry crowded_store) = 51 \<and>
   sql_exact (claims crowded_store) ''07030'' ''99213'' 2021 2025 = rows_in_year 2022 twelve_paid \<and>
   far_geo \<in> set (zip_geometry crowded_store) \<and>
   length (nearest (zip_geometry crowded_store) 0 0 50) = 50 \<and>
   far_geo \<notin> set (nearest (zip_geometry crowded_store) 0 0 50) \<and>
   (\<exists>e. snd (handler_v2 crowded_store sample_request) = Json (Some e) \<and>
        level (used_scope e) = Some ''national'' \<and> sample_size (used_scope e) = 12)"
proof -
  have hp: "healthy prefix_store" unfolding prefix_store_def by (rule healthy_store_of)
  have hr: "healthy radius_store" unfolding radius_store_def by (rule healthy_store_of)
  have hs: "healthy state_store" unfolding state_store_def by (rule healthy_store_of)
  have hc: "healthy crowded_store" unfolding crowded_store_def by (rule healthy_store_of)
  note tp = cascade_first_qualifying_scope [OF well_formed_sample hp]
  note tr = cascade_first_qualifying_scope [OF well_formed_sample hr]
  note ts = cascade_first_qualifying_scope [OF well_formed_sample hs]
  note tc = cascade_first_qualifying_scope [OF well_formed_sample hc]
  have rqf: "rq_exclude_zero sample_request = False" "rq_min_paid sample_request = Fin 0"
    "rq_zip sample_request = ''10001''" "rq_y0 sample_request = 2021" "rq_y1 sample_request = 2025"
    by (simp_all add: sample_request_def)
  have f17: "filterRows (rows_in_year 2022 five_paid @ rows_in_year 2023 twelve_paid) False (Fin 0)
               = rows_in_year 2022 five_paid @ rows_in_year 2023 twelve_paid"
    by (simp add: filterRows_append filterRows_all_positive)
  have p5: "length (filterRows (sql_exact (claims prefix_store) ''10001'' ''99213'' 2021 2025) False (Fin 0)) = 5"
    by (simp add: prefix_store_queries filterRows_all_positive)
  have p2: "\<exists>e. snd (handler_v2 prefix_store sample_request) = Json (Some e) \<and>
        level (used_scope e) = Some ''zip3'' \<and> sample_size (used_scope e) = 17"
    using conjunct1 [OF tp] prefix_store_accepts(2) [of "radius_meta_v2 sample_request"]
      summarize_v2_answer [OF prefix_store_queries(4), of meta_empty "''10001''" 2021 2025 "''zip3''"]
    by (auto simp: rqf f17 prefix_store_queries(3) twelve_paid_facts(1))
  have p1: "\<exists>e. snd (handler_v1 prefix_store sample_request) = Json (Some e) \<and>
        level (used_scope e) = Some ''zip3'' \<and> sample_size (used_scope e) = 17"
    using conjunct1 [OF conjunct2 [OF tp]]
      prefix_store_accepts(1) [of "radius_meta_v1 prefix_store sample_request"]
      summarize_v1_answer [OF prefix_store_queries(4), of meta_empty "''10001''" 2021 2025 "''zip3''"]
    by (auto simp: rqf prefix_store_queries(3) twelve_paid_facts(1))
  have r2: "\<exists>e. snd (handler_v2 radius_store sample_request) = Json (Some e) \<and>
        level (used_scope e) = Some ''radius'' \<and> sample_size (used_scope e) = 12"
    using conjunct1 [OF tr] radius_store_accepts(2) [of "radius_meta_v2 sample_request"]
      summarize_v2_answer [OF twelve_paid_facts(2), of 2022 "radius_meta_v2 sample_request near_geo"
        "''10001''" 2021 2025 "''radius''"]
    by (auto simp: rqf twelve_paid_facts)
  have r1: "\<exists>e. snd (handler_v1 radius_store sample_request) = Json (Some e) \<and>
        level (used_scope e) = Some ''radius'' \<and> sample_size (used_scope e) = 12"
    using conjunct1 [OF conjunct2 [OF tr]]
      radius_store_accepts(1) [of "radius_meta_v1 radius_store sample_request"]
      summarize_v1_answer [OF twelve_paid_facts(2), of 2022
        "radius_meta_v1 radius_store sample_request near_geo" "''10001''" 2021 2025 "''radius''"]
    by (auto simp: rqf twelve_paid_facts)
  have s2: "\<exists>e. snd (handler_v2 state_store sample_request) = Json (Some e) \<and>
        level (used_scope e) = Some ''state'' \<and> sample_size (used_scope e) = 12"
    using conjunct1 [OF ts] state_store_accepts(2) [of "radius_meta_v2 sample_request"]
      summarize_v2_answer [OF twelve_paid_facts(2), of 2022 "meta_state ''NY''"
        "''10001''" 2021 2025 "''state''"]
    by (auto simp: rqf twelve_paid_facts)
  have s1: "\<exists>e. snd (handler_v1 state_store sample_request) = Json (Some e) \<and>
        level (used_scope e) = Some ''state'' \<and> sample_size (used_scope e) = 12"
    using conjunct1 [OF conjunct2 [OF ts]]
      state_store_accepts(1) [of "radius_meta_v1 state_store sample_request"]
      summarize_v1_answer [OF twelve_paid_facts(2), of 2022 "meta_state ''NY''"
        "''10001''" 2021 2025 "''state''"]
    by (auto simp: rqf twelve_paid_facts)
  have c2: "\<exists>e. snd (handler_v2 crowded_store sample_request) = Json (Some e) \<and>
        level (used_scope e) = Some ''national'' \<and> sample_size (used_scope e) = 12"
    using conjunct1 [OF tc] crowded_store_accepts [of "radius_meta_v2 sample_request"]
      summarize_v2_answer [OF twelve_paid_facts(2), of 2022 meta_empty
        "''10001''" 2021 2025 "''national''"]
    by (auto simp: rqf twelve_paid_facts)
  have sg: "first_row (sql_geo (zip_geometry state_store) ''10001'') = Some state_geo"
    "g_state state_geo = Some ''NY''"
    by (simp_all add: state_store_queries first_row_def state_geo_def)
  have cg: "length (zip_geometry crowded_store) = 51"
    "far_geo \<in> set (zip_geometry crowded_store)"
    by (simp_all add: crowded_store_def store_of_def)
  have ce: "sql_exact (claims crowded_store) ''07030'' ''99213'' 2021 2025 = rows_in_year 2022 twelve_paid"
    by (simp add: crowded_store_def store_of_def sql_exact_claims_at)
  have cn: "length (nearest (zip_geometry crowded_store) 0 0 50) = 50"
    "far_geo \<notin> set (nearest (zip_geometry crowded_store) 0 0 50)"
    by (simp_all add: nearest_crowded far_geo_def near_geo_def)
  from well_formed_sample hp hr hs hc p5 p2 p1 r2 r1 sg s2 s1 cg(1) ce cg(2) cn c2
  show ?thesis by (intro conjI)
qed

text \<open>
  The claim as it was stated fails in the cascade without row filters, which has no filter
  and counts the rows as fetched.  Of twelve rows at the query ZIP one has a finite amount:
  a single row is left after filtering, and the cascade with row filters answers with the
  no-data envelope, while the cascade without row filters accepts the exact scope and
  reports a sample size of 12.  When none of the twelve amounts is finite it answers with
  the null body, which is neither an accepted scope nor the no-data envelope.
\<close>

theorem unfiltered_count_counterexample:
  "well_formed sample_request \<and>
   healthy (store_of (claims_at ''10001'' ''99213'' 2022 one_finite) []) \<and>
   healthy (store_of (claims_at ''10001'' ''99213'' 2022 none_finite) []) \<and>
   length (sql_exact (claims (store_of (claims_at ''10001'' ''99213'' 2022 one_finite) []))
             ''10001'' ''99213'' 2021 2025) = 12 \<and>
   length (filterRows (sql_exact (claims (store_of (claims_at ''10001'' ''99213'' 2022 one_finite) []))
                         ''10001'' ''99213'' 2021 2025) False (Fin 0)) = 1 \<and>
   1 < MIN_N \<and>
   (\<exists>e. snd (handler_v1 (store_of (claims_at ''10001'' ''99213'' 2022 one_finite) []) sample_request)
           = Json (Some e) \<and>
        level (used_scope e) = Some ''zip'' \<and> sample_size (used_scope e) = 12) \<and>
   snd (handler_v2 (store_of (claims_at ''10001'' ''99213'' 2022 one_finite) []) sample_request)
     = Json (Some (no_data ''10001'')) \<and>
   snd (handler_v1 (store_of (claims_at ''10001'' ''99213'' 2022 none_finite) []) sample_request)
     = Json None"
proof -
  let ?db1 = "store_of (claims_at ''10001'' ''99213'' 2022 one_finite) []"
  let ?db0 = "store_of (claims_at ''10001'' ''99213'' 2022 none_finite) []"
  have rqf: "rq_exclude_zero sample_request = False" "rq_min_paid sample_request = Fin 0"
    "rq_zip sample_request = ''10001''" "rq_y0 sample_request = 2021" "rq_y1 sample_request = 2025"
    by (simp_all add: sample_request_def)
  have ex1: "sql_exact (claims ?db1) ''10001'' ''99213'' 2021 2025 = rows_in_year 2022 one_finite"
    by (simp add: store_of_def sql_exact_claims_at)
  have z1: "sql_zip3 (claims ?db1) ''100'' ''99213'' 2021 2025 = rows_in_year 2022 one_finite"
    by (simp add: store_of_def sql_zip3_claims_at)
  have n1: "sql_national (claims ?db1) ''99213'' 2021 2025 = rows_in_year 2022 one_finite"
    by (simp add: store_of_def sql_national_claims_at)
  have g1: "sql_geo (zip_geometry ?db1) ''10001'' = []"
    by (simp add: store_of_def sql_geo_def)
  have ex0: "sql_exact (claims ?db0) ''10001'' ''99213'' 2021 2025 = rows_in_year 2022 none_finite"
    by (simp add: store_of_def sql_exact_claims_at)
  have f1: "finite_amounts (rows_in_year 2022 one_finite) \<noteq> []"
    by (simp add: rows_in_year_def one_finite_def finite_amounts_Cons)
  have f0: "finite_amounts (rows_in_year 2022 none_finite) = []"
    by (simp add: rows_in_year_def none_finite_def finite_amounts_Cons)
  have l1: "length (rows_in_year 2022 one_finite) = 12"
    by (simp add: rows_in_year_def one_finite_def)
  have l0: "length (rows_in_year 2022 none_finite) = 12"
    by (simp add: rows_in_year_def none_finite_def)
  have k1: "length (filterRows (rows_in_year 2022 one_finite) False (Fin 0)) = 1"
    by (simp add: filterRows_def rows_in_year_def one_finite_def keep_row_def)
  have a1: "first_accepted (\<lambda>rows. rows) (scope_candidates ?db1 sample_request (radius_meta_v1 ?db1 sample_request))
              = Some (''zip'', meta_rep ''10001'', rows_in_year 2022 one_finite)"
    using ex1 l1 by (simp add: first_accepted_def scope_candidates_def sample_request_def MIN_N_def)
  have a0: "first_accepted (\<lambda>rows. rows) (scope_candidates ?db0 sample_request (radius_meta_v1 ?db0 sample_request))
              = Some (''zip'', meta_rep ''10001'', rows_in_year 2022 none_finite)"
    using ex0 l0 by (simp add: first_accepted_def scope_candidates_def sample_request_def MIN_N_def)
  have a2: "first_accepted (\<lambda>rows. filterRows rows False (Fin 0))
              (scope_candidates ?db1 sample_request (radius_meta_v2 sample_request)) = None"
    using ex1 z1 n1 g1 k1
    by (simp add: first_accepted_def scope_candidates_def sample_request_def MIN_N_def
        first_row_def geo_state_def)
  have r0: "snd (handler_v1 ?db0 sample_request) = Json None"
    using handler_v1_healthy [OF well_formed_sample healthy_store_of, of "claims_at ''10001'' ''99213'' 2022 none_finite" "[]"]
      a0 f0 by (simp add: summarize_v1_None rqf)
  have r1: "\<exists>e. snd (handler_v1 ?db1 sample_request) = Json (Some e) \<and>
        level (used_scope e) = Some ''zip'' \<and> sample_size (used_scope e) = 12"
    using handler_v1_healthy [OF well_formed_sample healthy_store_of, of "claims_at ''10001'' ''99213'' 2022 one_finite" "[]"]
      a1 summarize_v1_answer [OF f1, of "meta_rep ''10001''" "''10001''" 2021 2025 "''zip''"]
    by (auto simp: l1 rqf)
  have r2: "snd (handler_v2 ?db1 sample_request) = Json (Some (no_data ''10001''))"
    using handler_v2_healthy [OF well_formed_sample healthy_store_of, of "claims_at ''10001'' ''99213'' 2022 one_finite" "[]"]
      a2 by (simp add: rqf)
  have m: "1 < MIN_N" by (simp add: MIN_N_def)
  have e12: "length (sql_exact (claims ?db1) ''10001'' ''99213'' 2021 2025) = 12"
    unfolding ex1 by (rule l1)
  have e1: "length (filterRows (sql_exact (claims ?db1) ''10001'' ''99213'' 2021 2025) False (Fin 0)) = 1"
    unfolding ex1 by (rule k1)
  from well_formed_sample healthy_store_of [of "claims_at ''10001'' ''99213'' 2022 one_finite" "[]"]
    healthy_store_of [of "claims_at ''10001'' ''99213'' 2022 none_finite" "[]"] e12 e1 m r1 r2 r0
  show ?thesis by (intro conjI)
qed

section \<open>Failures of the store\<close>

lemma consistent_done [simp]: "consistent db (done_with x)"
  by (simp add: consistent_def done_with_def)

lemma consistent_client_query [simp]: "consistent db (client_query db q rows)"
  by (auto simp: consistent_def client_query_def split: option.splits)

lemma consistent_and_then:
  assumes "consistent db a" "\<And>x. consistent db (f x)"
  shows "consistent db (and_then a f)"
proof (cases "snd a")
  case (Inl msg)
  then show ?thesis using assms(1) by (simp add: consistent_def and_then_def)
next
  case (Inr x)
  then show ?thesis using assms(1) assms(2) [of x]
    by (auto simp: consistent_def and_then_def list_ex_iff list_all_iff split: sum.splits)
qed

lemma consistent_or_else:
  assumes "consistent db step" "consistent db rest"
  shows "consistent db (or_else step rest)"
  using assms
  by (auto simp: consistent_def or_else_def list_ex_iff list_all_iff split: sum.splits option.splits)

lemma consistent_return_if: "consistent db a \<Longrightarrow> consistent db (return_if a)"
  unfolding return_if_def by (rule consistent_and_then) simp_all

lemma consistent_runQuery [simp]: "consistent db (runQuery db rq stmt rows lvl m)"
  unfolding runQuery_def by (rule consistent_and_then) simp_all

lemma consistent_steps_v1 [simp]:
  "consistent db (exact_v1 db rq)" "consistent db (zip3_v1 db rq)"
  "consistent db (radius_v1 db rq qgeo)" "consistent db (state_v1 db rq qgeo)"
  "consistent db (national_v1 db rq)"
  unfolding exact_v1_def zip3_v1_def radius_v1_def state_v1_def national_v1_def
  by (auto intro!: consistent_and_then split: option.splits)

lemma consistent_steps_v2 [simp]:
  "consistent db (radius_v2 db rq qgeo)" "consistent db (state_v2 db rq qgeo)"
  unfolding radius_v2_def state_v2_def
  by (auto intro!: consistent_return_if split: option.splits)

lemma consistent_try_v1:
  assumes "connect_error db = None"
  shows "consistent db (try_v1 db rq)"
  using assms unfolding try_v1_def
  by (auto intro!: consistent_or_else consistent_and_then)

lemma consistent_try_v2:
  assumes "connect_error db = None"
  shows "consistent db (try_v2 db rq)"
  using assms unfolding try_v2_def
  by (auto intro!: consistent_or_else consistent_and_then consistent_return_if)


lemma json_or_else:
  assumes "snd (or_else step rest) = Inr r"
    and "\<And>r. snd step = Inr (Some r) \<Longrightarrow> is_json r"
    and "\<And>r. snd rest = Inr r \<Longrightarrow> is_json r"
  shows "is_json r"
  using or_else_Inr [OF assms(1)] assms(2,3) by blast

lemma json_steps_v1:
  "snd (exact_v1 db rq) = Inr (Some r) \<Longrightarrow> is_json r"
  "snd (zip3_v1 db rq) = Inr (Some r) \<Longrightarrow> is_json r"
  "snd (national_v1 db rq) = Inr (Some r) \<Longrightarrow> is_json r"
  "snd (state_v1 db rq qgeo) = Inr (Some r) \<Longrightarrow> is_json r"
  "snd (radius_v1 db rq qgeo) = Inr (Some r) \<Longrightarrow> is_json r"
  unfolding exact_v1_def zip3_v1_def national_v1_def state_v1_def radius_v1_def
  by (auto simp: done_with_def and_then_def split: sum.splits option.splits if_splits)

lemma json_return_if: "snd (return_if a) = Inr (Some r) \<Longrightarrow> is_json r"
  by (auto simp: return_if_def done_with_def and_then_def split: sum.splits)

lemma json_steps_v2:
  "snd (state_v2 db rq qgeo) = Inr (Some r) \<Longrightarrow> is_json r"
  "snd (radius_v2 db rq qgeo) = Inr (Some r) \<Longrightarrow> is_json r"
  unfolding state_v2_def radius_v2_def
  by (auto simp: done_with_def dest: json_return_if split: option.splits)

lemma json_try_v1:
  assumes "well_formed rq" "snd (try_v1 db rq) = Inr r"
  shows "is_json r"
proof -
  let ?tail = "\<lambda>zg. or_else (radius_v1 db rq (first_row zg))
                              (or_else (state_v1 db rq (first_row zg))
                                 (or_else (national_v1 db rq)
                                    (done_with (Json (Some (no_data (rq_zip rq)))))))"
  let ?geo = "and_then (client_query db QGeo (sql_geo (zip_geometry db) (rq_zip rq))) ?tail"
  have tail: "is_json r'" if "snd (?tail zg) = Inr r'" for zg r'
    using that
    by (elim json_or_else) (auto simp: done_with_def dest: json_steps_v1)
  have geo: "is_json r'" if "snd ?geo = Inr r'" for r'
    using and_then_Inr_elim [OF that] tail by blast
  have "snd (or_else (exact_v1 db rq) (or_else (zip3_v1 db rq) ?geo)) = Inr r"
    using assms by (auto simp: try_v1_def well_formed_def split: option.splits)
  then show ?thesis
    by (elim json_or_else) (auto dest: json_steps_v1 geo)
qed

lemma json_try_v2:
  assumes "well_formed rq" "snd (try_v2 db rq) = Inr r"
  shows "is_json r"
proof -
  let ?exact = "return_if (runQuery db rq QExact
                        (sql_exact (claims db) (rq_zip rq) (rq_cpt rq) (rq_y0 rq) (rq_y1 rq))
                        ''zip'' (meta_rep (rq_zip rq)))"
  let ?zip3 = "return_if (runQuery db rq QZip3
                           (sql_zip3 (claims db) (take 3 (rq_zip rq)) (rq_cpt rq) (rq_y0 rq) (rq_y1 rq))
                           ''zip3'' meta_empty)"
  let ?national = "return_if (runQuery db rq QNational
                                             (sql_national (claims db) (rq_cpt rq) (rq_y0 rq) (rq_y1 rq))
                                             ''national'' meta_empty)"
  let ?tail = "\<lambda>zg. or_else (radius_v2 db rq (first_row zg))
                              (or_else (state_v2 db rq (first_row zg))
                                 (or_else ?national
                                    (done_with (Json (Some (no_data (rq_zip rq)))))))"
  let ?geo = "and_then (client_query db QGeo (sql_geo (zip_geometry db) (rq_zip rq))) ?tail"
  have tail: "is_json r'" if "snd (?tail zg) = Inr r'" for zg r'
    using that
    by (elim json_or_else) (auto simp: done_with_def dest: json_steps_v2 json_return_if)
  have geo: "is_json r'" if "snd ?geo = Inr r'" for r'
    using and_then_Inr_elim [OF that] tail by blast
  have "snd (or_else ?exact (or_else ?zip3 ?geo)) = Inr r"
    using assms by (auto simp: try_v2_def well_formed_def split: option.splits)
  then show ?thesis
    by (elim json_or_else) (auto dest: json_return_if geo)
qed

lemma failure_iff_500:
  assumes wf: "well_formed rq"
    and cons: "connect_error db = None \<Longrightarrow> consistent db t"
    and js: "\<And>r. snd t = Inr r \<Longrightarrow> is_json r"
    and conn: "\<And>msg. connect_error db = Some msg \<Longrightarrow> t = ([], Inl msg)"
  shows "(\<exists>d. caught rq (snd t) = Status500 d) \<longleftrightarrow>
           (connect_error db \<noteq> None \<or> (\<exists>q\<in>set (fst t). query_error db q \<noteq> None))"
proof (cases "connect_error db")
  case (Some msg)
  then show ?thesis using conn [OF Some] by (simp add: caught_def)
next
  case None
  from cons [OF None] have c: "consistent db t" .
  show ?thesis
  proof (cases "snd t")
    case (Inl msg)
    then show ?thesis using c None
      by (auto simp: consistent_def caught_def list_ex_iff)
  next
    case (Inr r)
    with js have "is_json r" by simp
    then have "\<not> (\<exists>d. caught rq (snd t) = Status500 d)"
      using Inr by (cases r) (simp_all add: caught_def)
    moreover have "\<not> (\<exists>q\<in>set (fst t). query_error db q \<noteq> None)"
      using c Inr by (auto simp: consistent_def list_all_iff)
    ultimately show ?thesis using None by simp
  qed
qed

lemma scan_skip:
  assumes "\<And>s. fetch' s = fetch s \<or>
             ((\<exists>d err. fetch s = Resolved d (Some err)) \<and> fetch' s = Resolved (Some []) None)"
  shows "scan fetch' scopes = scan fetch scopes"
proof (induction scopes)
  case Nil
  show ?case by simp
next
  case (Cons s scopes)
  from assms [of s] show ?case
  proof
    assume "fetch' s = fetch s"
    then show ?thesis using Cons by (simp split: fetched.splits option.splits list.splits)
  next
    assume "(\<exists>d err. fetch s = Resolved d (Some err)) \<and> fetch' s = Resolved (Some []) None"
    then show ?thesis using Cons by auto
  qed
qed

lemma fetchScope_upd:
  "fetchScope (service(f := v)) rq s = fetchScope service rq s \<or>
     (fetchScope service rq s = service f \<and> fetchScope (service(f := v)) rq s = v)"
  by (auto simp: fetchScope_def split: option.splits)

lemma handler_paged_skip:
  assumes "service f = Resolved d (Some err)"
  shows "handler_paged (service(f := Resolved (Some []) None)) rq = handler_paged service rq"
proof -
  have "scan (fetchScope (service(f := Resolved (Some []) None)) rq) (scopes_of rq)
          = scan (fetchScope service rq) (scopes_of rq)"
  proof (rule scan_skip)
    fix s
    from fetchScope_upd [of service f "Resolved (Some []) None" rq s] assms
    show "fetchScope (service(f := Resolved (Some []) None)) rq s = fetchScope service rq s \<or>
             ((\<exists>d err. fetchScope service rq s = Resolved d (Some err)) \<and>
              fetchScope (service(f := Resolved (Some []) None)) rq s = Resolved (Some []) None)"
      by auto
  qed
  then show ?thesis by (simp add: handler_paged_def)
qed

lemma scan_Inl: "scan fetch scopes = Inl msg \<Longrightarrow> \<exists>s. fetch s = Rejected msg"
  by (induction scopes) (auto split: fetched.splits if_splits option.splits list.splits)

lemma fetchScope_service: "\<exists>f. fetchScope service rq s = service f"
  by (auto simp: fetchScope_def split: option.splits)

lemma handler_paged_500:
  assumes "handler_paged service rq = Paged500 m"
  shows "\<exists>f msg. service f = Rejected msg"
proof -
  from assms obtain msg where "scan (fetchScope service rq) (scopes_of rq) = Inl msg"
    by (auto simp: handler_paged_def split: sum.splits)
  from scan_Inl [OF this] obtain s where "fetchScope service rq s = Rejected msg" by blast
  with fetchScope_service [of service rq s] show ?thesis by metis
qed

text \<open>
  C3, as amended.  In both Postgres cascade handlers a well-formed request is answered with
  the 500 error response exactly when the connection failed or a statement that was sent
  failed; every JSON answer, the no-data envelope included, means that no statement that was
  sent failed.  In the paginated scope fallback a query that resolves with an error is
  skipped like a query without rows, so the response does not tell the two apart; only a
  rejected query leads to its 500 response.
\<close>

theorem store_failure_is_an_error_response:
  assumes "well_formed rq"
  shows "((\<exists>d. snd (handler_v1 db rq) = Status500 d) \<longleftrightarrow>
            (connect_error db \<noteq> None \<or> (\<exists>q\<in>set (fst (handler_v1 db rq)). query_error db q \<noteq> None))) \<and>
         ((\<exists>d. snd (handler_v2 db rq) = Status500 d) \<longleftrightarrow>
            (connect_error db \<noteq> None \<or> (\<exists>q\<in>set (fst (handler_v2 db rq)). query_error db q \<noteq> None))) \<and>
         (\<forall>service prq f d err. service f = Resolved d (Some err) \<longrightarrow>
            handler_paged (service(f := Resolved (Some []) None)) prq = handler_paged service prq) \<and>
         (\<forall>service prq m. handler_paged service prq = Paged500 m \<longrightarrow>
            (\<exists>f msg. service f = Rejected msg))"
proof (intro conjI allI impI)
  have no: "\<not> is_options rq" using assms by (simp add: well_formed_def)
  have c1: "\<And>msg. connect_error db = Some msg \<Longrightarrow> try_v1 db rq = ([], Inl msg)"
    using assms by (simp add: try_v1_def well_formed_def)
  have c2: "\<And>msg. connect_error db = Some msg \<Longrightarrow> try_v2 db rq = ([], Inl msg)"
    using assms by (simp add: try_v2_def well_formed_def)
  show "(\<exists>d. snd (handler_v1 db rq) = Status500 d) \<longleftrightarrow>
            (connect_error db \<noteq> None \<or> (\<exists>q\<in>set (fst (handler_v1 db rq)). query_error db q \<noteq> None))"
    using failure_iff_500 [OF assms consistent_try_v1 json_try_v1 [OF assms] c1] no
    by (simp add: handler_v1_def)
  show "(\<exists>d. snd (handler_v2 db rq) = Status500 d) \<longleftrightarrow>
            (connect_error db \<noteq> None \<or> (\<exists>q\<in>set (fst (handler_v2 db rq)). query_error db q \<noteq> None))"
    using failure_iff_500 [OF assms consistent_try_v2 json_try_v2 [OF assms] c2] no
    by (simp add: handler_v2_def)
next
  fix service :: "geo_filter \<Rightarrow> fetched" and prq f d err
  assume "service f = Resolved d (Some err)"
  then show "handler_paged (service(f := Resolved (Some []) None)) prq = handler_paged service prq"
    by (rule handler_paged_skip)
next
  fix service :: "geo_filter \<Rightarrow> fetched" and prq m
  assume "handler_paged service prq = Paged500 m"
  then show "\<exists>f msg. service f = Rejected msg" by (rule handler_paged_500)
qed


theorem store_failure_is_an_error_response_witness:
  "well_formed sample_request \<and>
   fst (handler_v1 timeout_store sample_request) = [QExact, QZip3] \<and>
   fst (handler_v2 timeout_store sample_request) = [QExact, QZip3] \<and>
   query_error timeout_store QZip3 = Some ''timeout'' \<and>
   (\<exists>d. snd (handler_v1 timeout_store sample_request) = Status500 d) \<and>
   (\<exists>d. snd (handler_v2 timeout_store sample_request) = Status500 d) \<and>
   snd (handler_v1 (store_of [] []) sample_request) = Json (Some (no_data ''10001'')) \<and>
   handler_paged ((\<lambda>f. Resolved None (Some ''timeout''))(EqZip ''10001'' := Resolved (Some []) None))
       paged_sample
     = handler_paged (\<lambda>f. Resolved None (Some ''timeout'')) paged_sample"
proof -
  have tr: "fst (handler_v1 timeout_store sample_request) = [QExact, QZip3]"
    using well_formed_sample
    by (simp add: handler_v1_def try_v1_def well_formed_def exact_v1_def zip3_v1_def
        client_query_def timeout_store_def sql_exact_def done_with_def MIN_N_def)
  have tr2: "fst (handler_v2 timeout_store sample_request) = [QExact, QZip3]"
    using well_formed_sample
    by (simp add: handler_v2_def try_v2_def well_formed_def runQuery_def
        client_query_def timeout_store_def sql_exact_def done_with_def MIN_N_def filterRows_def)
  have q: "query_error timeout_store QZip3 = Some ''timeout''"
    by (simp add: timeout_store_def)
  note t = store_failure_is_an_error_response [OF well_formed_sample, of timeout_store]
  from t tr q have a: "\<exists>d. snd (handler_v1 timeout_store sample_request) = Status500 d"
    by simp
  from t tr2 q have b: "\<exists>d. snd (handler_v2 timeout_store sample_request) = Status500 d"
    by simp
  from t have "\<forall>service prq f d err. service f = Resolved d (Some err) \<longrightarrow>
            handler_paged (service(f := Resolved (Some []) None)) prq = handler_paged service prq"
    by (elim conjE)
  from this [rule_format, of "\<lambda>f. Resolved None (Some ''timeout'')" "EqZip ''10001''" None "''timeout''" paged_sample]
  have c: "handler_paged ((\<lambda>f. Resolved None (Some ''timeout''))(EqZip ''10001'' := Resolved (Some []) None))
       paged_sample
     = handler_paged (\<lambda>f. Resolved None (Some ''timeout'')) paged_sample"
    by simp
  have d: "snd (handler_v1 (store_of [] []) sample_request) = Json (Some (no_data ''10001''))"
    using handler_v1_healthy [OF well_formed_sample healthy_store_of, of "[]" "[]"]
    by (simp add: first_accepted_def scope_candidates_def store_of_def sql_exact_def sql_zip3_def
        sql_geo_def sql_national_def first_row_def geo_state_def MIN_N_def sample_request_def)
  show ?thesis
    by (intro conjI) (fact well_formed_sample tr tr2 q a b c d)+
qed

text \<open>
  The claim as it was stated fails on the paginated scope fallback: when every scope query
  resolves with an error, the response is the successful one with no scope and no rows, the
  same as when every scope query resolves without rows.
\<close>

theorem failed_scopes_read_as_empty_counterexample:
  "handler_paged (\<lambda>f. Resolved None (Some ''timeout'')) paged_sample =
     Paged200 (Some ''10001'') None [] None \<and>
   handler_paged (\<lambda>f. Resolved (Some []) None) paged_sample =
     Paged200 (Some ''10001'') None [] None"
  by (simp add: handler_paged_def scopes_of_def fetchScope_def zipFallbacks_def nonempty_def
      paged_sample_def)

section \<open>The trend by year\<close>





lemma push_all_Nil [simp]: "push_all [] acc = acc"
  by (simp add: push_all_def)














lemma fst_trend_entry [simp]: "fst (trend_entry e) = fst e"
  by (simp add: trend_entry_def)










































end
